(* ===== verification/Prelude.thy ===== *)
theory Prelude
  imports Main "HOL-Library.AList" "HOL-Library.Sublist"
begin

text \<open>
  Shared vocabulary of the development: the types that \<^verbatim>\<open>src/common/types.go\<close> and
  \<^verbatim>\<open>src/common/constants.go\<close> give to paths, addresses, handles and sizes, the
  outcome of a Go call (a value, an error value, a run-time panic, a goroutine blocked
  forever, or fuel that ran out), Go's string splitting and joining, and the generic
  lemmas on association lists and strings that the components use.

  A Go map is an association list here: the position of an entry stands for the order in
  which one \<^verbatim>\<open>range\<close> loop visits it. Go leaves that order open, and every theorem
  quantifies over the list, hence over the order.
\<close>

named_theorems outcome_simps \<open>unfolding of outcome plumbing\<close>
named_theorems inv_intros \<open>operations keep their component's invariant\<close>
named_theorems go_path \<open>evaluation of path functions on canonical paths\<close>

section \<open>Types and constants\<close>

type_synonym path = string
type_synonym server_addr = string
type_synonym chunk_handle = int
type_synonym chunk_version = int
type_synonym offset = int
type_synonym checksum = string
type_synonym byte = nat
type_synonym time = int

text \<open>Times and durations are counted in nanoseconds, as \<^verbatim>\<open>time.Duration\<close> is.\<close>

definition Second :: time where
  "Second = 1000000000"

definition ServerHealthCheckTimeout :: time where
  "ServerHealthCheckTimeout = 60 * Second"

definition LeaseTimeout :: time where
  "LeaseTimeout = 120 * Second"

definition DownloadBufferItemExpire :: time where
  "DownloadBufferItemExpire = 10 * Second"

definition MinimumReplicationFactor :: nat where
  "MinimumReplicationFactor = 3"

definition ChunkMaxSizeInMb :: int where
  "ChunkMaxSizeInMb = 64"

definition ChunkMaxSizeInByte :: int where
  "ChunkMaxSizeInByte = 64 * 2 ^ 20"

definition AppendMaxSizeInByte :: int where
  "AppendMaxSizeInByte = ChunkMaxSizeInByte div 4"

definition DeletedNamespaceFilePrefix :: string where
  "DeletedNamespaceFilePrefix = ''___deleted__''"

section \<open>Outcomes of calls\<close>

text \<open>
  The error values the modelled code returns, one constructor per place that builds one.
\<close>

datatype name_error = ReservedName | ContainsPathSeparator | ContainsNullByte | ContainsControlCharacter

datatype ns_error =
    PathNotFound | PathDoesNotExist | SourceDoesNotExist | TargetAlreadyExists | FileDoesNotExist
  | IsADirectory | NotADirectory | NoHandles

datatype handle_error =
    ReplicaNotRetrieved | CannotFindChunk | HandleDoesNotExist | LostAllReplicas | InvalidHandle
  | NoReplica | NoLiveServer | NoLiveReplica | NoTarget | VerifyFailed

datatype os_error = ENOENT | ENOTDIR | EISDIR | EEXIST | EINVAL | EOF | GzipError | ArchiverClosed | TrackFailed

datatype path_error =
    ProvidedPathNotADirectory | OldPathDoesNotExist | PathAlreadyExists | NotAFile | NotARegularFile
  | NoGzExtension | EmptyFile | SubmitTimeout

datatype chunk_error =
    ChunkNotFound | ChunkAbandonedOrMissing | ChunkCompleted | ExceedsMaxSize | DataSizeTooLarge
  | BadMutationType | BufferMiss | NegativeLength | CannotDecompress

datatype rpc_error = DialFailed | ReplyTimedOut

datatype config_error =
    InvalidMasterAddress | NoHost | NoAverage | HostnameUnknown | RepliesLength
  | EmptyServerName | AddressOutOfRange | LoggerIsNil | TlsDirRequired | NegativeHeaderBytes
  | WalkFailed | MissingKeys | BadCertificatePair | ServerStartFailed | ShutdownTimedOut
  | RootNotResolved | InvalidLogLevel | UnsupportedServerType | UnsupportedLogLevel

datatype go_error =
    NameErr name_error string
  | NsErr ns_error path
  | HandleErr handle_error chunk_handle
  | NodeDoesNotExist path string
  | InvalidPath "go_error list"
  | SourceNotLocated go_error
  | TargetDirNotCreated go_error
  | CannotRemoveRoot
  | BufferIdNotFound
  | TickAndExpireMustBePositive
  | PopulationTooSmall int int
  | Errors "go_error list"
  | ServerNotFound server_addr
  | CannotExtendLease server_addr
  | DoesNotHoldLease server_addr chunk_handle
  | NotEnoughServers int
  | InvalidChunkIndex int
  | RpcError server_addr string
  | NotReported server_addr chunk_handle
  | Os os_error
  | PathErr path_error path
  | ChunkErr chunk_error chunk_handle
  | RpcErr rpc_error server_addr
  | RpcCallFailed server_addr go_error
  | Wrapped string go_error
  | BadConfig config_error string

datatype 'a outcome =
    Return 'a
  | Fail go_error
  | Panic
  | Deadlock
  | OutOfFuel

primrec bind_outcome :: "'a outcome \<Rightarrow> ('a \<Rightarrow> 'b outcome) \<Rightarrow> 'b outcome" where
  "bind_outcome (Return x) f = f x"
| "bind_outcome (Fail e) f = Fail e"
| "bind_outcome Panic f = Panic"
| "bind_outcome Deadlock f = Deadlock"
| "bind_outcome OutOfFuel f = OutOfFuel"

lemma bind_outcome_Return_iff [outcome_simps]:
  "bind_outcome m f = Return y \<longleftrightarrow> (\<exists>x. m = Return x \<and> f x = Return y)"
  by (cases m) auto

lemma bind_outcome_assoc:
  "bind_outcome (bind_outcome m f) g = bind_outcome m (\<lambda>x. bind_outcome (f x) g)"
  by (cases m) auto

text \<open>
  Computations on a state: \<open>bind_st\<close> runs the continuation on a returned value and passes every
  other outcome on.
\<close>

definition bind_st :: "'a outcome \<times> 's \<Rightarrow> ('a \<Rightarrow> 's \<Rightarrow> 'b outcome \<times> 's) \<Rightarrow> 'b outcome \<times> 's" where
  "bind_st r f = (case r of (o1, s) \<Rightarrow> (case o1 of
     Return x \<Rightarrow> f x s
   | Fail e \<Rightarrow> (Fail e, s)
   | Panic \<Rightarrow> (Panic, s)
   | Deadlock \<Rightarrow> (Deadlock, s)
   | OutOfFuel \<Rightarrow> (OutOfFuel, s)))"

lemma bind_st_simps [simp]:
  "bind_st (Return x, s) f = f x s" "bind_st (Fail e, s) f = (Fail e, s)"
  "bind_st (Panic, s) f = (Panic, s)" "bind_st (Deadlock, s) f = (Deadlock, s)"
  "bind_st (OutOfFuel, s) f = (OutOfFuel, s)"
  by (simp_all add: bind_st_def)

section \<open>Association lists\<close>

lemma map_of_update [simp]: "map_of (AList.update k v al) = (map_of al)(k \<mapsto> v)"
  by (rule update_conv')

lemma map_of_delete_alist [simp]: "map_of (AList.delete k al) = (map_of al)(k := None)"
  by (rule delete_conv')

lemma map_of_map_entry:
  "map_of (AList.map_entry k f al) k' =
     (if k' = k then map_option f (map_of al k) else map_of al k')"
  by (induction al) auto

lemma fst_map_entry [simp]: "map fst (AList.map_entry k f al) = map fst al"
  by (induction al) auto

lemma map_entry_eq_Nil [simp]: "AList.map_entry k f al = [] \<longleftrightarrow> al = []"
  by (cases al) auto

lemma set_map_entry_subset:
  "x \<in> set (AList.map_entry k f al) \<Longrightarrow>
     x \<in> set al \<or> (\<exists>v. (k, v) \<in> set al \<and> x = (k, f v))"
  by (induction al) (auto split: if_splits)

lemma set_update_subset:
  "x \<in> set (AList.update k v al) \<Longrightarrow> x = (k, v) \<or> x \<in> set al"
  by (induction al) (auto split: if_splits)

lemma set_delete_subset: "x \<in> set (AList.delete k al) \<Longrightarrow> x \<in> set al \<and> fst x \<noteq> k"
  by (auto simp: AList.delete_eq)

lemma map_of_SomeD_set: "map_of al k = Some v \<Longrightarrow> (k, v) \<in> set al"
  by (rule map_of_SomeD)

section \<open>Splitting and joining strings\<close>

text \<open>\<^verbatim>\<open>strings.Split\<close> with a one-character separator and \<^verbatim>\<open>strings.Join\<close>.\<close>

fun split_on :: "char \<Rightarrow> string \<Rightarrow> string list" where
  "split_on c [] = [[]]"
| "split_on c (x # xs) =
     (if x = c then [] # split_on c xs
      else (x # hd (split_on c xs)) # tl (split_on c xs))"

fun join_with :: "string \<Rightarrow> string list \<Rightarrow> string" where
  "join_with sep [] = []"
| "join_with sep [x] = x"
| "join_with sep (x # y # ys) = x @ sep @ join_with sep (y # ys)"

lemma split_on_neq_Nil [simp]: "split_on c s \<noteq> []"
  by (cases s) auto

lemma join_with_Cons: "xs \<noteq> [] \<Longrightarrow> join_with sep (x # xs) = x @ sep @ join_with sep xs"
  by (cases xs) auto

lemma join_with_cons_char:
  "join_with sep ((x # s) # ss) = x # join_with sep (s # ss)"
  by (cases ss) auto

lemma join_split_on: "join_with [c] (split_on c s) = s"
  by (induction s) (auto simp: join_with_Cons join_with_cons_char)

lemma split_on_no_sep: "seg \<in> set (split_on c s) \<Longrightarrow> c \<notin> set seg"
proof (induction s arbitrary: seg)
  case (Cons x s)
  have "hd (split_on c s) \<in> set (split_on c s)" by simp
  moreover have "set (tl (split_on c s)) \<subseteq> set (split_on c s)"
    by (rule subsetI) (rule list.set_sel(2), simp_all)
  ultimately show ?case using Cons by (auto split: if_splits)
qed simp

lemma split_on_single: "c \<notin> set s \<Longrightarrow> split_on c s = [s]"
  by (induction s) auto

lemma split_on_append: "split_on c (s @ c # t) = split_on c s @ split_on c t"
  by (induction s) auto

lemma split_on_join:
  "xs \<noteq> [] \<Longrightarrow> (\<And>x. x \<in> set xs \<Longrightarrow> c \<notin> set x) \<Longrightarrow> split_on c (join_with [c] xs) = xs"
proof (induction xs rule: induct_list012)
  case (2 x)
  then show ?case by (simp add: split_on_single)
next
  case (3 x y zs)
  then show ?case by (simp add: split_on_append split_on_single)
qed simp

lemma join_with_snoc: "xs \<noteq> [] \<Longrightarrow> join_with sep (xs @ [y]) = join_with sep xs @ sep @ y"
  by (induction xs rule: induct_list012) auto

lemma join_with_eq_Nil: "(\<And>x. x \<in> set xs \<Longrightarrow> x \<noteq> []) \<Longrightarrow> join_with sep xs = [] \<longleftrightarrow> xs = []"
  by (induction xs rule: induct_list012) auto

end
