(* ===== verification/Go_Path.thy ===== *)
theory Go_Path
  imports Prelude
begin

text \<open>
  The functions of Go's \<^verbatim>\<open>path/filepath\<close> that the program calls (\<^verbatim>\<open>Clean\<close>,
  \<^verbatim>\<open>Dir\<close>, \<^verbatim>\<open>Base\<close>, \<^verbatim>\<open>Join\<close>, \<^verbatim>\<open>Ext\<close>, with the Unix separator), and their
  behaviour on canonical absolute paths: \<open>abs_path ps\<close> is \<^verbatim>\<open>/p1/p2/...\<close>. Every path that
  \<^verbatim>\<open>Dir\<close> returns for an absolute path is canonical.
\<close>

section \<open>The library functions\<close>

abbreviation sep :: char where
  "sep \<equiv> CHR ''/''"

fun clean_elems :: "bool \<Rightarrow> string list \<Rightarrow> string list \<Rightarrow> string list" where
  "clean_elems rooted out [] = rev out"
| "clean_elems rooted out (s # ss) =
     (if s = [] \<or> s = ''.'' then clean_elems rooted out ss
      else if s = ''..'' then
        (case out of
           [] \<Rightarrow> if rooted then clean_elems rooted [] ss else clean_elems rooted [''..''] ss
         | o1 # out' \<Rightarrow>
             if o1 \<noteq> ''..'' then clean_elems rooted out' ss
             else if rooted then clean_elems rooted out ss
             else clean_elems rooted (''..'' # out) ss)
      else clean_elems rooted (s # out) ss)"

definition rooted :: "path \<Rightarrow> bool" where
  "rooted p \<longleftrightarrow> p \<noteq> [] \<and> hd p = sep"

definition Clean :: "path \<Rightarrow> path" where
  "Clean p =
     (if p = [] then ''.''
      else let out = join_with [sep] (clean_elems (rooted p) [] (split_on sep p))
           in if rooted p then sep # out else if out = [] then ''.'' else out)"

definition Dir :: "path \<Rightarrow> path" where
  "Dir p = Clean (rev (dropWhile (\<lambda>c. c \<noteq> sep) (rev p)))"

definition Base :: "path \<Rightarrow> string" where
  "Base p =
     (if p = [] then ''.''
      else let b = takeWhile (\<lambda>c. c \<noteq> sep) (dropWhile (\<lambda>c. c = sep) (rev p))
           in if b = [] then [sep] else rev b)"

definition Join :: "string list \<Rightarrow> path" where
  "Join es =
     (case dropWhile (\<lambda>e. e = []) es of
        [] \<Rightarrow> []
      | e # es' \<Rightarrow> Clean (join_with [sep] (e # es')))"

definition Ext :: "path \<Rightarrow> string" where
  "Ext p =
     (let b = takeWhile (\<lambda>c. c \<noteq> sep) (rev p)
      in if CHR ''.'' \<in> set b then rev (takeWhile (\<lambda>c. c \<noteq> CHR ''.'') b @ [CHR ''.'']) else [])"

section \<open>Canonical absolute paths\<close>

definition valid_comp :: "string \<Rightarrow> bool" where
  "valid_comp s \<longleftrightarrow> s \<noteq> [] \<and> sep \<notin> set s \<and> s \<noteq> ''.'' \<and> s \<noteq> ''..''"

definition abs_path :: "string list \<Rightarrow> path" where
  "abs_path ps = sep # join_with [sep] ps"

definition path_parts :: "path \<Rightarrow> string list" where
  "path_parts p = filter (\<lambda>s. s \<noteq> []) (split_on sep p)"

lemma valid_compD: "valid_comp s \<Longrightarrow> s \<noteq> []" "valid_comp s \<Longrightarrow> sep \<notin> set s"
  "valid_comp s \<Longrightarrow> s \<noteq> ''.''" "valid_comp s \<Longrightarrow> s \<noteq> ''..''"
  by (auto simp: valid_comp_def)

lemma clean_elems_valid:
  "(\<And>s. s \<in> set ss \<Longrightarrow> valid_comp s) \<Longrightarrow> clean_elems r out ss = rev out @ ss"
  by (induction ss arbitrary: out) (auto simp: valid_comp_def)

lemma split_on_abs_path:
  assumes "\<And>s. s \<in> set ps \<Longrightarrow> valid_comp s"
  shows "split_on sep (abs_path ps) = (if ps = [] then [[], []] else [] # ps)"
  using split_on_join [of ps sep] assms by (auto simp: abs_path_def valid_comp_def)

lemma path_parts_abs_path [go_path]:
  assumes "\<And>s. s \<in> set ps \<Longrightarrow> valid_comp s"
  shows "path_parts (abs_path ps) = ps"
  using split_on_abs_path [of ps] assms
  by (auto simp: path_parts_def valid_comp_def intro!: filter_True)

lemma Clean_abs_path [go_path]:
  assumes "\<And>s. s \<in> set ps \<Longrightarrow> valid_comp s"
  shows "Clean (abs_path ps) = abs_path ps"
proof -
  have "clean_elems True [] (split_on sep (abs_path ps)) = ps"
    using split_on_abs_path [of ps] clean_elems_valid [of ps True "[]"] assms by auto
  moreover have "rooted (abs_path ps)" by (simp add: rooted_def abs_path_def)
  ultimately show ?thesis by (simp add: Clean_def abs_path_def)
qed

lemma abs_path_snoc: "abs_path (ps @ [b]) = (if ps = [] then [sep] else abs_path ps @ [sep]) @ b"
  by (cases "ps = []") (auto simp: abs_path_def join_with_snoc)

lemma dropWhile_rev_no_sep:
  assumes "sep \<notin> set b"
  shows "dropWhile (\<lambda>c. c \<noteq> sep) (rev (xs @ [sep] @ b)) = rev (xs @ [sep])"
  using assms by (induction b rule: rev_induct) auto

lemma clean_elems_append_Nil:
  "clean_elems r out (ss @ [[]]) = clean_elems r out ss"
  by (induction r out ss rule: clean_elems.induct) (auto split: list.splits)

lemma clean_elems_out_no_sep:
  assumes "\<And>s. s \<in> set ss \<Longrightarrow> sep \<notin> set s"
    and "\<And>s. s \<in> set out \<Longrightarrow> s \<noteq> [] \<and> s \<noteq> ''.'' \<and> sep \<notin> set s"
  shows "s \<in> set (clean_elems r out ss) \<Longrightarrow> s \<noteq> [] \<and> s \<noteq> ''.'' \<and> sep \<notin> set s"
  using assms
proof (induction r out ss rule: clean_elems.induct)
  case (2 r out t ss)
  then show ?case by (cases out) (auto split: if_splits)
qed auto

lemma clean_elems_rooted_valid:
  assumes "\<And>s. s \<in> set ss \<Longrightarrow> sep \<notin> set s"
    and "\<And>s. s \<in> set out \<Longrightarrow> valid_comp s"
  shows "s \<in> set (clean_elems True out ss) \<Longrightarrow> valid_comp s"
  using assms
proof (induction True out ss rule: clean_elems.induct)
  case (2 out t ss)
  have "valid_comp u" if "u \<in> set (t # out)" "t \<noteq> []" "t \<noteq> ''.''" "t \<noteq> ''..''" for u
    using that "2.prems"(2) [of t] "2.prems"(3) [of u] by (auto simp: valid_comp_def)
  with 2 show ?case
    by (cases out) (auto split: if_splits)
qed auto

lemma Clean_rooted:
  assumes "rooted p"
  obtains ps where "Clean p = abs_path ps" and "\<And>s. s \<in> set ps \<Longrightarrow> valid_comp s"
proof
  let ?ps = "clean_elems True [] (split_on sep p)"
  show "Clean p = abs_path ?ps"
    using assms by (auto simp: Clean_def abs_path_def rooted_def)
  show "valid_comp s" if "s \<in> set ?ps" for s
    using clean_elems_rooted_valid [of "split_on sep p" "[]" s] split_on_no_sep [of _ sep p] that
    by auto
qed

lemma Dir_abs_path_snoc [go_path]:
  assumes "\<And>s. s \<in> set ps \<Longrightarrow> valid_comp s" and "valid_comp b"
  shows "Dir (abs_path (ps @ [b])) = abs_path ps"
proof -
  define xs where "xs = (if ps = [] then [] else abs_path ps)"
  have decomp: "abs_path (ps @ [b]) = xs @ [sep] @ b"
    by (simp add: abs_path_snoc xs_def)
  have drop: "dropWhile (\<lambda>c. c \<noteq> sep) (rev (abs_path (ps @ [b]))) = rev (xs @ [sep])"
    unfolding decomp using assms(2) by (intro dropWhile_rev_no_sep) (simp add: valid_comp_def)
  have r: "rooted (xs @ [sep])" by (auto simp: rooted_def xs_def abs_path_def)
  have "clean_elems True [] (split_on sep (xs @ [sep])) = ps"
  proof (cases "ps = []")
    case False
    then have "split_on sep (xs @ [sep]) = ([] # ps) @ [[]]"
      using split_on_append [of sep xs "[]"] split_on_abs_path [of ps] assms(1)
      by (simp add: xs_def)
    then show ?thesis
      using clean_elems_append_Nil [of True "[]" "[] # ps"] clean_elems_valid [of ps True "[]"] assms(1)
      by simp
  qed (simp add: xs_def)
  with r drop show ?thesis by (simp add: Dir_def Clean_def abs_path_def)
qed

lemma Base_abs_path_snoc [go_path]:
  assumes "valid_comp b"
  shows "Base (abs_path (ps @ [b])) = b"
proof -
  define xs where "xs = (if ps = [] then [] else abs_path ps)"
  have decomp: "abs_path (ps @ [b]) = xs @ [sep] @ b"
    by (simp add: abs_path_snoc xs_def)
  obtain c b' where c: "rev b = c # b'" and "c \<noteq> sep"
    using valid_compD(1,2) [OF assms] by (cases "rev b") (auto dest: arg_cong [where f = set])
  then have "dropWhile (\<lambda>c. c = sep) (rev b @ [sep] @ rev xs) = rev b @ [sep] @ rev xs"
    by simp
  moreover have "takeWhile (\<lambda>c. c \<noteq> sep) (rev b @ [sep] @ rev xs) = rev b"
    using valid_compD(2) [OF assms] by (intro takeWhile_append2 [THEN trans]) auto
  moreover have "rev b \<noteq> []" using c by simp
  ultimately show ?thesis
    unfolding Base_def decomp by simp
qed

lemma Dir_root [go_path]: "Dir (abs_path []) = abs_path []"
  by (simp add: Dir_def abs_path_def Clean_def rooted_def)

lemma Join_abs_path [go_path]:
  assumes "\<And>s. s \<in> set ps \<Longrightarrow> valid_comp s" and "valid_comp b"
  shows "Join [abs_path ps, b] = abs_path (ps @ [b])"
proof (cases "ps = []")
  case True
  have "split_on sep (sep # sep # b) = [[], [], b]"
    using valid_compD(2) [OF assms(2)] by (simp add: split_on_single)
  with assms(2) True show ?thesis
    by (simp add: Join_def abs_path_def Clean_def rooted_def valid_comp_def)
next
  case False
  then have "Join [abs_path ps, b] = Clean (abs_path (ps @ [b]))"
    by (simp add: Join_def abs_path_def join_with_snoc)
  also have "\<dots> = abs_path (ps @ [b])"
    using assms by (intro Clean_abs_path) auto
  finally show ?thesis .
qed

lemma path_parts_no_empty: "s \<in> set (path_parts p) \<Longrightarrow> s \<noteq> [] \<and> sep \<notin> set s"
  by (auto simp: path_parts_def dest: split_on_no_sep)

lemma rooted_Dir_arg: "rooted p \<Longrightarrow> rooted (rev (dropWhile (\<lambda>c. c \<noteq> sep) (rev p)))"
proof -
  assume "rooted p"
  then obtain q where p: "p = sep # q" by (cases p) (auto simp: rooted_def)
  have "dropWhile (\<lambda>c. c \<noteq> sep) (rev q @ [sep]) \<noteq> []" by (simp add: dropWhile_eq_Nil_conv)
  moreover have "last (dropWhile (\<lambda>c. c \<noteq> sep) (rev q @ [sep])) = sep"
    by (induction "rev q" arbitrary: q) (auto simp: dropWhile_append)
  ultimately show ?thesis by (simp add: p rooted_def hd_rev)
qed

text \<open>The parent of an absolute path is canonical.\<close>

lemma Dir_rooted:
  assumes "rooted p"
  obtains ps where "Dir p = abs_path ps" and "\<And>s. s \<in> set ps \<Longrightarrow> valid_comp s"
  using Clean_rooted [OF rooted_Dir_arg [OF assms]] unfolding Dir_def by blast

end
