(* ===== verification/Deque.thy ===== *)
theory Deque
  imports Prelude
begin

text \<open>
  The double-ended queue of \<^verbatim>\<open>src/common/queue.go\<close>: a doubly linked list of heap nodes
  with a head, a tail and a length counter. Pointers are addresses into an explicit heap, so
  the theory sees the links exactly as the code leaves them, stale ones included. Every method
  holds \<^verbatim>\<open>qs.mu\<close> throughout and is one atomic operation.

  Two interfaces are stated as locales and interpreted on these operations: a FIFO queue
  (\<^verbatim>\<open>PushBack\<close> with \<^verbatim>\<open>PopFront\<close>, the use made by garbage collection and by the namespace
  listing) and a stack (\<^verbatim>\<open>PushBack\<close> with \<^verbatim>\<open>PopBack\<close>, the use made by the lease list).
  Mixing the two pops is not covered by either, and the last section shows why.
\<close>

section \<open>Nodes, state and operations\<close>

record 'a node =
  data :: 'a
  nxt :: "nat option"
  prv :: "nat option"

record 'a deque =
  heap :: "nat \<Rightarrow> 'a node option"
  fresh :: nat
  head :: "nat option"
  tail :: "nat option"
  qlen :: int

definition empty_deque :: "'a deque" where
  "empty_deque = \<lparr>heap = (\<lambda>_. None), fresh = 0, head = None, tail = None, qlen = 0\<rparr>"

definition Length :: "'a deque \<Rightarrow> int" where
  "Length q = qlen q"

definition IsEmpty :: "'a deque \<Rightarrow> bool" where
  "IsEmpty q \<longleftrightarrow> qlen q = 0"

text \<open>A nil pointer dereference is a run-time panic.\<close>

definition deref :: "'a deque \<Rightarrow> nat option \<Rightarrow> (nat \<times> 'a node) outcome" where
  "deref q p =
     (case p of None \<Rightarrow> Panic
      | Some a \<Rightarrow> (case heap q a of None \<Rightarrow> Panic | Some n \<Rightarrow> Return (a, n)))"

definition PushFront :: "'a \<Rightarrow> 'a deque \<Rightarrow> 'a deque outcome" where
  "PushFront v q =
     (let a = fresh q;
          node = \<lparr>data = v, nxt = None, prv = None\<rparr>;
          q1 = q\<lparr>fresh := Suc a, qlen := qlen q + 1\<rparr>
      in if head q = None \<and> tail q = None
         then Return (q1\<lparr>heap := (heap q)(a \<mapsto> node), head := Some a, tail := Some a\<rparr>)
         else bind_outcome (deref q (head q)) (\<lambda>(h, hn).
           Return (q1\<lparr>heap := (heap q)(h \<mapsto> hn\<lparr>prv := Some a\<rparr>, a \<mapsto> node\<lparr>nxt := Some h\<rparr>),
                      head := Some a\<rparr>)))"

definition PushBack :: "'a \<Rightarrow> 'a deque \<Rightarrow> 'a deque outcome" where
  "PushBack v q =
     (let a = fresh q;
          node = \<lparr>data = v, nxt = None, prv = None\<rparr>;
          q1 = q\<lparr>fresh := Suc a, qlen := qlen q + 1\<rparr>
      in if head q = None \<and> tail q = None
         then Return (q1\<lparr>heap := (heap q)(a \<mapsto> node), head := Some a, tail := Some a\<rparr>)
         else bind_outcome (deref q (tail q)) (\<lambda>(t, tn).
           Return (q1\<lparr>heap := (heap q)(t \<mapsto> tn\<lparr>nxt := Some a\<rparr>, a \<mapsto> node\<lparr>prv := Some t\<rparr>),
                      tail := Some a\<rparr>)))"

text \<open>\<open>zero\<close> is the zero value of the element type, returned by a pop of an empty queue.\<close>

definition PopFront :: "'a \<Rightarrow> 'a deque \<Rightarrow> ('a \<times> 'a deque) outcome" where
  "PopFront zero q =
     (if tail q = None \<and> head q = None then Return (zero, q)
      else let q1 = q\<lparr>qlen := qlen q - 1\<rparr>
           in bind_outcome (deref q (head q)) (\<lambda>(h, hn).
                if nxt hn = None then Return (data hn, q1\<lparr>tail := None, head := None\<rparr>)
                else Return (data hn, q1\<lparr>heap := (heap q)(h \<mapsto> hn\<lparr>nxt := None\<rparr>),
                                         head := nxt hn\<rparr>)))"

definition PopBack :: "'a \<Rightarrow> 'a deque \<Rightarrow> ('a \<times> 'a deque) outcome" where
  "PopBack zero q =
     (if tail q = None \<and> head q = None then Return (zero, q)
      else let q1 = q\<lparr>qlen := qlen q - 1\<rparr>
           in bind_outcome (deref q (tail q)) (\<lambda>(t, tn).
                if prv tn = None then Return (data tn, q1\<lparr>tail := None, head := None\<rparr>)
                else bind_outcome (deref q (prv tn)) (\<lambda>(p, pn).
                  Return (data tn, q1\<lparr>heap := (heap q)(p \<mapsto> pn\<lparr>nxt := None\<rparr>,
                                                        t \<mapsto> tn\<lparr>nxt := None\<rparr>),
                                     tail := Some p\<rparr>))))"

text \<open>
  The loop of \<^verbatim>\<open>PopAllReverse\<close> runs while the length counter is not zero; the fuel bounds
  its iterations.
\<close>

fun PopAllReverse_loop :: "nat \<Rightarrow> 'a \<Rightarrow> 'a deque \<Rightarrow> 'a list \<Rightarrow> ('a list \<times> 'a deque) outcome" where
  "PopAllReverse_loop 0 zero q ret = OutOfFuel"
| "PopAllReverse_loop (Suc fuel) zero q ret =
     (if Length q \<noteq> 0
      then bind_outcome (PopBack zero q) (\<lambda>(v, q'). PopAllReverse_loop fuel zero q' (ret @ [v]))
      else Return (ret, q))"

definition PopAllReverse :: "'a \<Rightarrow> 'a deque \<Rightarrow> ('a list \<times> 'a deque) outcome" where
  "PopAllReverse zero q = PopAllReverse_loop (Suc (nat (Length q))) zero q []"

section \<open>Representation\<close>

text \<open>
  \<open>linked h as\<close>: the nodes at the addresses \<open>as\<close> are linked to each other in this order, in
  both directions, and the last one ends the list. Nothing is said of the first node's
  \<^verbatim>\<open>prev\<close>: \<^verbatim>\<open>PopFront\<close> does not clear it.
\<close>

fun linked :: "(nat \<Rightarrow> 'a node option) \<Rightarrow> nat list \<Rightarrow> bool" where
  "linked h [] \<longleftrightarrow> True"
| "linked h [a] \<longleftrightarrow> (\<exists>n. h a = Some n \<and> nxt n = None)"
| "linked h (a # b # as) \<longleftrightarrow>
     (\<exists>n m. h a = Some n \<and> nxt n = Some b \<and> h b = Some m \<and> prv m = Some a) \<and> linked h (b # as)"

definition repr :: "'a deque \<Rightarrow> nat list \<Rightarrow> bool" where
  "repr q as \<longleftrightarrow>
     linked (heap q) as \<and> distinct as \<and> (\<forall>a \<in> set as. a < fresh q) \<and>
     head q = (if as = [] then None else Some (hd as)) \<and>
     tail q = (if as = [] then None else Some (last as)) \<and>
     qlen q = int (length as)"

definition head_clear :: "'a deque \<Rightarrow> nat list \<Rightarrow> bool" where
  "head_clear q as \<longleftrightarrow> (as \<noteq> [] \<longrightarrow> map_option prv (heap q (hd as)) = Some None)"

definition fifo_inv :: "'a deque \<Rightarrow> bool" where
  "fifo_inv q \<longleftrightarrow> (\<exists>as. repr q as)"

definition lifo_inv :: "'a deque \<Rightarrow> bool" where
  "lifo_inv q \<longleftrightarrow> (\<exists>as. repr q as \<and> head_clear q as)"

text \<open>The contents, read by following \<^verbatim>\<open>next\<close> from the head.\<close>

fun walk_next :: "nat \<Rightarrow> (nat \<Rightarrow> 'a node option) \<Rightarrow> nat option \<Rightarrow> 'a list" where
  "walk_next 0 h p = []"
| "walk_next (Suc k) h p =
     (case p of None \<Rightarrow> []
      | Some a \<Rightarrow> (case h a of None \<Rightarrow> [] | Some n \<Rightarrow> data n # walk_next k h (nxt n)))"

definition contents :: "'a deque \<Rightarrow> 'a list" where
  "contents q = walk_next (nat (qlen q)) (heap q) (head q)"

definition datas :: "(nat \<Rightarrow> 'a node option) \<Rightarrow> nat list \<Rightarrow> 'a list" where
  "datas h as = map (\<lambda>a. data (the (h a))) as"

lemma linked_walk: "linked h (a # as) \<Longrightarrow> walk_next (Suc (length as)) h (Some a) = datas h (a # as)"
proof (induction as arbitrary: a)
  case (Cons b as)
  from Cons.prems obtain n where "h a = Some n" "nxt n = Some b" by auto
  moreover from Cons.prems have "linked h (b # as)" by auto
  ultimately show ?case using Cons.IH [of b] by (simp add: datas_def)
qed (auto simp: datas_def)

lemma contents_repr: "repr q as \<Longrightarrow> contents q = datas (heap q) as"
proof (cases as)
  case (Cons a bs)
  assume "repr q as"
  with Cons have "linked (heap q) (a # bs)" "head q = Some a" "nat (qlen q) = Suc (length bs)"
    by (auto simp: repr_def)
  then show ?thesis
    unfolding contents_def Cons by (simp only: linked_walk)
qed (simp add: repr_def contents_def datas_def)

lemma linked_nodes: "linked h as \<Longrightarrow> a \<in> set as \<Longrightarrow> \<exists>n. h a = Some n"
  by (induction h as rule: linked.induct) auto

lemma linked_tl: "linked h (a # as) \<Longrightarrow> linked h as"
  by (cases as) auto

lemma linked_last_nxt: "linked h as \<Longrightarrow> as \<noteq> [] \<Longrightarrow> \<exists>n. h (last as) = Some n \<and> nxt n = None"
  by (induction h as rule: linked.induct) auto

lemma linked_frame: "linked h as \<Longrightarrow> a \<notin> set as \<Longrightarrow> linked (h(a \<mapsto> n)) as"
  by (induction h as rule: linked.induct) auto

lemma linked_head_prv: "linked h (a # as) \<Longrightarrow> h a = Some n \<Longrightarrow> linked (h(a \<mapsto> n\<lparr>prv := p\<rparr>)) (a # as)
  \<or> a \<in> set as"
  by (cases as) (auto intro: linked_frame)

lemma linked_append_last:
  "linked h (as @ [b, c]) \<Longrightarrow>
     (\<exists>n m. h b = Some n \<and> nxt n = Some c \<and> h c = Some m \<and> prv m = Some b \<and> nxt m = None)"
  by (induction as rule: induct_list012) auto

lemma linked_snoc_upd:
  assumes "linked h (as @ [t])" "h t = Some n" "distinct (as @ [t])" "c \<notin> set (as @ [t])"
  shows "linked (h(t \<mapsto> n\<lparr>nxt := Some c\<rparr>, c \<mapsto> \<lparr>data = v, nxt = None, prv = Some t\<rparr>)) (as @ [t, c])"
  using assms
proof (induction as rule: induct_list012)
  case (3 a b as)
  then show ?case by (cases as) auto
qed auto

lemma linked_butlast_upd:
  assumes "linked h (as @ [p, t])" "h p = Some n" "distinct (as @ [p, t])"
  shows "linked (h(p \<mapsto> n\<lparr>nxt := None\<rparr>, t \<mapsto> m)) (as @ [p])"
  using assms
proof (induction as rule: induct_list012)
  case (3 a b as)
  then show ?case by (cases as) auto
qed auto

lemma datas_cong:
  "(\<And>a. a \<in> set as \<Longrightarrow> data (the (h a)) = data (the (h' a))) \<Longrightarrow> datas h as = datas h' as"
  unfolding datas_def by (rule map_cong) auto

lemma datas_append [simp]: "datas h (as @ bs) = datas h as @ datas h bs"
  by (simp add: datas_def)

lemma datas_Cons [simp]: "datas h (a # as) = data (the (h a)) # datas h as"
  by (simp add: datas_def)

lemma datas_Nil [simp]: "datas h [] = []"
  by (simp add: datas_def)

lemma datas_eq_Nil [simp]: "datas h as = [] \<longleftrightarrow> as = []"
  by (simp add: datas_def)

section \<open>Each operation on a represented queue\<close>

lemma empty_repr: "repr empty_deque []"
  by (simp add: repr_def empty_deque_def)

lemma Length_contents: "repr q as \<Longrightarrow> Length q = int (length (contents q))"
  by (simp add: contents_repr Length_def datas_def) (simp add: repr_def)

lemma PushBack_repr:
  assumes "repr q as"
  obtains q' where "PushBack v q = Return q'" and "repr q' (as @ [fresh q])"
    and "contents q' = contents q @ [v]"
    and "head_clear q as \<Longrightarrow> head_clear q' (as @ [fresh q])"
proof (cases as rule: rev_cases)
  case Nil
  define q' where "q' = q\<lparr>heap := (heap q)(fresh q \<mapsto> \<lparr>data = v, nxt = None, prv = None\<rparr>),
    fresh := Suc (fresh q), head := Some (fresh q), tail := Some (fresh q), qlen := qlen q + 1\<rparr>"
  have r: "repr q' [fresh q]" using assms Nil by (simp add: repr_def q'_def)
  show thesis
  proof (rule that [of q'])
    show "PushBack v q = Return q'"
      using assms Nil by (simp add: PushBack_def repr_def q'_def Let_def)
    show "contents q' = contents q @ [v]"
      using contents_repr [OF r] contents_repr [OF assms] Nil by (simp add: q'_def)
  qed (use r Nil in \<open>simp_all add: head_clear_def q'_def\<close>)
next
  case (snoc bs t)
  obtain n where n: "heap q t = Some n"
    using assms snoc linked_nodes [of "heap q" as t] by (auto simp: repr_def)
  define q' where "q' = q\<lparr>heap := (heap q)(t \<mapsto> n\<lparr>nxt := Some (fresh q)\<rparr>,
      fresh q \<mapsto> \<lparr>data = v, nxt = None, prv = Some t\<rparr>),
    fresh := Suc (fresh q), tail := Some (fresh q), qlen := qlen q + 1\<rparr>"
  have new: "fresh q \<notin> set as" using assms by (auto simp: repr_def)
  have "linked (heap q') (bs @ [t, fresh q])"
    using assms snoc n new linked_snoc_upd [of "heap q" bs t n "fresh q" v]
    by (simp add: repr_def q'_def)
  then have r: "repr q' (as @ [fresh q])"
    using assms snoc new by (auto simp: repr_def q'_def hd_append)
  show thesis
  proof (rule that [of q'])
    show "PushBack v q = Return q'"
      using assms snoc n by (simp add: PushBack_def deref_def repr_def q'_def Let_def)
    have "datas (heap q') as = datas (heap q) as"
      using new n by (intro datas_cong) (auto simp: q'_def)
    then show "contents q' = contents q @ [v]"
      using contents_repr [OF r] contents_repr [OF assms] by (simp add: q'_def)
    show "head_clear q' (as @ [fresh q])" if "head_clear q as"
      using that new n snoc by (cases bs) (auto simp: head_clear_def q'_def)
  qed (rule r)
qed

lemma PushFront_repr:
  assumes "repr q as"
  obtains q' where "PushFront v q = Return q'" and "repr q' (fresh q # as)"
    and "contents q' = v # contents q" and "head_clear q' (fresh q # as)"
proof (cases as)
  case Nil
  define q' where "q' = q\<lparr>heap := (heap q)(fresh q \<mapsto> \<lparr>data = v, nxt = None, prv = None\<rparr>),
    fresh := Suc (fresh q), head := Some (fresh q), tail := Some (fresh q), qlen := qlen q + 1\<rparr>"
  have r: "repr q' [fresh q]" using assms Nil by (simp add: repr_def q'_def)
  show thesis
  proof (rule that [of q'])
    show "PushFront v q = Return q'"
      using assms Nil by (simp add: PushFront_def repr_def q'_def Let_def)
    show "contents q' = v # contents q"
      using contents_repr [OF r] contents_repr [OF assms] Nil by (simp add: q'_def)
  qed (use r Nil in \<open>simp_all add: head_clear_def q'_def\<close>)
next
  case (Cons h bs)
  obtain n where n: "heap q h = Some n"
    using assms Cons linked_nodes [of "heap q" as h] by (auto simp: repr_def)
  define q' where "q' = q\<lparr>heap := (heap q)(h \<mapsto> n\<lparr>prv := Some (fresh q)\<rparr>,
      fresh q \<mapsto> \<lparr>data = v, nxt = Some h, prv = None\<rparr>),
    fresh := Suc (fresh q), head := Some (fresh q), qlen := qlen q + 1\<rparr>"
  have new: "fresh q \<notin> set as" using assms by (auto simp: repr_def)
  have "linked ((heap q)(h \<mapsto> n\<lparr>prv := Some (fresh q)\<rparr>)) as"
    using assms Cons n linked_head_prv [of "heap q" h bs n] by (auto simp: repr_def)
  from linked_frame [OF this new] have "linked (heap q') as" by (simp add: q'_def)
  then have r: "repr q' (fresh q # as)"
    using assms Cons new by (auto simp: repr_def q'_def)
  show thesis
  proof (rule that [of q'])
    show "PushFront v q = Return q'"
      using assms Cons n by (simp add: PushFront_def deref_def repr_def q'_def Let_def)
    have "datas (heap q') as = datas (heap q) as"
      using new n by (intro datas_cong) (auto simp: q'_def)
    then show "contents q' = v # contents q"
      using contents_repr [OF r] contents_repr [OF assms] by (simp add: q'_def)
  qed (use r in \<open>simp_all add: head_clear_def q'_def\<close>)
qed

lemma PopFront_repr:
  assumes "repr q (a # as)"
  obtains q' where "PopFront zero q = Return (hd (contents q), q')" and "repr q' as"
    and "contents q' = tl (contents q)"
proof -
  obtain n where n: "heap q a = Some n"
    using assms linked_nodes [of "heap q" "a # as" a] by (auto simp: repr_def)
  define q' where "q' = (case as of
      [] \<Rightarrow> q\<lparr>qlen := qlen q - 1, tail := None, head := None\<rparr>
    | b # _ \<Rightarrow> q\<lparr>qlen := qlen q - 1, heap := (heap q)(a \<mapsto> n\<lparr>nxt := None\<rparr>), head := Some b\<rparr>)"
  have r: "repr q' as"
    using assms linked_frame [OF linked_tl, of "heap q" a as a]
    by (cases as) (auto simp: repr_def q'_def)
  have "datas (heap q') as = datas (heap q) as"
    using assms by (intro datas_cong) (auto simp: q'_def repr_def split: list.splits)
  then have c: "contents q' = tl (contents q)" "hd (contents q) = data n"
    using contents_repr [OF r] contents_repr [OF assms] n by simp_all
  have "PopFront zero q = Return (data n, q')"
    using assms n by (cases as) (auto simp: PopFront_def deref_def repr_def q'_def)
  with r c show thesis by (intro that) simp_all
qed

lemma PopBack_repr:
  assumes "repr q (as @ [a])" and "head_clear q (as @ [a])"
  obtains q' where "PopBack zero q = Return (last (contents q), q')" and "repr q' as"
    and "contents q' = butlast (contents q)" and "head_clear q' as"
proof (cases as rule: rev_cases)
  case Nil
  obtain n where n: "heap q a = Some n" "prv n = None"
    using assms Nil by (auto simp: head_clear_def)
  define q' where "q' = q\<lparr>qlen := qlen q - 1, tail := None, head := None\<rparr>"
  have r: "repr q' as" using assms Nil by (simp add: repr_def q'_def)
  show thesis
  proof (rule that [of q'])
    show "PopBack zero q = Return (last (contents q), q')"
      using assms Nil n contents_repr [OF assms(1)]
      by (simp add: PopBack_def deref_def repr_def q'_def)
    show "contents q' = butlast (contents q)"
      using contents_repr [OF r] contents_repr [OF assms(1)] Nil by simp
  qed (use r Nil in \<open>simp_all add: head_clear_def\<close>)
next
  case (snoc bs p)
  obtain n m where n: "heap q p = Some n" and m: "heap q a = Some m" "prv m = Some p"
    using assms snoc linked_append_last [of "heap q" bs p a] by (auto simp: repr_def)
  define q' where "q' = q\<lparr>qlen := qlen q - 1, tail := Some p,
    heap := (heap q)(p \<mapsto> n\<lparr>nxt := None\<rparr>, a \<mapsto> m\<lparr>nxt := None\<rparr>)\<rparr>"
  have pa: "a \<notin> set as" using assms(1) snoc by (auto simp: repr_def)
  have r: "repr q' as"
    using assms snoc n linked_butlast_upd [of "heap q" bs p a n "m\<lparr>nxt := None\<rparr>"]
    by (auto simp: repr_def q'_def hd_append)
  show thesis
  proof (rule that [of q'])
    have c: "contents q = datas (heap q) as @ [data m]"
      using contents_repr [OF assms(1)] m by simp
    then show "PopBack zero q = Return (last (contents q), q')"
      using assms(1) snoc n m by (simp add: PopBack_def deref_def repr_def q'_def)
    have "datas (heap q') as = datas (heap q) as"
      using pa n by (intro datas_cong) (auto simp: q'_def)
    then show "contents q' = butlast (contents q)"
      using contents_repr [OF r] c by simp
    show "head_clear q' as"
      using assms(2) pa n snoc by (auto simp: head_clear_def q'_def hd_append split: if_splits)
  qed (rule r)
qed

lemma fifo_inv_empty [simp]: "fifo_inv empty_deque"
  using empty_repr by (auto simp: fifo_inv_def)

lemma lifo_inv_empty [simp]: "lifo_inv empty_deque"
  using empty_repr by (auto simp: lifo_inv_def head_clear_def)

lemma contents_empty [simp]: "contents empty_deque = []"
  using contents_repr [OF empty_repr] by simp

lemma fifo_inv_Length: "fifo_inv q \<Longrightarrow> Length q = int (length (contents q))"
  by (auto simp: fifo_inv_def intro: Length_contents)

lemma lifo_inv_Length: "lifo_inv q \<Longrightarrow> Length q = int (length (contents q))"
  by (auto simp: lifo_inv_def intro: Length_contents)

section \<open>Interfaces\<close>

text \<open>Loops over a queue that the clients run: push every element of a slice, pop \<open>k\<close> times.\<close>

fun push_all :: "('a \<Rightarrow> 'q \<Rightarrow> 'q outcome) \<Rightarrow> 'a list \<Rightarrow> 'q \<Rightarrow> 'q outcome" where
  "push_all push [] q = Return q"
| "push_all push (x # xs) q = bind_outcome (push x q) (push_all push xs)"

fun pop_times :: "('q \<Rightarrow> ('a \<times> 'q) outcome) \<Rightarrow> nat \<Rightarrow> 'q \<Rightarrow> ('a list \<times> 'q) outcome" where
  "pop_times pop 0 q = Return ([], q)"
| "pop_times pop (Suc k) q =
     bind_outcome (pop q) (\<lambda>(x, q'). bind_outcome (pop_times pop k q') (\<lambda>(xs, q''). Return (x # xs, q'')))"

locale push_queue =
  fixes empty_q :: 'q
    and push :: "'a \<Rightarrow> 'q \<Rightarrow> 'q outcome"
    and len :: "'q \<Rightarrow> int"
    and items :: "'q \<Rightarrow> 'a list"
    and inv :: "'q \<Rightarrow> bool"
  assumes inv_empty: "inv empty_q"
    and items_empty: "items empty_q = []"
    and push_law: "inv q \<Longrightarrow> \<exists>q'. push x q = Return q' \<and> inv q' \<and> items q' = items q @ [x]"
    and len_law: "inv q \<Longrightarrow> len q = int (length (items q))"
begin

lemma push_all_law:
  "inv q \<Longrightarrow> \<exists>q'. push_all push xs q = Return q' \<and> inv q' \<and> items q' = items q @ xs"
proof (induction xs arbitrary: q)
  case (Cons x xs)
  from push_law [OF Cons.prems, of x] obtain q1
    where 1: "push x q = Return q1" "inv q1" "items q1 = items q @ [x]" by blast
  from Cons.IH [OF 1(2)] 1 show ?case by auto
qed simp

lemma len_pos_iff: "inv q \<Longrightarrow> 0 < len q \<longleftrightarrow> items q \<noteq> []"
  by (simp add: len_law)

end

locale fifo_queue = push_queue empty_q push len items inv
  for empty_q :: 'q and push :: "'a \<Rightarrow> 'q \<Rightarrow> 'q outcome" and len and items and inv +
  fixes pop :: "'q \<Rightarrow> ('a \<times> 'q) outcome"
  assumes pop_law: "inv q \<Longrightarrow> items q = x # xs \<Longrightarrow>
    \<exists>q'. pop q = Return (x, q') \<and> inv q' \<and> items q' = xs"
begin

lemma pop_times_law:
  "inv q \<Longrightarrow> k \<le> length (items q) \<Longrightarrow>
    \<exists>q'. pop_times pop k q = Return (take k (items q), q') \<and> inv q' \<and> items q' = drop k (items q)"
proof (induction k arbitrary: q)
  case (Suc k)
  then obtain x xs where xs: "items q = x # xs" by (cases "items q") auto
  from pop_law [OF Suc.prems(1) xs] obtain q1
    where 1: "pop q = Return (x, q1)" "inv q1" "items q1 = xs" by blast
  with Suc.IH [OF 1(2)] Suc.prems(2) xs show ?case by auto
qed simp

lemma push_then_drain:
  "inv q \<Longrightarrow> \<exists>q1 q2. push_all push xs q = Return q1 \<and>
     pop_times pop (length (items q) + length xs) q1 = Return (items q @ xs, q2) \<and>
     inv q2 \<and> items q2 = []"
  using push_all_law [of q xs] pop_times_law [of _ "length (items q) + length xs"] by fastforce

end

locale lifo_stack = push_queue empty_q push len items inv
  for empty_q :: 'q and push :: "'a \<Rightarrow> 'q \<Rightarrow> 'q outcome" and len and items and inv +
  fixes pop_back :: "'q \<Rightarrow> ('a \<times> 'q) outcome"
  assumes pop_back_law: "inv q \<Longrightarrow> items q = xs @ [x] \<Longrightarrow>
    \<exists>q'. pop_back q = Return (x, q') \<and> inv q' \<and> items q' = xs"
begin

lemma pop_back_times_law:
  "inv q \<Longrightarrow> k \<le> length (items q) \<Longrightarrow>
    \<exists>q'. pop_times pop_back k q = Return (take k (rev (items q)), q') \<and> inv q' \<and>
         rev (items q') = drop k (rev (items q))"
proof (induction k arbitrary: q)
  case (Suc k)
  then obtain x xs where xs: "items q = xs @ [x]" by (cases "items q" rule: rev_cases) auto
  from pop_back_law [OF Suc.prems(1) xs] obtain q1
    where 1: "pop_back q = Return (x, q1)" "inv q1" "items q1 = xs" by blast
  with Suc.IH [OF 1(2)] Suc.prems(2) xs show ?case by auto
qed simp

end

interpretation dq_fifo: fifo_queue empty_deque PushBack Length contents fifo_inv "PopFront zero" for zero
proof (unfold_locales, goal_cases)
  case (3 q x)
  then obtain as where "repr q as" by (auto simp: fifo_inv_def)
  then show ?case by (rule PushBack_repr [of q as x]) (auto simp: fifo_inv_def)
next
  case (5 q x xs)
  then obtain as where r: "repr q as" by (auto simp: fifo_inv_def)
  with 5(2) obtain a bs where "as = a # bs" by (cases as) (auto simp: contents_repr)
  with r have "repr q (a # bs)" by simp
  then show ?case by (rule PopFront_repr [of q a bs zero]) (use 5(2) in \<open>auto simp: fifo_inv_def\<close>)
qed (simp_all add: fifo_inv_Length)

interpretation dq_lifo: lifo_stack empty_deque PushBack Length contents lifo_inv "PopBack zero" for zero
proof (unfold_locales, goal_cases)
  case (3 q x)
  then obtain as where "repr q as" "head_clear q as" by (auto simp: lifo_inv_def)
  then show ?case by (metis PushBack_repr lifo_inv_def)
next
  case (5 q xs x)
  then obtain as where r: "repr q as" "head_clear q as" by (auto simp: lifo_inv_def)
  with 5(2) obtain a bs where "as = bs @ [a]" by (cases as rule: rev_cases) (auto simp: contents_repr)
  with r have "repr q (bs @ [a])" "head_clear q (bs @ [a])" by simp_all
  then show ?case by (rule PopBack_repr [of q bs a zero]) (use 5(2) in \<open>auto simp: lifo_inv_def\<close>)
qed (simp_all add: lifo_inv_Length)

section \<open>Properties\<close>

text \<open>
  C36. Used through \<^verbatim>\<open>PushBack\<close> and \<^verbatim>\<open>PopFront\<close> the linked structure is a FIFO queue:
  from any state these two operations produce, pushing a slice and then popping as often as
  there are elements returns the old elements followed by the new ones, in order, and leaves
  the queue empty. No nil pointer is dereferenced on the way.
\<close>

theorem deque_fifo:
  assumes "fifo_inv q"
  shows "\<exists>q1 q2. push_all PushBack xs q = Return q1 \<and>
    pop_times (PopFront zero) (length (contents q) + length xs) q1 = Return (contents q @ xs, q2) \<and>
    fifo_inv q2 \<and> contents q2 = [] \<and> IsEmpty q2"
proof -
  obtain q1 q2 where *: "push_all PushBack xs q = Return q1"
      "pop_times (PopFront zero) (length (contents q) + length xs) q1 = Return (contents q @ xs, q2)"
      "fifo_inv q2" "contents q2 = []"
    using dq_fifo.push_then_drain [OF assms] by blast
  then have "IsEmpty q2" using dq_fifo.len_law [of q2] by (simp add: IsEmpty_def Length_def)
  with * show ?thesis by blast
qed

theorem deque_fifo_witness:
  "fifo_inv (empty_deque :: nat deque) \<and>
   (\<exists>q1 q2. push_all PushBack [4, 5, 6] (empty_deque :: nat deque) = Return q1 \<and>
      pop_times (PopFront 0) 3 q1 = Return ([4, 5, 6], q2) \<and> IsEmpty q2)"
  using deque_fifo [OF dq_fifo.inv_empty, of "[4, 5, 6]" "0 :: nat"] dq_fifo.inv_empty
  by (auto simp: dq_fifo.items_empty numeral_eq_Suc)

lemma PopAllReverse_loop_lifo:
  "lifo_inv q \<Longrightarrow> length (contents q) < fuel \<Longrightarrow>
    \<exists>q'. PopAllReverse_loop fuel zero q ret = Return (ret @ rev (contents q), q') \<and>
         lifo_inv q' \<and> contents q' = []"
proof (induction fuel arbitrary: q ret)
  case (Suc fuel)
  have len: "Length q = int (length (contents q))" using Suc.prems by (simp add: dq_lifo.len_law)
  show ?case
  proof (cases "contents q" rule: rev_cases)
    case Nil
    with Suc.prems len show ?thesis by auto
  next
    case (snoc xs x)
    from dq_lifo.pop_back_law [OF Suc.prems(1) snoc, of zero] obtain q1
      where 1: "PopBack zero q = Return (x, q1)" "lifo_inv q1" "contents q1 = xs" by blast
    with Suc.IH [OF 1(2), of "ret @ [x]"] Suc.prems(2) snoc len show ?thesis by auto
  qed
qed simp

lemma PopAllReverse_law:
  assumes "lifo_inv q"
  shows "\<exists>q'. PopAllReverse zero q = Return (rev (contents q), q') \<and> lifo_inv q' \<and> contents q' = []"
proof -
  have "length (contents q) < Suc (nat (Length q))"
    using dq_lifo.len_law [OF assms] by simp
  from PopAllReverse_loop_lifo [OF assms this, of zero "[]"] show ?thesis
    by (auto simp: PopAllReverse_def)
qed

text \<open>
  Used through \<^verbatim>\<open>PushBack\<close> and \<^verbatim>\<open>PopBack\<close> it is a stack, and \<^verbatim>\<open>PopAllReverse\<close>
  terminates and returns the elements from the last pushed to the first, leaving it empty.
\<close>

theorem deque_PopAllReverse:
  assumes "lifo_inv q"
  shows "\<exists>q'. PopAllReverse zero q = Return (rev (contents q), q') \<and> lifo_inv q' \<and> IsEmpty q'"
  using PopAllReverse_law [OF assms, of zero] dq_lifo.len_law by (fastforce simp: IsEmpty_def Length_def)

theorem deque_PopAllReverse_witness:
  "\<exists>q q'. push_all PushBack [4, 5, 6 :: nat] empty_deque = Return q \<and>
     PopAllReverse 0 q = Return ([6, 5, 4], q') \<and> IsEmpty q'"
proof -
  obtain q where q: "push_all PushBack [4, 5, 6 :: nat] empty_deque = Return q" "lifo_inv q"
      "contents q = [4, 5, 6]"
    using dq_lifo.push_all_law [OF dq_lifo.inv_empty, of "[4, 5, 6 :: nat]"]
    by (auto simp: dq_lifo.items_empty)
  then show ?thesis using deque_PopAllReverse [OF q(2), of 0] by auto
qed

definition mixed_pops :: "nat list outcome" where
  "mixed_pops =
     bind_outcome (push_all PushBack [1, 2] empty_deque) (\<lambda>q.
     bind_outcome (PopFront 0 q) (\<lambda>(x, q).
     bind_outcome (PopBack 0 q) (\<lambda>(y, q).
     bind_outcome (PushBack 3 q) (\<lambda>q.
     bind_outcome (PopFront 0 q) (\<lambda>(z, q).
     Return [x, y, z, nat (Length q)])))))"

text \<open>
  The two pops do not mix. \<^verbatim>\<open>PopFront\<close> leaves the new head's \<^verbatim>\<open>prev\<close> pointing at the
  removed node, and \<^verbatim>\<open>PopBack\<close> takes a non-nil \<^verbatim>\<open>prev\<close> to mean that another element
  is queued. After pushing 1 and 2 and popping one at each end the counter is 0 but the
  pointers are not nil, so a later \<^verbatim>\<open>PushBack 3\<close>, \<^verbatim>\<open>PopFront\<close> returns the 2 a second
  time and the 3 is lost.
\<close>

theorem deque_mixed_pops_lose_element: "mixed_pops = Return [1, 2, 2, 0]"
  by (simp add: mixed_pops_def PushBack_def PopFront_def PopBack_def deref_def empty_deque_def
      Length_def)

end
