(* ===== verification/Helpers.thy ===== *)
theory Helpers
  imports Complex_Main Prelude
begin

text \<open>
  The generic slice and map helpers, the random sample and the file name check of
  \<^verbatim>\<open>src/common/helpers.go\<close>. Loops that append to a result slice are accumulator
  recursions; each is proved equal to the list function that the other components' lemmas
  use. \<^verbatim>\<open>float64\<close> values are exact rationals.
\<close>

section \<open>Slices and maps\<close>

fun TransformSlice_loop :: "('a \<Rightarrow> 'b) \<Rightarrow> 'a list \<Rightarrow> 'b list \<Rightarrow> 'b list" where
  "TransformSlice_loop transform [] result = result"
| "TransformSlice_loop transform (item # slice) result =
     TransformSlice_loop transform slice (result @ [transform item])"

definition TransformSlice :: "'a list \<Rightarrow> ('a \<Rightarrow> 'b) \<Rightarrow> 'b list" where
  "TransformSlice slice transform = TransformSlice_loop transform slice []"

fun ForEachInSlice :: "'a list \<Rightarrow> ('a \<Rightarrow> 's \<Rightarrow> 's) \<Rightarrow> 's \<Rightarrow> 's" where
  "ForEachInSlice [] action s = s"
| "ForEachInSlice (item # slice) action s = ForEachInSlice slice action (action item s)"

fun IterateOverMap :: "('k \<times> 'v) list \<Rightarrow> ('k \<Rightarrow> 'v \<Rightarrow> 's \<Rightarrow> 's) \<Rightarrow> 's \<Rightarrow> 's" where
  "IterateOverMap [] action s = s"
| "IterateOverMap ((k, v) # m) action s = IterateOverMap m action (action k v s)"

fun FilterSlice_loop :: "('a \<Rightarrow> bool) \<Rightarrow> 'a list \<Rightarrow> 'a list \<Rightarrow> 'a list" where
  "FilterSlice_loop p [] result = result"
| "FilterSlice_loop p (item # slice) result =
     FilterSlice_loop p slice (if p item then result @ [item] else result)"

definition FilterSlice :: "'a list \<Rightarrow> ('a \<Rightarrow> bool) \<Rightarrow> 'a list" where
  "FilterSlice slice p = FilterSlice_loop p slice []"

fun FilterMapToNew_loop :: "('v \<Rightarrow> bool) \<Rightarrow> ('k \<times> 'v) list \<Rightarrow> ('k \<times> 'v) list \<Rightarrow> ('k \<times> 'v) list" where
  "FilterMapToNew_loop p [] result = result"
| "FilterMapToNew_loop p ((k, v) # m) result =
     FilterMapToNew_loop p m (if p v then AList.update k v result else result)"

definition FilterMapToNew :: "('k \<times> 'v) list \<Rightarrow> ('v \<Rightarrow> bool) \<Rightarrow> ('k \<times> 'v) list" where
  "FilterMapToNew m p = FilterMapToNew_loop p m []"

definition ExtractFromMap :: "('k \<times> 'v) list \<Rightarrow> ('v \<Rightarrow> bool) \<Rightarrow> ('k \<times> 'v) list" where
  "ExtractFromMap m fn = FilterMapToNew_loop fn m []"

fun ReduceSlice :: "'a list \<Rightarrow> 'b \<Rightarrow> ('b \<Rightarrow> 'a \<Rightarrow> 'b) \<Rightarrow> 'b" where
  "ReduceSlice [] result accumulator = result"
| "ReduceSlice (item # slice) result accumulator =
     ReduceSlice slice (accumulator result item) accumulator"

fun FindInSlice :: "'a \<Rightarrow> 'a list \<Rightarrow> ('a \<Rightarrow> bool) \<Rightarrow> 'a \<times> bool" where
  "FindInSlice zero [] p = (zero, False)"
| "FindInSlice zero (item # slice) p = (if p item then (item, True) else FindInSlice zero slice p)"

fun GroupByKey_loop :: "('a \<Rightarrow> 'k) \<Rightarrow> 'a list \<Rightarrow> ('k \<times> 'a list) list \<Rightarrow> ('k \<times> 'a list) list" where
  "GroupByKey_loop keyFunc [] result = result"
| "GroupByKey_loop keyFunc (item # slice) result =
     (let key = keyFunc item;
          old = (case map_of result key of None \<Rightarrow> [] | Some g \<Rightarrow> g)
      in GroupByKey_loop keyFunc slice (AList.update key (old @ [item]) result))"

definition GroupByKey :: "'a list \<Rightarrow> ('a \<Rightarrow> 'k) \<Rightarrow> ('k \<times> 'a list) list" where
  "GroupByKey slice keyFunc = GroupByKey_loop keyFunc slice []"

text \<open>
  \<^verbatim>\<open>slice[i:end]\<close> panics when \<^verbatim>\<open>end < i\<close>. With a chunk size of zero the loop variable
  never advances; the fuel then runs out.
\<close>

fun ChunkSlice_loop :: "nat \<Rightarrow> 'a list \<Rightarrow> int \<Rightarrow> int \<Rightarrow> 'a list list \<Rightarrow> 'a list list outcome" where
  "ChunkSlice_loop 0 slice chunkSize i chunks = OutOfFuel"
| "ChunkSlice_loop (Suc fuel) slice chunkSize i chunks =
     (if i < int (length slice)
      then let e = i + chunkSize;
               e' = (if e > int (length slice) then int (length slice) else e)
           in if e' < i then Panic
              else ChunkSlice_loop fuel slice chunkSize (i + chunkSize)
                     (chunks @ [take (nat (e' - i)) (drop (nat i) slice)])
      else Return chunks)"

definition ChunkSlice :: "'a list \<Rightarrow> int \<Rightarrow> 'a list list outcome" where
  "ChunkSlice slice chunkSize = ChunkSlice_loop (Suc (length slice)) slice chunkSize 0 []"

definition ZipSlices :: "'a list \<Rightarrow> 'b list \<Rightarrow> ('a \<times> 'b) list" where
  "ZipSlices slice1 slice2 =
     (let minLen = min (length slice1) (length slice2)
      in map (\<lambda>i. (slice1 ! i, slice2 ! i)) [0..<minLen])"

fun Sum :: "rat list \<Rightarrow> rat" where
  "Sum [] = 0"
| "Sum (x # xs) = x + Sum xs"

text \<open>
  \<open>perm\<close> is the permutation of \<open>0, ..., n - 1\<close> that \<^verbatim>\<open>rand.Perm(n)\<close> returns; a negative
  \<open>k\<close> is an out-of-range slice bound.
\<close>

definition Sample :: "nat list \<Rightarrow> int \<Rightarrow> int \<Rightarrow> nat list outcome" where
  "Sample perm n k =
     (if n < k then Fail (PopulationTooSmall n k)
      else if k < 0 then Panic
      else Return (take (nat k) perm))"

section \<open>File names and sizes\<close>

text \<open>\<^verbatim>\<open>ValidateFilename\<close> returns nil (\<open>None\<close>) or the first error it finds.\<close>

definition ValidateFilename :: "string \<Rightarrow> path \<Rightarrow> go_error option" where
  "ValidateFilename filename p =
     (if filename = '''' \<or> filename = ''.'' \<or> filename = ''..'' then Some (NameErr ReservedName filename)
      else if CHR ''/'' \<in> set filename \<or> CHR 0x5C \<in> set filename
        then Some (NameErr ContainsPathSeparator filename)
      else if CHR 0x00 \<in> set filename then Some (NameErr ContainsNullByte filename)
      else if (\<exists>c \<in> set filename. of_char c < (32 :: nat))
        then Some (NameErr ContainsControlCharacter filename)
      else None)"

text \<open>Decimal digits and the number they stand for.\<close>

definition is_digit :: "char \<Rightarrow> bool" where
  "is_digit c \<longleftrightarrow> 48 \<le> (of_char c :: nat) \<and> (of_char c :: nat) < 58"

fun digits_value :: "nat \<Rightarrow> string \<Rightarrow> nat" where
  "digits_value acc [] = acc"
| "digits_value acc (c # cs) = digits_value (10 * acc + (of_char c - 48)) cs"

text \<open>Conversion of a signed 64-bit value to \<^verbatim>\<open>uint64\<close>, and unsigned addition.\<close>

definition to_uint64 :: "int \<Rightarrow> int" where
  "to_uint64 x = x mod 2 ^ 64"

definition add_uint64 :: "int \<Rightarrow> int \<Rightarrow> int" where
  "add_uint64 x y = (x + y) mod 2 ^ 64"

definition BToMb :: "int \<Rightarrow> rat" where
  "BToMb b = of_int b / (1024 * 1024)"

section \<open>The loops compute the list functions\<close>

lemma TransformSlice_loop_eq: "TransformSlice_loop f xs r = r @ map f xs"
  by (induction xs arbitrary: r) auto

lemma TransformSlice_eq [simp]: "TransformSlice xs f = map f xs"
  by (simp add: TransformSlice_def TransformSlice_loop_eq)

lemma ForEachInSlice_fold: "ForEachInSlice xs f s = fold f xs s"
  by (induction xs arbitrary: s) auto

lemma IterateOverMap_fold: "IterateOverMap m f s = fold (\<lambda>(k, v). f k v) m s"
  by (induction m f s rule: IterateOverMap.induct) auto

lemma FilterSlice_loop_eq: "FilterSlice_loop p xs r = r @ filter p xs"
  by (induction xs arbitrary: r) auto

lemma FilterSlice_eq [simp]: "FilterSlice xs p = filter p xs"
  by (simp add: FilterSlice_def FilterSlice_loop_eq)

lemma ReduceSlice_eq: "ReduceSlice xs s f = foldl f s xs"
  by (induction xs arbitrary: s) auto

lemma FindInSlice_eq:
  "FindInSlice z xs p = (case List.find p xs of None \<Rightarrow> (z, False) | Some x \<Rightarrow> (x, True))"
  by (induction xs) auto

lemma ZipSlices_eq: "ZipSlices xs ys = zip xs ys"
  by (rule nth_equalityI) (auto simp: ZipSlices_def Let_def)

lemma update_notin: "k \<notin> fst ` set m \<Longrightarrow> AList.update k v m = m @ [(k, v)]"
  by (induction m) auto

lemma FilterMapToNew_loop_eq:
  "distinct (map fst (r @ m)) \<Longrightarrow> FilterMapToNew_loop p m r = r @ filter (\<lambda>(k, v). p v) m"
proof (induction m arbitrary: r)
  case (Cons kv m)
  obtain k v where kv: "kv = (k, v)" by fastforce
  then have "k \<notin> fst ` set r" using Cons.prems by auto
  then show ?case using Cons.IH [of "r @ [(k, v)]"] Cons.IH [of r] Cons.prems
    by (auto simp: kv update_notin)
qed simp

lemma GroupByKey_loop_lookup:
  "map_of (GroupByKey_loop f xs r) k =
     (if k \<in> f ` set xs
      then Some ((case map_of r k of None \<Rightarrow> [] | Some g \<Rightarrow> g) @ filter (\<lambda>x. f x = k) xs)
      else map_of r k)"
  by (induction xs arbitrary: r)
    (auto simp: Let_def image_iff filter_empty_conv eq_commute [of "[]"] split: option.splits)

lemma BToMb_le_iff: "BToMb b > of_int ChunkMaxSizeInMb \<longleftrightarrow> b > ChunkMaxSizeInByte"
proof -
  have "BToMb b > of_int ChunkMaxSizeInMb \<longleftrightarrow> (of_int b :: rat) > of_int (64 * 1024 * 1024)"
    by (simp add: BToMb_def ChunkMaxSizeInMb_def field_simps)
  also have "\<dots> \<longleftrightarrow> b > 64 * 1024 * 1024" by (simp only: of_int_less_iff)
  finally show ?thesis by (simp add: ChunkMaxSizeInByte_def)
qed

section \<open>Properties\<close>

lemma ChunkSlice_loop_spec:
  assumes "0 < k" and "length xs - i < fuel"
  shows "\<exists>cs. ChunkSlice_loop fuel xs (int k) (int i) acc = Return (acc @ cs) \<and>
    concat cs = drop i xs \<and> (\<forall>c \<in> set cs. c \<noteq> [] \<and> length c \<le> k) \<and>
    (\<forall>c \<in> set (butlast cs). length c = k)"
  using assms(2)
proof (induction fuel arbitrary: i acc)
  case (Suc fuel)
  show ?case
  proof (cases "i < length xs")
    case False
    then show ?thesis by auto
  next
    case True
    define c where "c = take k (drop i xs)"
    have step: "ChunkSlice_loop (Suc fuel) xs (int k) (int i) acc =
        ChunkSlice_loop fuel xs (int k) (int (i + k)) (acc @ [c])"
      using True by (auto simp: c_def Let_def nat_diff_distrib nat_int_add)
    have "length xs - (i + k) < fuel" using Suc.prems True assms(1) by arith
    then obtain cs where cs: "ChunkSlice_loop fuel xs (int k) (int (i + k)) (acc @ [c]) = Return ((acc @ [c]) @ cs)"
        "concat cs = drop (i + k) xs" "\<forall>c \<in> set cs. c \<noteq> [] \<and> length c \<le> k"
        "\<forall>c \<in> set (butlast cs). length c = k"
      using Suc.IH [of "i + k" "acc @ [c]"] by blast
    have "concat (c # cs) = drop i xs"
      using cs(2) by (simp add: c_def) (metis append_take_drop_id drop_drop add.commute)
    moreover have "c \<noteq> []" "length c \<le> k" using True assms(1) by (auto simp: c_def)
    moreover have "length c = k" if "cs \<noteq> []"
    proof -
      have "concat cs \<noteq> []" using that cs(3) by (cases cs) auto
      with cs(2) show ?thesis by (simp add: c_def)
    qed
    ultimately show ?thesis using step cs by (intro exI [of _ "c # cs"]) auto
  qed
qed simp

text \<open>
  \<^verbatim>\<open>ChunkSlice\<close> with a positive size returns: the chunks put together are the slice, none
  is empty, and all but the last have exactly the size asked for.
\<close>

theorem ChunkSlice_correct:
  assumes "0 < k"
  shows "\<exists>cs. ChunkSlice xs (int k) = Return cs \<and> concat cs = xs \<and>
    (\<forall>c \<in> set cs. c \<noteq> [] \<and> length c \<le> k) \<and> (\<forall>c \<in> set (butlast cs). length c = k)"
  using ChunkSlice_loop_spec [of k xs 0 "Suc (length xs)" "[]"] assms
  by (simp add: ChunkSlice_def)

theorem ChunkSlice_correct_witness:
  "(0::nat) < 2 \<and> (\<exists>cs. ChunkSlice [1, 2, 3, 4, 5 :: nat] 2 = Return cs \<and> concat cs = [1, 2, 3, 4, 5])"
  using ChunkSlice_correct [of 2 "[1, 2, 3, 4, 5 :: nat]"] by auto

text \<open>
  \<^verbatim>\<open>GroupByKey\<close> partitions the slice: a key of some element is mapped to exactly the
  elements with that key, in their order, and no other key is present.
\<close>

theorem GroupByKey_correct:
  "map_of (GroupByKey xs f) k =
     (if k \<in> f ` set xs then Some (filter (\<lambda>x. f x = k) xs) else None)"
  by (simp add: GroupByKey_def GroupByKey_loop_lookup)

text \<open>
  A file name passes \<^verbatim>\<open>ValidateFilename\<close> exactly when it is not empty, not a dot
  name, and free of separators, backslashes and control characters.
\<close>

theorem ValidateFilename_ok_iff:
  "ValidateFilename f p = None \<longleftrightarrow>
     f \<notin> {'''', ''.'', ''..''} \<and> list_all (\<lambda>c. c \<noteq> CHR ''/'' \<and> c \<noteq> CHR 0x5C \<and> 32 \<le> (of_char c :: nat)) f"
proof -
  have "\<exists>c \<in> set f. of_char c < (32 :: nat)" if "CHR 0x00 \<in> set f"
    using that by (rule rev_bexI) simp
  then have "ValidateFilename f p = None \<longleftrightarrow>
      \<not> (f = '''' \<or> f = ''.'' \<or> f = ''..'') \<and> \<not> (CHR ''/'' \<in> set f \<or> CHR 0x5C \<in> set f) \<and>
      \<not> (\<exists>c \<in> set f. of_char c < (32 :: nat))"
    unfolding ValidateFilename_def by (simp only: split: if_split) blast
  then show ?thesis by (simp only: list_all_iff not_less [symmetric] insert_iff empty_iff) blast
qed

end
