(* ===== verification/BQueue.thy ===== *)
theory BQueue
  imports Prelude
begin

text \<open>
  The bounded blocking queue of \<^verbatim>\<open>src/common/bqueue.go\<close>. One call of \<^verbatim>\<open>Put\<close> or
  \<^verbatim>\<open>Take\<close> under the mutex either goes through or waits on the condition variable
  (\<open>None\<close>); goroutines and the condition variable's FIFO wait list form a step relation.
\<close>

section \<open>The queue\<close>

record 'a bqueue =
  bdata :: "'a list"
  capacity :: int

definition NewBlockingQueue :: "int \<Rightarrow> 'a bqueue" where
  "NewBlockingQueue cap = \<lparr>bdata = [], capacity = cap\<rparr>"

definition isFull :: "'a bqueue \<Rightarrow> bool" where
  "isFull q \<longleftrightarrow> int (length (bdata q)) = capacity q"

definition isEmpty :: "'a bqueue \<Rightarrow> bool" where
  "isEmpty q \<longleftrightarrow> length (bdata q) = 0"

text \<open>One pass through the waiting loop and, when it is left, the body.\<close>

definition Put :: "'a \<Rightarrow> 'a bqueue \<Rightarrow> 'a bqueue option" where
  "Put item q = (if isFull q then None else Some (q\<lparr>bdata := bdata q @ [item]\<rparr>))"

definition Take :: "'a bqueue \<Rightarrow> ('a \<times> 'a bqueue) option" where
  "Take q = (if isEmpty q then None else Some (hd (bdata q), q\<lparr>bdata := tl (bdata q)\<rparr>))"

section \<open>Goroutines sharing the queue\<close>

datatype 'a request = PutReq 'a | TakeReq

text \<open>
  \<open>ready\<close> are the calls that are free to run next, in any order; \<open>waiting\<close> is the wait
  list of the condition variable, served first come first served; the logs record the values
  put and taken, in order.
\<close>

record 'a bq_sys =
  queue :: "'a bqueue"
  ready :: "'a request list"
  waiting :: "'a request list"
  put_log :: "'a list"
  take_log :: "'a list"

definition signal :: "'a bq_sys \<Rightarrow> 'a bq_sys" where
  "signal s = (case waiting s of [] \<Rightarrow> s
     | w # ws \<Rightarrow> s\<lparr>waiting := ws, ready := ready s @ [w]\<rparr>)"

inductive bq_step :: "'a bq_sys \<Rightarrow> 'a bq_sys \<Rightarrow> bool" where
  arrive: "bq_step s (s\<lparr>ready := ready s @ [r]\<rparr>)"
| put_wait: "ready s = xs @ PutReq v # ys \<Longrightarrow> Put v (queue s) = None \<Longrightarrow>
    bq_step s (s\<lparr>ready := xs @ ys, waiting := waiting s @ [PutReq v]\<rparr>)"
| put_done: "ready s = xs @ PutReq v # ys \<Longrightarrow> Put v (queue s) = Some q \<Longrightarrow>
    bq_step s (signal (s\<lparr>queue := q, ready := xs @ ys, put_log := put_log s @ [v]\<rparr>))"
| take_wait: "ready s = xs @ TakeReq # ys \<Longrightarrow> Take (queue s) = None \<Longrightarrow>
    bq_step s (s\<lparr>ready := xs @ ys, waiting := waiting s @ [TakeReq]\<rparr>)"
| take_done: "ready s = xs @ TakeReq # ys \<Longrightarrow> Take (queue s) = Some (v, q) \<Longrightarrow>
    bq_step s (signal (s\<lparr>queue := q, ready := xs @ ys, take_log := take_log s @ [v]\<rparr>))"

definition bq_init :: "int \<Rightarrow> 'a bq_sys" where
  "bq_init cap = \<lparr>queue = NewBlockingQueue cap, ready = [], waiting = [], put_log = [], take_log = []\<rparr>"

inductive bq_reachable :: "int \<Rightarrow> 'a bq_sys \<Rightarrow> bool" for cap where
  start: "bq_reachable cap (bq_init cap)"
| step: "bq_reachable cap s \<Longrightarrow> bq_step s t \<Longrightarrow> bq_reachable cap t"

definition bq_inv :: "int \<Rightarrow> 'a bq_sys \<Rightarrow> bool" where
  "bq_inv cap s \<longleftrightarrow>
     capacity (queue s) = cap \<and> (0 \<le> cap \<longrightarrow> int (length (bdata (queue s))) \<le> cap) \<and>
     put_log s = take_log s @ bdata (queue s)"

lemma signal_simps [simp]: "queue (signal s) = queue s" "put_log (signal s) = put_log s"
  "take_log (signal s) = take_log s"
  by (auto simp: signal_def split: list.splits)

lemma bq_step_inv [inv_intros]: "bq_step s t \<Longrightarrow> bq_inv cap s \<Longrightarrow> bq_inv cap t"
  by (induction rule: bq_step.induct)
    (auto simp: bq_inv_def Put_def Take_def isFull_def isEmpty_def split: if_splits)

lemma bq_reachable_inv: "bq_reachable cap s \<Longrightarrow> bq_inv cap s"
proof (induction rule: bq_reachable.induct)
  case start
  show ?case by (simp add: bq_init_def NewBlockingQueue_def bq_inv_def)
next
  case (step s t)
  then show ?case by (blast intro: bq_step_inv)
qed

section \<open>Properties\<close>

text \<open>
  C37. However puts and takes interleave, the queue never holds more than its capacity, and the
  values taken so far followed by the queued ones are the values put, in order: nothing is
  lost, duplicated or reordered.
\<close>

theorem bqueue_fifo_bounded:
  assumes "bq_reachable cap s" and "0 \<le> cap"
  shows "int (length (bdata (queue s))) \<le> cap \<and> put_log s = take_log s @ bdata (queue s)"
  using bq_reachable_inv [OF assms(1)] assms(2) by (simp add: bq_inv_def)

theorem bqueue_fifo_bounded_witness:
  "\<exists>s :: nat bq_sys. bq_reachable 2 s \<and> bdata (queue s) = [7] \<and> put_log s = take_log s @ [7]"
proof -
  let ?a = "(bq_init 2 :: nat bq_sys)\<lparr>ready := [PutReq 7]\<rparr>"
  let ?b = "\<lparr>queue = \<lparr>bdata = [7], capacity = 2\<rparr>, ready = [], waiting = [], put_log = [7], take_log = []\<rparr> :: nat bq_sys"
  have "bq_step (bq_init 2) ?a" using arrive [of "bq_init 2 :: nat bq_sys" "PutReq 7"] by (simp add: bq_init_def)
  moreover have "bq_step ?a ?b"
    using put_done [of ?a "[]" 7 "[]"]
    by (simp add: bq_init_def NewBlockingQueue_def Put_def isFull_def signal_def)
  ultimately have r: "bq_reachable 2 ?b" using bq_reachable.start bq_reachable.step by blast
  then show ?thesis using bqueue_fifo_bounded [OF r] by auto
qed


end
