(* ===== verification/Download_Buffer.thy ===== *)
theory Download_Buffer
  imports Prelude
begin

text \<open>
  The staging buffer of \<^verbatim>\<open>src/download_buffer/download_buffer.go\<close>: data forwarded to a chunk
  server waits here, under a buffer id, until a write or append commits it or it expires. The
  wall clock is an argument \<open>now\<close> of every operation that reads it. The Go interface
  \<^verbatim>\<open>Buffer\<close> is the locale \<open>staging_buffer\<close>, interpreted on these operations; the sweep
  that removes expired items is modelled in its two critical sections.
\<close>

section \<open>State and operations\<close>

record buffer_id =
  bid_handle :: chunk_handle
  bid_timestamp :: time

record buffered_item =
  item_expire :: time
  item_data :: "byte list"

record download_buffer =
  items :: "(buffer_id \<times> buffered_item) list"
  expire_after :: time
  tick_every :: time

definition NewDownloadBuffer :: "time \<Rightarrow> time \<Rightarrow> download_buffer outcome" where
  "NewDownloadBuffer tick expire =
     (if tick \<le> 0 \<or> expire \<le> 0 then Fail TickAndExpireMustBePositive
      else Return \<lparr>items = [], expire_after = expire, tick_every = tick\<rparr>)"

definition NewDownloadBufferId :: "time \<Rightarrow> chunk_handle \<Rightarrow> buffer_id" where
  "NewDownloadBufferId now h = \<lparr>bid_handle = h, bid_timestamp = now\<rparr>"

definition Len :: "download_buffer \<Rightarrow> nat" where
  "Len b = length (items b)"

definition Delete :: "buffer_id \<Rightarrow> download_buffer \<Rightarrow> download_buffer" where
  "Delete bufId b = b\<lparr>items := AList.delete bufId (items b)\<rparr>"

definition Set :: "time \<Rightarrow> buffer_id \<Rightarrow> byte list \<Rightarrow> download_buffer \<Rightarrow> download_buffer" where
  "Set now bufId d b =
     b\<lparr>items := AList.update bufId \<lparr>item_expire = now + expire_after b, item_data = d\<rparr> (items b)\<rparr>"

definition Get :: "time \<Rightarrow> buffer_id \<Rightarrow> download_buffer \<Rightarrow> byte list option \<times> download_buffer" where
  "Get now bufId b =
     (case map_of (items b) bufId of
        None \<Rightarrow> (None, b)
      | Some it \<Rightarrow>
          (Some (item_data it),
           b\<lparr>items := AList.update bufId (it\<lparr>item_expire := now + expire_after b\<rparr>) (items b)\<rparr>))"

definition FetchAndDelete :: "buffer_id \<Rightarrow> download_buffer \<Rightarrow> byte list outcome \<times> download_buffer" where
  "FetchAndDelete bufId b =
     (case map_of (items b) bufId of
        None \<Rightarrow> (Fail BufferIdNotFound, b)
      | Some it \<Rightarrow> (Return (item_data it), b\<lparr>items := AList.delete bufId (items b)\<rparr>))"

text \<open>
  The sweep: the ids of expired items are collected under the read lock, which is then
  released; a second critical section deletes the collected ids.
\<close>

definition expiredKeys :: "time \<Rightarrow> download_buffer \<Rightarrow> buffer_id list" where
  "expiredKeys now b = map fst (filter (\<lambda>(k, it). item_expire it < now) (items b))"

definition deleteKeys :: "buffer_id list \<Rightarrow> download_buffer \<Rightarrow> download_buffer" where
  "deleteKeys ks b = fold Delete ks b"

definition clearBuffer :: "time \<Rightarrow> download_buffer \<Rightarrow> download_buffer" where
  "clearBuffer now b = deleteKeys (expiredKeys now b) b"

section \<open>Invariant and abstraction\<close>

definition db_inv :: "download_buffer \<Rightarrow> bool" where
  "db_inv b \<longleftrightarrow> distinct (map fst (items b)) \<and> 0 < expire_after b"

definition staged :: "download_buffer \<Rightarrow> buffer_id \<Rightarrow> byte list option" where
  "staged b k = map_option item_data (map_of (items b) k)"

lemma Delete_inv [inv_intros]: "db_inv b \<Longrightarrow> db_inv (Delete k b)"
  by (simp add: db_inv_def Delete_def distinct_delete)

lemma Set_inv [inv_intros]: "db_inv b \<Longrightarrow> db_inv (Set now k d b)"
  by (simp add: db_inv_def Set_def distinct_update)

lemma Get_inv [inv_intros]: "db_inv b \<Longrightarrow> db_inv (snd (Get now k b))"
  by (simp add: db_inv_def Get_def distinct_update split: option.splits)

lemma FetchAndDelete_inv [inv_intros]: "db_inv b \<Longrightarrow> db_inv (snd (FetchAndDelete k b))"
  by (simp add: db_inv_def FetchAndDelete_def distinct_delete split: option.splits)

lemma deleteKeys_inv [inv_intros]: "db_inv b \<Longrightarrow> db_inv (deleteKeys ks b)"
  unfolding deleteKeys_def by (induction ks arbitrary: b) (auto intro: Delete_inv)

lemma clearBuffer_inv [inv_intros]: "db_inv b \<Longrightarrow> db_inv (clearBuffer now b)"
  by (simp add: clearBuffer_def deleteKeys_inv)

lemma staged_Delete: "staged (Delete k b) = (staged b)(k := None)"
  by (auto simp: staged_def Delete_def)

lemma staged_Set: "staged (Set now k d b) = (staged b)(k \<mapsto> d)"
  by (auto simp: staged_def Set_def)

lemma staged_Get: "staged (snd (Get now k b)) = staged b"
  by (auto simp: staged_def Get_def split: option.splits)

lemma fst_Get: "fst (Get now k b) = staged b k"
  by (simp add: staged_def Get_def split: option.splits)

lemma items_deleteKeys: "map_of (items (deleteKeys ks b)) k =
    (if k \<in> set ks then None else map_of (items b) k)"
  unfolding deleteKeys_def by (induction ks arbitrary: b) (auto simp: Delete_def)

lemma expiredKeys_iff:
  "db_inv b \<Longrightarrow> k \<in> set (expiredKeys now b) \<longleftrightarrow> (\<exists>it. map_of (items b) k = Some it \<and> item_expire it < now)"
  by (force simp: expiredKeys_def db_inv_def map_of_eq_Some_iff)

section \<open>The interface\<close>

locale staging_buffer =
  fixes put :: "'k \<Rightarrow> 'd \<Rightarrow> 's \<Rightarrow> 's"
    and fetch :: "'k \<Rightarrow> 's \<Rightarrow> 'd option \<times> 's"
    and drop_key :: "'k \<Rightarrow> 's \<Rightarrow> 's"
    and view :: "'s \<Rightarrow> 'k \<Rightarrow> 'd option"
    and ok :: "'s \<Rightarrow> bool"
  assumes view_put: "ok s \<Longrightarrow> view (put k d s) = (view s)(k \<mapsto> d)"
    and fetch_value: "ok s \<Longrightarrow> fst (fetch k s) = view s k"
    and view_fetch: "ok s \<Longrightarrow> view (snd (fetch k s)) = view s"
    and view_drop: "ok s \<Longrightarrow> view (drop_key k s) = (view s)(k := None)"
    and ok_put: "ok s \<Longrightarrow> ok (put k d s)"
    and ok_fetch: "ok s \<Longrightarrow> ok (snd (fetch k s))"
    and ok_drop: "ok s \<Longrightarrow> ok (drop_key k s)"
begin

lemma fetch_after_put: "ok s \<Longrightarrow> fst (fetch k (put k d s)) = Some d"
  by (simp add: fetch_value ok_put view_put)

lemma fetch_after_put_other: "ok s \<Longrightarrow> k' \<noteq> k \<Longrightarrow> fst (fetch k' (put k d s)) = fst (fetch k' s)"
  by (simp add: fetch_value ok_put view_put)

lemma fetch_after_drop: "ok s \<Longrightarrow> fst (fetch k (drop_key k s)) = None"
  by (simp add: fetch_value ok_drop view_drop)

lemma fetch_again: "ok s \<Longrightarrow> fst (fetch k' (snd (fetch k s))) = fst (fetch k' s)"
  by (simp add: fetch_value ok_fetch view_fetch)

end

interpretation dl: staging_buffer "Set now" "Get now" Delete staged db_inv for now
  by unfold_locales
    (simp_all add: staged_Set fst_Get staged_Get staged_Delete Set_inv Get_inv Delete_inv)

section \<open>Properties\<close>

text \<open>
  Staged data is what a later \<^verbatim>\<open>Get\<close> or \<^verbatim>\<open>FetchAndDelete\<close> returns: \<^verbatim>\<open>Get\<close> can be
  repeated, for this and for other ids, without changing any answer, while
  \<^verbatim>\<open>FetchAndDelete\<close> answers once and then reports the id as missing.
\<close>

theorem download_buffer_staging:
  assumes "db_inv b"
  shows "fst (Get t2 k (snd (Get t3 k' (Set t1 k d b)))) = Some d \<and>
    (k' \<noteq> k \<longrightarrow> fst (Get t2 k' (Set t1 k d b)) = fst (Get t2 k' b)) \<and>
    fst (FetchAndDelete k (Set t1 k d b)) = Return d \<and>
    fst (FetchAndDelete k (snd (FetchAndDelete k (Set t1 k d b)))) = Fail BufferIdNotFound"
proof (intro conjI impI)
  have "db_inv (Set t1 k d b)" using assms by (rule dl.ok_put)
  then have "fst (Get t2 k (snd (Get t3 k' (Set t1 k d b)))) = staged (Set t1 k d b) k"
    by (simp add: dl.fetch_value dl.view_fetch dl.ok_fetch)
  then show "fst (Get t2 k (snd (Get t3 k' (Set t1 k d b)))) = Some d"
    using assms by (simp add: dl.view_put)
  show "fst (Get t2 k' (Set t1 k d b)) = fst (Get t2 k' b)" if "k' \<noteq> k"
    using assms that by (simp add: dl.fetch_value dl.view_put dl.ok_put)
qed (simp_all add: FetchAndDelete_def Set_def)

theorem download_buffer_staging_witness:
  "fst (Get 5 (NewDownloadBufferId 1 7) (snd (Get 4 (NewDownloadBufferId 2 7)
     (Set 3 (NewDownloadBufferId 1 7) [65, 66] \<lparr>items = [], expire_after = 10, tick_every = 10\<rparr>)))) =
   Some [65, 66]"
  using download_buffer_staging [of "\<lparr>items = [], expire_after = 10, tick_every = 10\<rparr>"
      5 "NewDownloadBufferId 1 7" 4 "NewDownloadBufferId 2 7" 3 "[65, 66]"]
  by (simp add: db_inv_def)

text \<open>
  A sweep at time \<open>now\<close> removes exactly the items whose deadline lies before \<open>now\<close>, and
  keeps the others with their data and deadline; an item that was just set or fetched has its
  full lifetime ahead of it.
\<close>

theorem clearBuffer_exact:
  assumes "db_inv b"
  shows "map_of (items (clearBuffer now b)) k =
      (case map_of (items b) k of None \<Rightarrow> None
       | Some it \<Rightarrow> if item_expire it < now then None else Some it) \<and>
    (now \<le> t + expire_after b \<longrightarrow> staged (clearBuffer now (Set t k d b)) k = Some d) \<and>
    (now \<le> t + expire_after b \<longrightarrow> staged (clearBuffer now (snd (Get t k b))) k = staged b k)"
proof (intro conjI impI)
  have clear: "map_of (items (clearBuffer now c)) k =
      (case map_of (items c) k of None \<Rightarrow> None
       | Some it \<Rightarrow> if item_expire it < now then None else Some it)" if "db_inv c" for c
    using expiredKeys_iff [OF that, of k now]
    by (auto simp: clearBuffer_def items_deleteKeys split: option.splits)
  show "map_of (items (clearBuffer now b)) k =
      (case map_of (items b) k of None \<Rightarrow> None
       | Some it \<Rightarrow> if item_expire it < now then None else Some it)"
    using clear [OF assms] .
  assume "now \<le> t + expire_after b"
  then show "staged (clearBuffer now (Set t k d b)) k = Some d"
    "staged (clearBuffer now (snd (Get t k b))) k = staged b k"
    using clear [OF Set_inv [OF assms, of t k d]] clear [OF Get_inv [OF assms, of t k]]
    by (auto simp: staged_def Set_def Get_def split: option.splits)
qed

theorem clearBuffer_exact_witness:
  "staged (clearBuffer 12 (Set 3 (NewDownloadBufferId 1 7) [65] \<lparr>items = [], expire_after = 10, tick_every = 10\<rparr>))
     (NewDownloadBufferId 1 7) = Some [65]"
  using clearBuffer_exact [of "\<lparr>items = [], expire_after = 10, tick_every = 10\<rparr>" 12
      "NewDownloadBufferId 1 7" 3 "[65]"]
  by (simp add: db_inv_def)

text \<open>
  The two critical sections of the sweep do not exclude a \<^verbatim>\<open>Get\<close> in between: an expired
  item that a chunk server fetches (and so refreshes) after its id was collected is still
  deleted, and the next \<^verbatim>\<open>Get\<close> misses it.
\<close>

theorem clearBuffer_race:
  assumes "db_inv b" and "map_of (items b) k = Some it" and "item_expire it < now"
  shows "let ks = expiredKeys now b; (d, b1) = Get now k b; b2 = deleteKeys ks b1
    in d = Some (item_data it) \<and> staged b1 k = Some (item_data it) \<and>
       map_of (items b1) k = Some (it\<lparr>item_expire := now + expire_after b\<rparr>) \<and> fst (Get now k b2) = None"
proof -
  have "k \<in> set (expiredKeys now b)" using assms expiredKeys_iff by blast
  with assms(2) show ?thesis
    by (simp add: Let_def Get_def fst_Get staged_def items_deleteKeys)
qed

theorem clearBuffer_race_witness:
  "fst (Get 20 (NewDownloadBufferId 1 7)
     (deleteKeys (expiredKeys 20 \<lparr>items = [(NewDownloadBufferId 1 7, \<lparr>item_expire = 15, item_data = [65]\<rparr>)],
                                  expire_after = 10, tick_every = 10\<rparr>)
        (snd (Get 20 (NewDownloadBufferId 1 7)
           \<lparr>items = [(NewDownloadBufferId 1 7, \<lparr>item_expire = 15, item_data = [65]\<rparr>)],
            expire_after = 10, tick_every = 10\<rparr>)))) = None"
  using clearBuffer_race [of "\<lparr>items = [(NewDownloadBufferId 1 7, \<lparr>item_expire = 15, item_data = [65]\<rparr>)],
      expire_after = 10, tick_every = 10\<rparr>" "NewDownloadBufferId 1 7" "\<lparr>item_expire = 15, item_data = [65]\<rparr>" 20]
  by (simp add: db_inv_def Let_def case_prod_beta)

end
