(* ===== verification/Ns_Tree.thy ===== *)
theory Ns_Tree
  imports Prelude
begin

text \<open>
  The namespace tree of \<^verbatim>\<open>src/namespace_manager/nsmanager.go\<close>: a node is a file or a
  directory, and its map of children is nil (\<open>None\<close>) or a map from names to nodes. A node is
  addressed by the list of names that leads to it from the root; no operation of the program
  makes a node reachable by two names, so mutating a node through its pointer is an update of
  the tree at its address. The last section gives the abstraction the operations refine: the
  finite map from addresses to node attributes.
\<close>

section \<open>Nodes\<close>

datatype ns_tree =
  NsTree (ns_Path: path) (ns_Length: int) (ns_Chunks: int) (IsDir: bool)
    (childrenNodes: "(string \<times> ns_tree) list option")

abbreviation file_node :: "path \<Rightarrow> ns_tree" where
  "file_node p \<equiv> NsTree p 0 0 False None"

abbreviation dir_node :: "path \<Rightarrow> ns_tree" where
  "dir_node p \<equiv> NsTree p 0 0 True (Some [])"

text \<open>Ranging over or reading from a nil map sees no entry.\<close>

definition kids :: "ns_tree \<Rightarrow> (string \<times> ns_tree) list" where
  "kids t = (case childrenNodes t of None \<Rightarrow> [] | Some al \<Rightarrow> al)"

definition child :: "ns_tree \<Rightarrow> string \<Rightarrow> ns_tree option" where
  "child t n = map_of (kids t) n"

primrec set_children :: "(string \<times> ns_tree) list option \<Rightarrow> ns_tree \<Rightarrow> ns_tree" where
  "set_children ch (NsTree p l k d _) = NsTree p l k d ch"

primrec set_path :: "path \<Rightarrow> ns_tree \<Rightarrow> ns_tree" where
  "set_path q (NsTree p l k d ch) = NsTree q l k d ch"

primrec set_size :: "int \<Rightarrow> int \<Rightarrow> ns_tree \<Rightarrow> ns_tree" where
  "set_size len chunks (NsTree p l k d ch) = NsTree p len chunks d ch"

text \<open>
  \<^verbatim>\<open>cwd.childrenNodes[name] = node\<close> panics on a nil map; \<^verbatim>\<open>delete\<close> on a nil map does
  nothing.
\<close>

definition put_child :: "string \<Rightarrow> ns_tree \<Rightarrow> ns_tree \<Rightarrow> ns_tree" where
  "put_child n c t = set_children (map_option (AList.update n c) (childrenNodes t)) t"

definition del_child :: "string \<Rightarrow> ns_tree \<Rightarrow> ns_tree" where
  "del_child n t = set_children (map_option (AList.delete n) (childrenNodes t)) t"

section \<open>Following and updating addresses\<close>

fun walk :: "ns_tree \<Rightarrow> string list \<Rightarrow> ns_tree option" where
  "walk t [] = Some t"
| "walk t (n # ns) = (case child t n of None \<Rightarrow> None | Some c \<Rightarrow> walk c ns)"

primrec update_at :: "string list \<Rightarrow> (ns_tree \<Rightarrow> ns_tree) \<Rightarrow> ns_tree \<Rightarrow> ns_tree" where
  "update_at [] f t = f t"
| "update_at (n # ns) f t =
     set_children (map_option (AList.map_entry n (update_at ns f)) (childrenNodes t)) t"

definition assign_at :: "string list \<Rightarrow> string \<Rightarrow> ns_tree \<Rightarrow> ns_tree \<Rightarrow> ns_tree outcome" where
  "assign_at cwd name c t =
     (case walk t cwd of
        None \<Rightarrow> Panic
      | Some d \<Rightarrow> (case childrenNodes d of
          None \<Rightarrow> Panic
        | Some _ \<Rightarrow> Return (update_at cwd (put_child name c) t)))"

definition delete_at :: "string list \<Rightarrow> string \<Rightarrow> ns_tree \<Rightarrow> ns_tree" where
  "delete_at cwd name t = update_at cwd (del_child name) t"

lemma sel_set_children [simp]:
  "childrenNodes (set_children ch t) = ch" "ns_Path (set_children ch t) = ns_Path t"
  "ns_Length (set_children ch t) = ns_Length t" "ns_Chunks (set_children ch t) = ns_Chunks t"
  "IsDir (set_children ch t) = IsDir t"
  by (cases t; simp)+

lemma child_set_children [simp]:
  "child (set_children ch t) n = (case ch of None \<Rightarrow> None | Some al \<Rightarrow> map_of al n)"
  by (simp add: child_def kids_def split: option.splits)

lemma child_None_children [simp]: "childrenNodes t = None \<Longrightarrow> child t n = None"
  by (simp add: child_def kids_def)

lemma child_put_child [simp]:
  "childrenNodes t \<noteq> None \<Longrightarrow> child (put_child n c t) m = (if m = n then Some c else child t m)"
  by (auto simp: put_child_def child_def kids_def)

lemma child_del_child [simp]: "child (del_child n t) m = (if m = n then None else child t m)"
  by (auto simp: del_child_def child_def kids_def split: option.splits)

lemma childrenNodes_del_child [simp]: "childrenNodes (del_child n t) = None \<longleftrightarrow> childrenNodes t = None"
  by (simp add: del_child_def)

lemma childrenNodes_put_child [simp]: "childrenNodes (put_child n c t) = None \<longleftrightarrow> childrenNodes t = None"
  by (simp add: put_child_def)

lemma walk_append: "walk t (xs @ ys) = Option.bind (walk t xs) (\<lambda>u. walk u ys)"
  by (induction t xs rule: walk.induct) (auto split: option.splits)

lemma walk_snoc: "walk t (xs @ [n]) = Option.bind (walk t xs) (\<lambda>u. child u n)"
  by (simp add: walk_append split: option.splits) (cases "walk t xs"; simp split: option.splits)

lemma child_update_at:
  "child (update_at (n # ns) f t) m =
     (if m = n then map_option (update_at ns f) (child t n) else child t m)"
  by (auto simp: child_def kids_def map_of_map_entry split: option.splits)

lemma walk_update_at_below:
  "walk t d = Some x \<Longrightarrow> walk (update_at d f t) (d @ r) = walk (f x) r"
proof (induction d arbitrary: t)
  case (Cons n ns)
  then obtain c where c: "child t n = Some c" "walk c ns = Some x"
    by (auto split: option.splits)
  then show ?case using Cons.IH [of c] by (simp add: child_update_at del: update_at.simps)
qed simp

lemma walk_update_at_None: "walk t d = None \<Longrightarrow> walk (update_at d f t) (d @ r) = None"
proof (induction d arbitrary: t)
  case (Cons n ns)
  then show ?case
    by (cases "child t n") (simp_all add: child_update_at del: update_at.simps)
qed simp

section \<open>Well-formed trees\<close>

text \<open>
  At every node the children's names are distinct, and exactly the directories have a map of
  children.
\<close>

fun wf_tree :: "ns_tree \<Rightarrow> bool" where
  "wf_tree (NsTree p l k d ch) \<longleftrightarrow>
     (case ch of None \<Rightarrow> \<not> d
      | Some al \<Rightarrow> d \<and> distinct (map fst al) \<and> (\<forall>x \<in> set al. wf_tree (snd x)))"

lemma wf_tree_iff:
  "wf_tree t \<longleftrightarrow> IsDir t = (childrenNodes t \<noteq> None) \<and> distinct (map fst (kids t)) \<and>
     (\<forall>x \<in> set (kids t). wf_tree (snd x))"
  by (cases t) (auto simp: kids_def split: option.splits)

lemma wf_IsDir: "wf_tree t \<Longrightarrow> IsDir t \<longleftrightarrow> childrenNodes t \<noteq> None"
  by (simp add: wf_tree_iff [of t])

lemma wf_child: "wf_tree t \<Longrightarrow> child t n = Some c \<Longrightarrow> wf_tree c"
  by (auto simp: wf_tree_iff [of t] child_def dest: map_of_SomeD)

lemma wf_walk: "wf_tree t \<Longrightarrow> walk t d = Some x \<Longrightarrow> wf_tree x"
  by (induction t d rule: walk.induct) (auto split: option.splits dest: wf_child)

lemma wf_put_child [inv_intros]: "wf_tree t \<Longrightarrow> wf_tree c \<Longrightarrow> wf_tree (put_child n c t)"
  by (cases t) (auto simp: put_child_def distinct_update split: option.splits dest!: set_update_subset)

lemma wf_del_child [inv_intros]: "wf_tree t \<Longrightarrow> wf_tree (del_child n t)"
  by (cases t) (auto simp: del_child_def distinct_delete split: option.splits dest!: set_delete_subset)

lemma wf_set_path [inv_intros]: "wf_tree t \<Longrightarrow> wf_tree (set_path q t)"
  by (cases t) (auto split: option.splits)

lemma wf_set_size [inv_intros]: "wf_tree t \<Longrightarrow> wf_tree (set_size l k t)"
  by (cases t) (auto split: option.splits)

lemma wf_update_at [inv_intros]:
  "wf_tree t \<Longrightarrow> (\<And>x. walk t d = Some x \<Longrightarrow> wf_tree x \<Longrightarrow> wf_tree (f x)) \<Longrightarrow> wf_tree (update_at d f t)"
proof (induction d arbitrary: t)
  case (Cons n ns)
  obtain p l k dr ch where t: "t = NsTree p l k dr ch" by (cases t)
  show ?case
  proof (cases ch)
    case (Some al)
    have "wf_tree (update_at ns f c)" if "(n, c) \<in> set al" for c
    proof -
      from that Cons.prems(1) have "child t n = Some c" "wf_tree c"
        by (auto simp: t Some child_def kids_def)
      then show ?thesis using Cons.IH [of c] Cons.prems(2) by simp
    qed
    then show ?thesis
      using Cons.prems(1) by (auto simp: t Some dest!: set_map_entry_subset)
  qed (use Cons.prems in \<open>simp add: t\<close>)
qed simp

section \<open>The abstract namespace\<close>

text \<open>
  The attributes a client can ask for, and the namespace as a map from addresses to them.
\<close>

record attrs =
  a_path :: path
  a_length :: int
  a_chunks :: int
  a_isdir :: bool

definition info :: "ns_tree \<Rightarrow> attrs" where
  "info t = \<lparr>a_path = ns_Path t, a_length = ns_Length t, a_chunks = ns_Chunks t, a_isdir = IsDir t\<rparr>"

definition view :: "ns_tree \<Rightarrow> string list \<Rightarrow> attrs option" where
  "view t ps = map_option info (walk t ps)"

lemma info_set_children [simp]: "info (set_children ch t) = info t"
  by (simp add: info_def)

lemma info_put_child [simp]: "info (put_child n c t) = info t"
  by (simp add: put_child_def)

lemma info_del_child [simp]: "info (del_child n t) = info t"
  by (simp add: del_child_def)

lemma view_Nil [simp]: "view t [] = Some (info t)"
  by (simp add: view_def)

lemma view_Cons: "view t (n # ns) = (case child t n of None \<Rightarrow> None | Some c \<Rightarrow> view c ns)"
  by (simp add: view_def split: option.splits)

text \<open>An update at one address is seen at and below that address only.\<close>

lemma view_update_at:
  "walk t d = Some x \<Longrightarrow>
     view (update_at d f t) ps =
       (if prefix d ps then view (f x) (drop (length d) ps) else view t ps)"
proof (induction d arbitrary: t ps)
  case (Cons n ns)
  then obtain c where c: "child t n = Some c" "walk c ns = Some x"
    by (auto split: option.splits)
  show ?case
  proof (cases ps)
    case (Cons m ps')
    with c Cons.IH [OF c(2), of ps'] show ?thesis
      by (simp add: view_Cons child_update_at del: update_at.simps)
  qed simp
qed simp

lemma view_put_at:
  assumes "walk t d = Some x" and "childrenNodes x \<noteq> None"
  shows "view (update_at d (put_child n c) t) ps =
    (if prefix (d @ [n]) ps then view c (drop (Suc (length d)) ps) else view t ps)"
proof (cases "prefix d ps")
  case True
  then obtain r where ps: "ps = d @ r" by (auto simp: prefix_def)
  then have "view t ps = view x r" using assms(1) by (simp add: view_def walk_append)
  with ps assms show ?thesis
    by (cases r) (auto simp: view_update_at [OF assms(1)] view_Cons)
next
  case False
  then have "\<not> prefix (d @ [n]) ps" by (auto dest: append_prefixD)
  with False show ?thesis by (simp add: view_update_at [OF assms(1)])
qed

lemma view_del_at:
  assumes "walk t d = Some x"
  shows "view (delete_at d n t) ps = (if prefix (d @ [n]) ps then None else view t ps)"
proof (cases "prefix d ps")
  case True
  then obtain r where ps: "ps = d @ r" by (auto simp: prefix_def)
  then have "view t ps = view x r" using assms(1) by (simp add: view_def walk_append)
  with ps show ?thesis
    by (cases r) (auto simp: delete_at_def view_update_at [OF assms(1)] view_Cons)
next
  case False
  then have "\<not> prefix (d @ [n]) ps" by (auto dest: append_prefixD)
  with False show ?thesis by (simp add: delete_at_def view_update_at [OF assms(1)])
qed

end
