(* ===== verification/Ns_Locks.thy ===== *)
theory Ns_Locks
  imports Ns_Tree Go_Path
begin

text \<open>
  The per-node read-write mutexes of the namespace tree and the two functions of
  \<^verbatim>\<open>src/namespace_manager/nsmanager.go\<close> that take and release them, \<^verbatim>\<open>lockParents\<close> and
  \<^verbatim>\<open>unlockParents\<close>. The lock table maps node addresses to the state of the node's mutex.
  Every operation of the namespace manager runs under \<^verbatim>\<open>nm.mu\<close> and starts with all node
  mutexes free, so a request that cannot be granted waits for the caller itself: that outcome
  is \<open>Deadlock\<close>. Releasing a mutex that is not held is a fatal error, \<open>Panic\<close>.
\<close>

section \<open>Read-write mutexes\<close>

datatype lock_state = Free | Readers nat | Writer

type_synonym locks = "string list \<Rightarrow> lock_state"

definition no_locks :: locks where
  "no_locks = (\<lambda>_. Free)"

definition RLock :: "string list \<Rightarrow> locks \<Rightarrow> unit outcome \<times> locks" where
  "RLock a L = (case L a of
     Free \<Rightarrow> (Return (), L(a := Readers 1))
   | Readers n \<Rightarrow> (Return (), L(a := Readers (Suc n)))
   | Writer \<Rightarrow> (Deadlock, L))"

definition Lock :: "string list \<Rightarrow> locks \<Rightarrow> unit outcome \<times> locks" where
  "Lock a L = (case L a of
     Free \<Rightarrow> (Return (), L(a := Writer))
   | _ \<Rightarrow> (Deadlock, L))"

definition RUnlock :: "string list \<Rightarrow> locks \<Rightarrow> unit outcome \<times> locks" where
  "RUnlock a L = (case L a of
     Readers n \<Rightarrow> (Return (), L(a := (if n \<le> 1 then Free else Readers (n - 1))))
   | _ \<Rightarrow> (Panic, L))"

definition Unlock :: "string list \<Rightarrow> locks \<Rightarrow> unit outcome \<times> locks" where
  "Unlock a L = (case L a of
     Writer \<Rightarrow> (Return (), L(a := Free))
   | _ \<Rightarrow> (Panic, L))"

section \<open>Sequencing\<close>

text \<open>
  \<open>with_locks\<close> runs the continuation on a returned value, for a computation on the lock table
  inside one on a state.
\<close>

definition with_locks :: "'s \<Rightarrow> 'a outcome \<times> locks \<Rightarrow> ('a \<Rightarrow> locks \<Rightarrow> 'b outcome \<times> 's) \<Rightarrow> 'b outcome \<times> 's" where
  "with_locks s r f = (case r of (o1, L) \<Rightarrow> (case o1 of
     Return x \<Rightarrow> f x L
   | Fail e \<Rightarrow> (Fail e, s)
   | Panic \<Rightarrow> (Panic, s)
   | Deadlock \<Rightarrow> (Deadlock, s)
   | OutOfFuel \<Rightarrow> (OutOfFuel, s)))"

lemma with_locks_simps [simp]:
  "with_locks s (Return x, L) f = f x L" "with_locks s (Fail e, L) f = (Fail e, s)"
  "with_locks s (Panic, L) f = (Panic, s)" "with_locks s (Deadlock, L) f = (Deadlock, s)"
  "with_locks s (OutOfFuel, L) f = (OutOfFuel, s)"
  by (simp_all add: with_locks_def)

section \<open>lockParents and unlockParents\<close>

fun runlock_all :: "string list list \<Rightarrow> locks \<Rightarrow> unit outcome \<times> locks" where
  "runlock_all [] L = (Return (), L)"
| "runlock_all (a # as) L = bind_st (RUnlock a L) (\<lambda>_. runlock_all as)"

text \<open>
  The loop over the path's parts. \<open>cur\<close> is the address of \<^verbatim>\<open>current\<close>; the locked slice is
  kept as a list of addresses. A missing child releases every mutex taken so far.
\<close>

fun lock_loop :: "ns_tree \<Rightarrow> path \<Rightarrow> bool \<Rightarrow> string list \<Rightarrow> string list list \<Rightarrow> string list \<Rightarrow> locks \<Rightarrow>
    (string list list \<times> string list) outcome \<times> locks" where
  "lock_loop root p lock cur locked [] L = (Return (locked, cur), L)"
| "lock_loop root p lock cur locked (name # rest) L =
     (case Option.bind (walk root cur) (\<lambda>t. child t name) of
        None \<Rightarrow> bind_st (runlock_all (rev locked) L) (\<lambda>_ L. (Fail (NsErr PathNotFound p), L))
      | Some _ \<Rightarrow>
          bind_st (RUnlock cur L) (\<lambda>_ L.
          bind_st (if rest = [] \<and> lock then Lock (cur @ [name]) L else RLock (cur @ [name]) L) (\<lambda>_ L.
          lock_loop root p lock (cur @ [name]) (butlast locked @ [cur @ [name]]) rest L)))"

definition lockParents :: "ns_tree \<Rightarrow> path \<Rightarrow> bool \<Rightarrow> locks \<Rightarrow>
    (string list list \<times> string list) outcome \<times> locks" where
  "lockParents root p lock L =
     bind_st (RLock [] L) (\<lambda>_ L.
       if p = '''' \<or> p = ''/''
       then if lock
            then bind_st (RUnlock [] L) (\<lambda>_ L. bind_st (Lock [] L) (\<lambda>_ L. (Return ([[]], []), L)))
            else (Return ([[]], []), L)
       else lock_loop root p lock [] [[]] (path_parts p) L)"

text \<open>Released in reverse order, the last one as a writer when \<open>lock\<close> is set.\<close>

definition unlockParents :: "string list list \<Rightarrow> bool \<Rightarrow> locks \<Rightarrow> unit outcome \<times> locks" where
  "unlockParents locked lock L =
     (if locked = [] then (Return (), L)
      else bind_st (if lock then Unlock (last locked) L else RUnlock (last locked) L)
             (\<lambda>_. runlock_all (rev (butlast locked))))"

section \<open>Behaviour of the lock functions\<close>

definition one_reader :: lock_state where
  "one_reader = Readers 1"

lemma RLock_free [simp]: "L a = Free \<Longrightarrow> RLock a L = (Return (), L(a := one_reader))"
  by (simp add: RLock_def one_reader_def)

lemma Lock_free [simp]: "L a = Free \<Longrightarrow> Lock a L = (Return (), L(a := Writer))"
  by (simp add: Lock_def)

lemma RLock_Writer [simp]: "L a = Writer \<Longrightarrow> RLock a L = (Deadlock, L)"
  by (simp add: RLock_def)

lemma Lock_Writer [simp]: "L a = Writer \<Longrightarrow> Lock a L = (Deadlock, L)"
  by (simp add: Lock_def)

lemma RUnlock_reader: "L a = Free \<Longrightarrow> RUnlock a (L(a := one_reader)) = (Return (), L)"
  "L a = Free \<Longrightarrow> RUnlock a (\<lambda>x. if x = a then one_reader else L x) = (Return (), L)"
  by (auto simp: RUnlock_def one_reader_def fun_upd_idem)

lemma Unlock_writer: "L a = Free \<Longrightarrow> Unlock a (L(a := Writer)) = (Return (), L)"
  by (auto simp: Unlock_def fun_upd_idem)

definition held :: "bool \<Rightarrow> lock_state" where
  "held lock = (if lock then Writer else one_reader)"

text \<open>
  From \<open>cur\<close>, with a read lock on it and all mutexes further down the path free: the loop
  ends with one lock, on the node the path leads to, or with none if it leads nowhere.
\<close>

lemma lock_loop_free:
  assumes "walk root cur = Some t" and "L cur = Free"
    and "\<And>ds. ds \<noteq> [] \<Longrightarrow> prefix ds rest \<Longrightarrow> L (cur @ ds) = Free"
  shows "lock_loop root p lock cur [cur] rest (L(cur := one_reader)) =
    (case walk t rest of
       None \<Rightarrow> (Fail (NsErr PathNotFound p), L)
     | Some _ \<Rightarrow> (Return ([cur @ rest], cur @ rest),
                 L(cur @ rest := (if rest = [] then one_reader else held lock))))"
  using assms
proof (induction rest arbitrary: cur t)
  case (Cons name rest)
  show ?case
  proof (cases "child t name")
    case None
    with Cons.prems show ?thesis by (simp add: RUnlock_reader)
  next
    case (Some c)
    let ?cur = "cur @ [name]"
    have free: "L ?cur = Free" using Cons.prems(3) [of "[name]"] by simp
    have below: "L (?cur @ ds) = Free" if "ds \<noteq> []" "prefix ds rest" for ds
      using Cons.prems(3) [of "name # ds"] that by simp
    have w: "walk root ?cur = Some c" using Cons.prems(1) Some by (simp add: walk_snoc)
    show ?thesis
    proof (cases "rest = [] \<and> lock")
      case True
      with Cons.prems Some free show ?thesis by (simp add: RUnlock_reader held_def)
    next
      case False
      then have "lock_loop root p lock cur [cur] (name # rest) (L(cur := one_reader)) =
          lock_loop root p lock ?cur [?cur] rest (L(?cur := one_reader))"
        using Cons.prems Some free by (auto simp: RUnlock_reader)
      also have "\<dots> = (case walk c rest of
           None \<Rightarrow> (Fail (NsErr PathNotFound p), L)
         | Some _ \<Rightarrow> (Return ([?cur @ rest], ?cur @ rest),
                     L(?cur @ rest := (if rest = [] then one_reader else held lock))))"
        using Cons.IH [OF w free below] .
      finally show ?thesis
        using False Some by (simp only:) (auto simp: held_def split: option.splits)
    qed
  qed
qed simp

text \<open>A writer's lock on a node of the path, other than the last one reached, blocks the loop.\<close>

lemma lock_loop_blocked:
  assumes "walk root cur = Some t" and "L cur = Free" and "ds \<noteq> []" and "prefix ds rest"
    and "L (cur @ ds) = Writer" and "walk t ds \<noteq> None"
    and "\<And>es. es \<noteq> [] \<Longrightarrow> strict_prefix es ds \<Longrightarrow> L (cur @ es) = Free"
  shows "fst (lock_loop root p lock cur [cur] rest (L(cur := one_reader))) = Deadlock"
  using assms
proof (induction rest arbitrary: cur t ds)
  case (Cons name rest)
  then obtain ds' where ds: "ds = name # ds'" and p': "prefix ds' rest"
    by (cases ds) auto
  from Cons.prems(6) ds obtain c where c: "child t name = Some c" "walk c ds' \<noteq> None"
    by (auto split: option.splits)
  let ?cur = "cur @ [name]"
  show ?case
  proof (cases "ds' = []")
    case True
    with Cons.prems c ds show ?thesis by (simp add: RUnlock_reader)
  next
    case False
    then have ne: "rest \<noteq> []" using p' by auto
    have free: "L ?cur = Free"
      using Cons.prems(7) [of "[name]"] ds False by (simp add: strict_prefix_def)
    have step: "lock_loop root p lock cur [cur] (name # rest) (L(cur := one_reader)) =
          lock_loop root p lock ?cur [?cur] rest (L(?cur := one_reader))"
      using Cons.prems c free ne by (simp add: RUnlock_reader)
    have "fst (lock_loop root p lock ?cur [?cur] rest (L(?cur := one_reader))) = Deadlock"
    proof (rule Cons.IH [of ?cur c ds'])
      show "walk root ?cur = Some c" using Cons.prems(1) c by (simp add: walk_snoc)
      show "L (?cur @ es) = Free" if "es \<noteq> []" "strict_prefix es ds'" for es
        using Cons.prems(7) [of "name # es"] that ds by (simp add: strict_prefix_def)
    qed (use free False p' Cons.prems(5) ds c in auto)
    then show ?thesis by (simp only: step)
  qed
qed simp

text \<open>
  \<open>lockable p\<close>: the path is spelled so that \<^verbatim>\<open>lockParents\<close> recognises the root. Every result
  of \<^verbatim>\<open>filepath.Dir\<close> is (\<^verbatim>\<open>//\<close> is not).
\<close>

definition lockable :: "path \<Rightarrow> bool" where
  "lockable p \<longleftrightarrow> (path_parts p = [] \<longrightarrow> p = '''' \<or> p = ''/'')"

lemma path_parts_root [simp]: "path_parts [] = []" "path_parts ''/'' = []"
  by (simp_all add: path_parts_def)

lemma lockParents_free:
  assumes "lockable p \<or> \<not> lock" and "\<And>ds. prefix ds (path_parts p) \<Longrightarrow> L ds = Free"
  shows "lockParents root p lock L =
    (case walk root (path_parts p) of
       None \<Rightarrow> (Fail (NsErr PathNotFound p), L)
     | Some _ \<Rightarrow> (Return ([path_parts p], path_parts p), L(path_parts p := held lock)))"
proof (cases "p = '''' \<or> p = ''/''")
  case True
  then have "path_parts p = []" by auto
  with True assms(2) [of "[]"] show ?thesis
    by (auto simp: lockParents_def RUnlock_reader held_def)
next
  case False
  have free: "L [] = Free" using assms(2) [of "[]"] by simp
  have below: "L ([] @ ds) = Free" if "ds \<noteq> []" "prefix ds (path_parts p)" for ds
    using assms(2) [OF that(2)] by simp
  have "lockParents root p lock L = lock_loop root p lock [] [[]] (path_parts p) (L([] := one_reader))"
    using False free by (simp add: lockParents_def)
  also note lock_loop_free [of root "[]" root L "path_parts p" p lock, OF _ free below]
  finally show ?thesis
    using False assms(1) by (auto simp: lockable_def held_def split: option.splits)
qed

lemma lockParents_blocked:
  assumes "prefix ds (path_parts p)" and "L = no_locks(ds := Writer)" and "walk root ds \<noteq> None"
  shows "fst (lockParents root p lock L) = Deadlock"
proof (cases "ds = []")
  case True
  with assms(2) show ?thesis by (simp add: lockParents_def)
next
  case False
  then have "p \<noteq> ''''" "p \<noteq> ''/''" using assms(1) by auto
  moreover have "L [] = Free" using assms(2) False by (simp add: no_locks_def)
  moreover have "fst (lock_loop root p lock [] [[]] (path_parts p) (L([] := one_reader))) = Deadlock"
    using assms False by (intro lock_loop_blocked [of root "[]" root L ds])
      (auto simp: no_locks_def strict_prefix_def)
  ultimately show ?thesis by (simp add: lockParents_def)
qed

lemma unlockParents_held:
  "L a = Free \<Longrightarrow> unlockParents [a] lock (L(a := held lock)) = (Return (), L)"
  by (simp add: unlockParents_def held_def RUnlock_reader Unlock_writer)

lemma path_parts_join:
  assumes "ps \<noteq> []" and "\<And>s. s \<in> set ps \<Longrightarrow> s \<noteq> [] \<and> sep \<notin> set s"
  shows "path_parts (join_with [sep] ps) = ps"
  using assms split_on_join [of ps sep] by (auto simp: path_parts_def intro!: filter_True)

lemma lockable_Clean: "lockable (Clean p)"
proof (cases "rooted p")
  case True
  then obtain ps where "Clean p = abs_path ps" and valid: "\<And>s. s \<in> set ps \<Longrightarrow> valid_comp s"
    by (rule Clean_rooted) blast
  then show ?thesis
    by (auto simp: lockable_def path_parts_abs_path [OF valid]) (simp add: abs_path_def)
next
  case False
  let ?ps = "clean_elems False [] (split_on sep p)"
  have ok: "s \<noteq> [] \<and> sep \<notin> set s" if "s \<in> set ?ps" for s
    using clean_elems_out_no_sep [of "split_on sep p" "[]" s False] split_on_no_sep [of _ sep p] that
    by auto
  have dot: "path_parts ''.'' = [''.'']" by (simp add: path_parts_def)
  show ?thesis
  proof (cases "?ps = []")
    case True
    then show ?thesis using False dot by (auto simp: lockable_def Clean_def)
  next
    case ne: False
    then have "join_with [sep] ?ps \<noteq> []" using join_with_eq_Nil [of ?ps "[sep]"] ok by auto
    then have "p = [] \<or> Clean p = join_with [sep] ?ps" using False by (simp add: Clean_def)
    then show ?thesis using path_parts_join [OF ne ok] ne dot by (auto simp: lockable_def Clean_def)
  qed
qed

lemma lockable_Dir [simp]: "lockable (Dir p)"
  by (simp add: Dir_def lockable_Clean)

lemma lockable_abs_path:
  "(\<And>s. s \<in> set ps \<Longrightarrow> valid_comp s) \<Longrightarrow> lockable (abs_path ps)"
  by (simp add: lockable_def path_parts_abs_path) (simp add: abs_path_def)

end
