(* ===== verification/Namespace_Manager.thy ===== *)
theory Namespace_Manager
  imports Ns_Locks Helpers "HOL-Library.List_Lexorder" "HOL-Library.Char_ord"
begin

text \<open>
  The operations of \<^verbatim>\<open>src/namespace_manager/nsmanager.go\<close> on the namespace tree, each with the
  node mutexes it takes and the deferred releases, the two background goroutines as steps, and
  the refinement of every operation to the abstract namespace of \<open>Ns_Tree\<close>.
\<close>

section \<open>State\<close>

text \<open>
  \<open>deleteCache\<close> is a set of paths (in the order one range loop visits it), \<open>cleanupChan\<close> the
  contents of the buffered channel, and \<open>ns_locks\<close> the mutexes embedded in the nodes.
\<close>

record namespace_manager =
  ns_root :: ns_tree
  deleteCache :: "string list"
  cleanupChan :: "string list"
  serializationCount :: int
  deserializationCount :: int
  ns_locks :: locks

type_synonym 'a nm_result = "'a outcome \<times> namespace_manager"

definition NewNameSpaceManager :: namespace_manager where
  "NewNameSpaceManager = \<lparr>ns_root = dir_node ''*'', deleteCache = [], cleanupChan = [],
     serializationCount = 0, deserializationCount = 0, ns_locks = no_locks\<rparr>"

definition on_locks :: "(locks \<Rightarrow> 'a outcome \<times> locks) \<Rightarrow> namespace_manager \<Rightarrow> 'a nm_result" where
  "on_locks f nm = (case f (ns_locks nm) of (r, L) \<Rightarrow> (r, nm\<lparr>ns_locks := L\<rparr>))"

definition fail_if :: "go_error option \<Rightarrow> 's \<Rightarrow> unit outcome \<times> 's" where
  "fail_if e s = (case e of None \<Rightarrow> (Return (), s) | Some err \<Rightarrow> (Fail err, s))"

text \<open>Deferred calls run when the body returns or panics, not when it blocks forever.\<close>

definition deferring :: "(namespace_manager \<Rightarrow> unit nm_result) \<Rightarrow> 'a nm_result \<Rightarrow> 'a nm_result" where
  "deferring cleanup res = (case res of (r, nm) \<Rightarrow>
     (case r of Deadlock \<Rightarrow> (Deadlock, nm) | _ \<Rightarrow> bind_st (cleanup nm) (\<lambda>_ nm. (r, nm))))"

text \<open>\<^verbatim>\<open>parents, cwd, err := nm.lockParents(p, lock)\<close> with the deferred \<^verbatim>\<open>unlockParents\<close>.\<close>

definition with_parent :: "path \<Rightarrow> bool \<Rightarrow> (string list \<Rightarrow> namespace_manager \<Rightarrow> 'a nm_result) \<Rightarrow>
    namespace_manager \<Rightarrow> 'a nm_result" where
  "with_parent p lock body nm =
     bind_st (on_locks (lockParents (ns_root nm) p lock) nm) (\<lambda>(locked, cwd) nm.
       deferring (on_locks (unlockParents locked lock)) (body cwd nm))"

definition child_at :: "namespace_manager \<Rightarrow> string list \<Rightarrow> string \<Rightarrow> ns_tree option" where
  "child_at nm cwd name = walk (ns_root nm) (cwd @ [name])"

definition assign_child :: "string list \<Rightarrow> string \<Rightarrow> ns_tree \<Rightarrow> namespace_manager \<Rightarrow> unit nm_result" where
  "assign_child cwd name node nm = (case assign_at cwd name node (ns_root nm) of
     Return t \<Rightarrow> (Return (), nm\<lparr>ns_root := t\<rparr>)
   | _ \<Rightarrow> (Panic, nm))"

definition delete_child :: "string list \<Rightarrow> string \<Rightarrow> namespace_manager \<Rightarrow> namespace_manager" where
  "delete_child cwd name nm = nm\<lparr>ns_root := delete_at cwd name (ns_root nm)\<rparr>"

section \<open>Operations\<close>

definition RetrievePartitionFromPath :: "path \<Rightarrow> path \<times> string" where
  "RetrievePartitionFromPath p = (Dir p, Base p)"

definition Create :: "path \<Rightarrow> namespace_manager \<Rightarrow> unit nm_result" where
  "Create p nm =
     (let (dirpath, filename) = RetrievePartitionFromPath p in
      bind_st (fail_if (ValidateFilename filename p) nm) (\<lambda>_.
      with_parent dirpath True (\<lambda>cwd nm.
        if child_at nm cwd filename \<noteq> None then (Return (), nm)
        else assign_child cwd filename (file_node p) nm)))"

definition Delete :: "path \<Rightarrow> namespace_manager \<Rightarrow> unit nm_result" where
  "Delete p nm =
     (let (dirpath, filename) = RetrievePartitionFromPath p in
      bind_st (fail_if (ValidateFilename filename p) nm) (\<lambda>_.
      with_parent dirpath True (\<lambda>cwd nm.
        case child_at nm cwd filename of
          None \<Rightarrow> (Fail (NsErr PathDoesNotExist p), nm)
        | Some node \<Rightarrow>
            bind_st (assign_child cwd (DeletedNamespaceFilePrefix @ filename) node nm) (\<lambda>_ nm.
            let nm = delete_child cwd filename nm in
            (Return (), nm\<lparr>deleteCache := List.insert p (deleteCache nm)\<rparr>)))))"

definition MkDir :: "path \<Rightarrow> namespace_manager \<Rightarrow> unit nm_result" where
  "MkDir p nm =
     (let (dirpath, dirname) = RetrievePartitionFromPath p in
      with_parent dirpath True (\<lambda>cwd nm.
        if child_at nm cwd dirname \<noteq> None then (Return (), nm)
        else assign_child cwd dirname (dir_node p) nm) nm)"

fun mkdir_loop :: "path \<Rightarrow> string list \<Rightarrow> namespace_manager \<Rightarrow> unit nm_result" where
  "mkdir_loop currentPath [] nm = (Return (), nm)"
| "mkdir_loop currentPath (seg # segments) nm =
     (if seg = '''' then mkdir_loop currentPath segments nm
      else let nextPath = Join [currentPath, seg] in
           bind_st (MkDir nextPath nm) (\<lambda>_. mkdir_loop nextPath segments))"

definition MkDirAll :: "path \<Rightarrow> namespace_manager \<Rightarrow> unit nm_result" where
  "MkDirAll p nm =
     (if p = '''' \<or> p = ''/'' then (Return (), nm)
      else let (dirPath, lastSegment) = RetrievePartitionFromPath p in
        if Ext lastSegment \<noteq> '''' \<and> dirPath = '''' then (Return (), nm)
        else let target = (if Ext lastSegment \<noteq> '''' then dirPath else p) in
          mkdir_loop ''/'' (split_on sep target) nm)"

text \<open>\<^verbatim>\<open>Get\<close> returns a pointer to a node: the node's address here.\<close>

definition Get :: "path \<Rightarrow> namespace_manager \<Rightarrow> string list nm_result" where
  "Get p nm =
     (let (dirpath, name) = RetrievePartitionFromPath p in
      with_parent dirpath False (\<lambda>cwd nm.
        if child_at nm cwd name \<noteq> None then (Return (cwd @ [name]), nm)
        else (Fail (NodeDoesNotExist dirpath name), nm)) nm)"

definition wrap_error :: "(go_error \<Rightarrow> go_error) \<Rightarrow> 'a outcome \<times> 's \<Rightarrow> 'a outcome \<times> 's" where
  "wrap_error w res = (case res of (Fail e, s) \<Rightarrow> (Fail (w e), s) | _ \<Rightarrow> res)"

definition option_list :: "'a option \<Rightarrow> 'a list" where
  "option_list x = (case x of None \<Rightarrow> [] | Some y \<Rightarrow> [y])"

definition rename_same_dir :: "path \<Rightarrow> path \<Rightarrow> string \<Rightarrow> string \<Rightarrow> string list \<Rightarrow>
    namespace_manager \<Rightarrow> unit nm_result" where
  "rename_same_dir source target srcName tgtName parent nm =
     (case child_at nm parent srcName of
        None \<Rightarrow> (Fail (NsErr SourceDoesNotExist source), nm)
      | Some srcNode \<Rightarrow>
          if child_at nm parent tgtName \<noteq> None then (Fail (NsErr TargetAlreadyExists target), nm)
          else assign_child parent tgtName (set_path target srcNode) (delete_child parent srcName nm))"

text \<open>
  The target's parent may lie inside the node that is moved; once the node is taken out of its
  parent, the assignment changes a part of the tree that no path leads to any more.
\<close>

definition rename_across :: "path \<Rightarrow> path \<Rightarrow> string \<Rightarrow> string \<Rightarrow> string list \<Rightarrow> string list \<Rightarrow>
    namespace_manager \<Rightarrow> unit nm_result" where
  "rename_across source target srcName tgtName srcParent tgtParent nm =
     (if child_at nm tgtParent tgtName \<noteq> None then (Fail (NsErr TargetAlreadyExists target), nm)
      else case child_at nm srcParent srcName of
        None \<Rightarrow> (Fail (NsErr SourceDoesNotExist source), nm)
      | Some srcNode \<Rightarrow>
          let nm' = delete_child srcParent srcName nm in
          if walk (ns_root nm') tgtParent = None
          then (case Option.bind (walk (ns_root nm) tgtParent) childrenNodes of
                  None \<Rightarrow> (Panic, nm')
                | Some _ \<Rightarrow> (Return (), nm'))
          else assign_child tgtParent tgtName (set_path target srcNode) nm')"

definition Rename :: "path \<Rightarrow> path \<Rightarrow> namespace_manager \<Rightarrow> unit nm_result" where
  "Rename source target nm =
     (if source = target then (Return (), nm)
      else let (srcDirpath, srcName) = RetrievePartitionFromPath source;
               (tgtDirpath, tgtName) = RetrievePartitionFromPath target;
               errs = option_list (ValidateFilename srcName source) @
                      option_list (ValidateFilename tgtName target) in
        if errs \<noteq> [] then (Fail (InvalidPath errs), nm)
        else
          bind_st (wrap_error SourceNotLocated (Get source nm)) (\<lambda>_ nm.
          bind_st (if tgtDirpath \<noteq> '''' then wrap_error TargetDirNotCreated (MkDirAll tgtDirpath nm)
                   else (Return (), nm)) (\<lambda>_ nm.
          if srcDirpath = tgtDirpath
          then with_parent srcDirpath True (rename_same_dir source target srcName tgtName) nm
          else if srcDirpath < tgtDirpath
          then with_parent srcDirpath True (\<lambda>srcParent.
                 with_parent tgtDirpath True (\<lambda>tgtParent.
                   rename_across source target srcName tgtName srcParent tgtParent)) nm
          else with_parent tgtDirpath True (\<lambda>tgtParent.
                 with_parent srcDirpath True (\<lambda>srcParent.
                   rename_across source target srcName tgtName srcParent tgtParent)) nm)))"

definition UpdateFileMetadata :: "path \<Rightarrow> int \<Rightarrow> int \<Rightarrow> namespace_manager \<Rightarrow> unit nm_result" where
  "UpdateFileMetadata p len chunks nm =
     (let (dirpath, filename) = RetrievePartitionFromPath p in
      with_parent dirpath False (\<lambda>cwd nm.
        case child_at nm cwd filename of
          None \<Rightarrow> (Fail (NsErr FileDoesNotExist p), nm)
        | Some file \<Rightarrow>
            if IsDir file then (Fail (NsErr IsADirectory p), nm)
            else bind_st (on_locks (Lock (cwd @ [filename])) nm) (\<lambda>_ nm.
                 deferring (on_locks (Unlock (cwd @ [filename])))
                   (Return (),
                    nm\<lparr>ns_root := update_at (cwd @ [filename]) (set_size len chunks) (ns_root nm)\<rparr>))) nm)"

definition RemoveDir :: "path \<Rightarrow> namespace_manager \<Rightarrow> unit nm_result" where
  "RemoveDir p nm =
     (if p = '''' \<or> p = ''/'' then (Fail CannotRemoveRoot, nm)
      else let (dirpath, dirname) = RetrievePartitionFromPath p in
        bind_st (fail_if (ValidateFilename dirname p) nm) (\<lambda>_.
        with_parent dirpath True (\<lambda>cwd nm.
          case child_at nm cwd dirname of
            None \<Rightarrow> (Fail (NsErr PathDoesNotExist p), nm)
          | Some node \<Rightarrow>
              if \<not> IsDir node then (Fail (NsErr NotADirectory p), nm)
              else bind_st (assign_child cwd (DeletedNamespaceFilePrefix @ dirname) node nm) (\<lambda>_ nm.
                   let nm = delete_child cwd dirname nm in
                   (Return (), nm\<lparr>deleteCache := List.insert p (deleteCache nm)\<rparr>)))))"

section \<open>The background goroutines\<close>

text \<open>
  One receive from \<^verbatim>\<open>cleanupChan\<close>. An error of \<^verbatim>\<open>lockParents\<close> continues the loop; the path
  then stays in \<^verbatim>\<open>deleteCache\<close>.
\<close>

definition cleanup_receive :: "namespace_manager \<Rightarrow> unit nm_result" where
  "cleanup_receive nm = (case cleanupChan nm of
     [] \<Rightarrow> (Return (), nm)
   | p # rest \<Rightarrow>
       let nm = nm\<lparr>cleanupChan := rest\<rparr>;
           (dirpath, filename) = RetrievePartitionFromPath p;
           deletedKey = DeletedNamespaceFilePrefix @ filename in
       (case with_parent dirpath True (\<lambda>cwd nm. (Return (), delete_child cwd deletedKey nm)) nm of
          (Return _, nm) \<Rightarrow> (Return (), nm\<lparr>deleteCache := removeAll p (deleteCache nm)\<rparr>)
        | (Fail _, nm) \<Rightarrow> (Return (), nm)
        | (r, nm) \<Rightarrow> (r, nm)))"

text \<open>One tick: a non-blocking send for every path of \<^verbatim>\<open>deleteCache\<close>; the channel holds 100.\<close>

definition cleanup_tick :: "namespace_manager \<Rightarrow> namespace_manager" where
  "cleanup_tick nm = nm\<lparr>cleanupChan :=
     fold (\<lambda>p ch. if length ch < 100 then ch @ [p] else ch) (deleteCache nm) (cleanupChan nm)\<rparr>"

section \<open>Locking discipline\<close>

lemma on_locks_simp: "f (ns_locks nm) = (r, L) \<Longrightarrow> on_locks f nm = (r, nm\<lparr>ns_locks := L\<rparr>)"
  by (simp add: on_locks_def)

lemma fail_if_simps [simp]: "fail_if None s = (Return (), s)" "fail_if (Some e) s = (Fail e, s)"
  by (simp_all add: fail_if_def)

text \<open>
  A body that neither blocks nor touches the node mutexes. Under \<open>with_parent\<close> such a body sees
  the mutexes granted and leaves them as they were.
\<close>

definition lock_free :: "(string list \<Rightarrow> namespace_manager \<Rightarrow> 'a nm_result) \<Rightarrow> bool" where
  "lock_free f \<longleftrightarrow> (\<forall>cwd nm L. f cwd (nm\<lparr>ns_locks := L\<rparr>) =
     apsnd (\<lambda>nm. nm\<lparr>ns_locks := L\<rparr>) (f cwd nm) \<and> fst (f cwd nm) \<noteq> Deadlock)"

lemma lock_freeI:
  "(\<And>cwd nm L. f cwd (nm\<lparr>ns_locks := L\<rparr>) = apsnd (\<lambda>nm. nm\<lparr>ns_locks := L\<rparr>) (f cwd nm)) \<Longrightarrow>
   (\<And>cwd nm. fst (f cwd nm) \<noteq> Deadlock) \<Longrightarrow> lock_free f"
  by (simp add: lock_free_def)

lemma lock_freeD:
  assumes "lock_free f"
  shows "f cwd (nm\<lparr>ns_locks := L\<rparr>) = apsnd (\<lambda>nm. nm\<lparr>ns_locks := L\<rparr>) (f cwd nm)"
    and "fst (f cwd nm) \<noteq> Deadlock" and "ns_locks (snd (f cwd nm)) = ns_locks nm"
proof -
  show eq: "f cwd (nm\<lparr>ns_locks := L\<rparr>) = apsnd (\<lambda>nm. nm\<lparr>ns_locks := L\<rparr>) (f cwd nm)" for L
    using assms by (simp add: lock_free_def)
  show "fst (f cwd nm) \<noteq> Deadlock" using assms by (simp add: lock_free_def)
  show "ns_locks (snd (f cwd nm)) = ns_locks nm"
    using arg_cong [OF eq [of "ns_locks nm"], of "\<lambda>x. ns_locks (snd x)"] by simp
qed

lemma with_parent_granted:
  assumes "lockable p \<or> \<not> lock"
    and "\<And>ds. prefix ds (path_parts p) \<Longrightarrow> ns_locks nm ds = Free"
  shows "with_parent p lock body nm =
    (case walk (ns_root nm) (path_parts p) of
       None \<Rightarrow> (Fail (NsErr PathNotFound p), nm)
     | Some _ \<Rightarrow> deferring (on_locks (unlockParents [path_parts p] lock))
         (body (path_parts p) (nm\<lparr>ns_locks := (ns_locks nm)(path_parts p := held lock)\<rparr>)))"
  using lockParents_free [of p lock "ns_locks nm" "ns_root nm"] assms
  by (auto simp: with_parent_def on_locks_def split: option.splits)

lemma deferring_release:
  assumes "L a = Free" and "ns_locks nm = L(a := held lock)" and "r \<noteq> Deadlock"
  shows "deferring (on_locks (unlockParents [a] lock)) (r, nm) = (r, nm\<lparr>ns_locks := L\<rparr>)"
  using assms unlockParents_held [of L a lock]
  by (cases r) (auto simp: deferring_def on_locks_def)

lemma deferring_restore:
  assumes "ns_locks nm = L" and "L a = Free" and "r \<noteq> Deadlock"
  shows "deferring (on_locks (unlockParents [a] lock)) (r, nm\<lparr>ns_locks := L(a := held lock)\<rparr>) = (r, nm)"
  using deferring_release [of L a "nm\<lparr>ns_locks := L(a := held lock)\<rparr>" lock r] assms by auto

lemma with_parent_pure:
  assumes "lockable p \<or> \<not> lock" and body: "lock_free body"
    and free: "\<And>ds. prefix ds (path_parts p) \<Longrightarrow> ns_locks nm ds = Free"
  shows "with_parent p lock body nm =
    (case walk (ns_root nm) (path_parts p) of
       None \<Rightarrow> (Fail (NsErr PathNotFound p), nm)
     | Some _ \<Rightarrow> body (path_parts p) nm)"
proof -
  let ?a = "path_parts p"
  obtain r nm' where b: "body ?a nm = (r, nm')" by (cases "body ?a nm")
  have L': "ns_locks nm' = ns_locks nm" and r: "r \<noteq> Deadlock"
    using lock_freeD(2,3) [OF body, of ?a nm] b by auto
  have "body ?a (nm\<lparr>ns_locks := (ns_locks nm)(?a := held lock)\<rparr>) =
      (r, nm'\<lparr>ns_locks := (ns_locks nm)(?a := held lock)\<rparr>)"
    using lock_freeD(1) [OF body, where cwd = ?a and nm = nm] b by simp
  moreover have "deferring (on_locks (unlockParents [?a] lock))
      (r, nm'\<lparr>ns_locks := (ns_locks nm)(?a := held lock)\<rparr>) = (r, nm')"
    using free [of ?a] r L' by (intro deferring_restore) auto
  ultimately have "deferring (on_locks (unlockParents [?a] lock))
      (body ?a (nm\<lparr>ns_locks := (ns_locks nm)(?a := held lock)\<rparr>)) = body ?a nm"
    using b by simp
  then show ?thesis
    by (subst with_parent_granted) (use assms(1) free in \<open>auto split: option.splits\<close>)
qed

lemma no_locks_apply [simp]: "no_locks a = Free"
  by (simp add: no_locks_def)

lemma assign_child_eq:
  "walk (ns_root nm) cwd = Some d \<Longrightarrow> assign_child cwd name c nm =
     (if childrenNodes d = None then (Panic, nm)
      else (Return (), nm\<lparr>ns_root := update_at cwd (put_child name c) (ns_root nm)\<rparr>))"
  by (auto simp: assign_child_def assign_at_def split: option.splits)

lemma assign_child_locks [simp]:
  "assign_child cwd name c (nm\<lparr>ns_locks := L\<rparr>) = apsnd (\<lambda>nm. nm\<lparr>ns_locks := L\<rparr>) (assign_child cwd name c nm)"
  "fst (assign_child cwd name c nm) \<noteq> Deadlock"
  by (auto simp: assign_child_def assign_at_def split: option.splits)

lemma child_at_locks [simp]: "child_at (nm\<lparr>ns_locks := L\<rparr>) cwd name = child_at nm cwd name"
  by (simp add: child_at_def)

lemma delete_child_locks [simp]:
  "delete_child cwd name (nm\<lparr>ns_locks := L\<rparr>) = (delete_child cwd name nm)\<lparr>ns_locks := L\<rparr>"
  by (simp add: delete_child_def)

lemma bind_assign_locks [simp]:
  assumes "\<And>nm L. f () (nm\<lparr>ns_locks := L\<rparr>) = apsnd (\<lambda>nm. nm\<lparr>ns_locks := L\<rparr>) (f () nm)"
  shows "bind_st (assign_child cwd name c (nm\<lparr>ns_locks := L\<rparr>)) f =
      apsnd (\<lambda>nm. nm\<lparr>ns_locks := L\<rparr>) (bind_st (assign_child cwd name c nm) f)"
  using assms by (cases "assign_child cwd name c nm"; cases "fst (assign_child cwd name c nm)") auto

section \<open>Operations with the locks granted\<close>

abbreviation parent_parts :: "path \<Rightarrow> string list" where
  "parent_parts p \<equiv> path_parts (Dir p)"

abbreviation full_parts :: "path \<Rightarrow> string list" where
  "full_parts p \<equiv> path_parts (Dir p) @ [Base p]"

text \<open>The bodies the operations run on the locked parent.\<close>

definition add_node :: "string \<Rightarrow> ns_tree \<Rightarrow> string list \<Rightarrow> namespace_manager \<Rightarrow> unit nm_result" where
  "add_node name node cwd nm =
     (if child_at nm cwd name \<noteq> None then (Return (), nm) else assign_child cwd name node nm)"

definition bury_node :: "path \<Rightarrow> string \<Rightarrow> ns_tree \<Rightarrow> string list \<Rightarrow> namespace_manager \<Rightarrow> unit nm_result" where
  "bury_node p name node cwd nm =
     bind_st (assign_child cwd (DeletedNamespaceFilePrefix @ name) node nm) (\<lambda>_ nm.
       let nm = delete_child cwd name nm in
       (Return (), nm\<lparr>deleteCache := List.insert p (deleteCache nm)\<rparr>))"

lemma lock_free_add_node: "lock_free (add_node name node)"
  by (rule lock_freeI) (auto simp: add_node_def)

lemma bury_node_locks [simp]:
  "bury_node p name node cwd (nm\<lparr>ns_locks := L\<rparr>) =
     apsnd (\<lambda>nm. nm\<lparr>ns_locks := L\<rparr>) (bury_node p name node cwd nm)"
  unfolding bury_node_def by (rule bind_assign_locks) (simp add: delete_child_def)

lemma bury_node_no_deadlock [simp]: "fst (bury_node p name node cwd nm) \<noteq> Deadlock"
  by (auto simp: bury_node_def assign_child_def bind_st_def Let_def split: outcome.splits prod.splits)

lemma lock_free_rename_across: "lock_free (rename_across s t sn tn sp)"
proof (rule lock_freeI, goal_cases)
  case (1 cwd nm L)
  have "ns_root ((delete_child sp sn nm)\<lparr>ns_locks := L\<rparr>) = ns_root (delete_child sp sn nm)" by simp
  then show ?case by (auto simp: rename_across_def Let_def split: option.splits)
next
  case (2 cwd nm)
  show ?case by (simp add: rename_across_def Let_def split: option.splits)
qed

lemma lock_free_rename_same_dir: "lock_free (rename_same_dir s t sn tn)"
  by (rule lock_freeI) (auto simp: rename_same_dir_def split: option.splits)

lemma Create_eq:
  assumes "ns_locks nm = no_locks"
  shows "Create p nm = (case ValidateFilename (Base p) p of
     Some e \<Rightarrow> (Fail e, nm)
   | None \<Rightarrow> (case walk (ns_root nm) (parent_parts p) of
       None \<Rightarrow> (Fail (NsErr PathNotFound (Dir p)), nm)
     | Some _ \<Rightarrow> add_node (Base p) (file_node p) (parent_parts p) nm))"
  using assms with_parent_pure [OF _ lock_free_add_node, of "Dir p" True nm "Base p" "file_node p"]
  by (auto simp: Create_def RetrievePartitionFromPath_def add_node_def [abs_def] split: option.splits)

lemma MkDir_eq:
  assumes "ns_locks nm = no_locks"
  shows "MkDir p nm = (case walk (ns_root nm) (parent_parts p) of
       None \<Rightarrow> (Fail (NsErr PathNotFound (Dir p)), nm)
     | Some _ \<Rightarrow> add_node (Base p) (dir_node p) (parent_parts p) nm)"
  using assms with_parent_pure [OF _ lock_free_add_node, of "Dir p" True nm "Base p" "dir_node p"]
  by (auto simp: MkDir_def RetrievePartitionFromPath_def add_node_def [abs_def] split: option.splits)

lemma Get_eq:
  assumes "ns_locks nm = no_locks"
  shows "Get p nm = (case walk (ns_root nm) (parent_parts p) of
       None \<Rightarrow> (Fail (NsErr PathNotFound (Dir p)), nm)
     | Some _ \<Rightarrow>
         if walk (ns_root nm) (full_parts p) \<noteq> None then (Return (full_parts p), nm)
         else (Fail (NodeDoesNotExist (Dir p) (Base p)), nm))"
proof -
  have "lock_free (\<lambda>cwd nm. if child_at nm cwd (Base p) \<noteq> None then (Return (cwd @ [Base p]), nm)
        else (Fail (NodeDoesNotExist (Dir p) (Base p)), nm))"
    by (rule lock_freeI) auto
  from with_parent_pure [OF _ this, of "Dir p" False nm] assms show ?thesis
    by (auto simp: Get_def RetrievePartitionFromPath_def child_at_def split: option.splits)
qed

lemma Delete_eq:
  assumes "ns_locks nm = no_locks"
  shows "Delete p nm = (case ValidateFilename (Base p) p of
     Some e \<Rightarrow> (Fail e, nm)
   | None \<Rightarrow> (case walk (ns_root nm) (parent_parts p) of
       None \<Rightarrow> (Fail (NsErr PathNotFound (Dir p)), nm)
     | Some _ \<Rightarrow> (case walk (ns_root nm) (full_parts p) of
         None \<Rightarrow> (Fail (NsErr PathDoesNotExist p), nm)
       | Some node \<Rightarrow> bury_node p (Base p) node (parent_parts p) nm)))"
proof -
  define body where "body = (\<lambda>cwd nm. case child_at nm cwd (Base p) of
      None \<Rightarrow> (Fail (NsErr PathDoesNotExist p), nm)
    | Some node \<Rightarrow> bury_node p (Base p) node cwd nm)"
  have "Delete p nm = bind_st (fail_if (ValidateFilename (Base p) p) nm) (\<lambda>_. with_parent (Dir p) True body)"
    unfolding Delete_def RetrievePartitionFromPath_def body_def bury_node_def by simp
  moreover have "lock_free body"
    unfolding body_def by (rule lock_freeI) (auto split: option.splits)
  ultimately show ?thesis
    using with_parent_pure [of "Dir p" True body nm] assms
    by (auto simp: body_def child_at_def split: option.splits)
qed

lemma RemoveDir_eq:
  assumes "ns_locks nm = no_locks"
  shows "RemoveDir p nm = (if p = '''' \<or> p = ''/'' then (Fail CannotRemoveRoot, nm)
   else case ValidateFilename (Base p) p of
     Some e \<Rightarrow> (Fail e, nm)
   | None \<Rightarrow> (case walk (ns_root nm) (parent_parts p) of
       None \<Rightarrow> (Fail (NsErr PathNotFound (Dir p)), nm)
     | Some _ \<Rightarrow> (case walk (ns_root nm) (full_parts p) of
         None \<Rightarrow> (Fail (NsErr PathDoesNotExist p), nm)
       | Some node \<Rightarrow> if \<not> IsDir node then (Fail (NsErr NotADirectory p), nm)
           else bury_node p (Base p) node (parent_parts p) nm)))"
proof -
  define body where "body = (\<lambda>cwd nm. case child_at nm cwd (Base p) of
      None \<Rightarrow> (Fail (NsErr PathDoesNotExist p), nm)
    | Some node \<Rightarrow> if \<not> IsDir node then (Fail (NsErr NotADirectory p), nm)
        else bury_node p (Base p) node cwd nm)"
  have "RemoveDir p nm = (if p = '''' \<or> p = ''/'' then (Fail CannotRemoveRoot, nm) else
      bind_st (fail_if (ValidateFilename (Base p) p) nm) (\<lambda>_. with_parent (Dir p) True body))"
    unfolding RemoveDir_def RetrievePartitionFromPath_def body_def bury_node_def by simp
  moreover have "lock_free body"
    unfolding body_def by (rule lock_freeI) (auto split: option.splits)
  ultimately show ?thesis
    using with_parent_pure [of "Dir p" True body nm] assms
    by (auto simp: body_def child_at_def split: option.splits)
qed

lemma UpdateFileMetadata_eq:
  assumes "ns_locks nm = no_locks"
  shows "UpdateFileMetadata p len chunks nm = (case walk (ns_root nm) (parent_parts p) of
       None \<Rightarrow> (Fail (NsErr PathNotFound (Dir p)), nm)
     | Some _ \<Rightarrow> (case walk (ns_root nm) (full_parts p) of
         None \<Rightarrow> (Fail (NsErr FileDoesNotExist p), nm)
       | Some file \<Rightarrow> if IsDir file then (Fail (NsErr IsADirectory p), nm)
           else (Return (),
             nm\<lparr>ns_root := update_at (full_parts p) (set_size len chunks) (ns_root nm)\<rparr>)))"
proof -
  let ?d = "parent_parts p"
  let ?L = "no_locks(?d := held False)"
  have nm: "nm\<lparr>ns_locks := no_locks\<rparr> = nm" using assms by simp
  have rel: "deferring (on_locks (unlockParents [?d] False)) (r, nm'\<lparr>ns_locks := ?L\<rparr>) =
      (r, nm'\<lparr>ns_locks := no_locks\<rparr>)" if "r \<noteq> Deadlock" for r :: "unit outcome" and nm'
    using that deferring_release [of no_locks ?d "nm'\<lparr>ns_locks := ?L\<rparr>" False r] by simp
  have upd: "bind_st (on_locks (Lock (full_parts p)) (nm\<lparr>ns_locks := ?L\<rparr>)) (\<lambda>_ nm.
        deferring (on_locks (Unlock (full_parts p))) (Return (),
          nm\<lparr>ns_root := update_at (full_parts p) f (ns_root nm)\<rparr>)) =
      (Return (), nm\<lparr>ns_root := update_at (full_parts p) f (ns_root nm), ns_locks := ?L\<rparr>)" for f
    by (simp add: on_locks_def deferring_def Unlock_writer)
  have err: "deferring (on_locks (unlockParents [?d] False)) (Fail e, nm\<lparr>ns_locks := ?L\<rparr>) =
      (Fail e :: unit outcome, nm)" for e
    using rel [of "Fail e" nm] by (simp only: nm) simp
  show ?thesis
    unfolding UpdateFileMetadata_def RetrievePartitionFromPath_def
    using upd err rel assms
    by (subst Let_def, subst case_prod_conv, subst with_parent_granted)
      (auto simp: child_at_def split: option.splits)
qed

text \<open>
  Two parents locked one after the other: the second request blocks on the first lock exactly
  when the first directory lies on the path to the second one.
\<close>

lemma two_parents_eq:
  assumes "ns_locks nm = no_locks" and "lockable p1" and "lockable p2"
    and body: "lock_free (body (path_parts p1))"
  shows "with_parent p1 True (\<lambda>a. with_parent p2 True (body a)) nm =
    (case walk (ns_root nm) (path_parts p1) of
       None \<Rightarrow> (Fail (NsErr PathNotFound p1), nm)
     | Some _ \<Rightarrow>
         if prefix (path_parts p1) (path_parts p2)
         then (Deadlock, nm\<lparr>ns_locks := snd (lockParents (ns_root nm) p2 True
                 (no_locks(path_parts p1 := Writer)))\<rparr>)
         else case walk (ns_root nm) (path_parts p2) of
           None \<Rightarrow> (Fail (NsErr PathNotFound p2), nm)
         | Some _ \<Rightarrow> body (path_parts p1) (path_parts p2) nm)"
    (is "?lhs = ?rhs")
proof -
  let ?a = "path_parts p1" and ?b = "path_parts p2"
  let ?L = "no_locks(?a := Writer)"
  let ?inner = "with_parent p2 True (body ?a) (nm\<lparr>ns_locks := ?L\<rparr>)"
  have held: "held True = Writer" by (simp add: held_def)
  have outer: "?lhs = (case walk (ns_root nm) ?a of
       None \<Rightarrow> (Fail (NsErr PathNotFound p1), nm)
     | Some _ \<Rightarrow> deferring (on_locks (unlockParents [?a] True)) ?inner)"
    using assms(1,2) by (subst with_parent_granted) (auto simp: held split: option.splits)
  have "deferring (on_locks (unlockParents [?a] True)) ?inner = ?rhs" if w: "walk (ns_root nm) ?a \<noteq> None"
  proof (cases "prefix ?a ?b")
    case True
    then have "fst (lockParents (ns_root nm) p2 True ?L) = Deadlock"
      using w by (intro lockParents_blocked) auto
    then have "?inner = (Deadlock, nm\<lparr>ns_locks := snd (lockParents (ns_root nm) p2 True ?L)\<rparr>)"
      by (cases "lockParents (ns_root nm) p2 True ?L") (simp add: with_parent_def on_locks_def)
    with True w show ?thesis by (auto simp: deferring_def split: option.splits)
  next
    case False
    then have "ns_locks (nm\<lparr>ns_locks := ?L\<rparr>) ds = Free" if "prefix ds ?b" for ds
      using that by auto
    then have inner: "?inner = (case walk (ns_root nm) ?b of
        None \<Rightarrow> (Fail (NsErr PathNotFound p2), nm\<lparr>ns_locks := ?L\<rparr>)
      | Some _ \<Rightarrow> apsnd (\<lambda>nm. nm\<lparr>ns_locks := ?L\<rparr>) (body ?a ?b nm))"
      using assms(3) body
      by (subst with_parent_pure) (auto simp: lock_freeD(1) [OF body] split: option.splits)
    have rel: "deferring (on_locks (unlockParents [?a] True)) (r, nm'\<lparr>ns_locks := ?L\<rparr>) = (r, nm')"
      if "r \<noteq> Deadlock" "ns_locks nm' = no_locks" for r nm'
      using that deferring_restore [of nm' no_locks ?a r True] by (simp add: held)
    obtain r nm' where b: "body ?a ?b nm = (r, nm')" by (cases "body ?a ?b nm")
    have "r \<noteq> Deadlock" "ns_locks nm' = no_locks"
      using lock_freeD(2,3) [OF body, of ?b nm] b assms(1) by auto
    then show ?thesis
      using w False b rel assms(1) by (auto simp: inner split: option.splits)
  qed
  then show ?thesis unfolding outer by (auto split: option.splits)
qed

end
