(* ===== verification/Ns_Refinement.thy ===== *)
theory Ns_Refinement
  imports Namespace_Manager
begin

text \<open>
  What the namespace manager promises. The abstract namespace is the map from addresses (lists
  of names) to node attributes; each operation of \<open>Namespace_Manager\<close> is shown to be the
  corresponding operation on that map, with the same outcome, and to keep the invariant: a
  well-formed tree, every node mutex released, and a bounded cleanup channel.
\<close>

section \<open>Abstract operations\<close>

type_synonym abs_ns = "string list \<Rightarrow> attrs option"

definition new_attrs :: "path \<Rightarrow> bool \<Rightarrow> attrs" where
  "new_attrs p dir = \<lparr>a_path = p, a_length = 0, a_chunks = 0, a_isdir = dir\<rparr>"

text \<open>
  \<open>abs_add\<close> binds a new address in an existing directory, \<open>abs_move\<close> rebinds a whole subtree
  (\<open>f\<close> changes the attributes of its root). Moving a subtree below itself loses it.
\<close>

definition abs_add :: "string list \<Rightarrow> string \<Rightarrow> attrs \<Rightarrow> abs_ns \<Rightarrow> unit outcome \<times> abs_ns" where
  "abs_add d b a V =
     (if V (d @ [b]) \<noteq> None then (Return (), V)
      else case V d of
        None \<Rightarrow> (Panic, V)
      | Some x \<Rightarrow> if a_isdir x then (Return (), V(d @ [b] \<mapsto> a)) else (Panic, V))"

definition abs_move :: "(attrs \<Rightarrow> attrs) \<Rightarrow> string list \<Rightarrow> string list \<Rightarrow> abs_ns \<Rightarrow> abs_ns" where
  "abs_move f src dst V = (\<lambda>ps.
     if \<not> prefix src dst \<and> prefix dst ps
     then (if ps = dst then map_option f (V src) else V (src @ drop (length dst) ps))
     else if prefix src ps then None else V ps)"

definition in_parent :: "path \<Rightarrow> (string list \<Rightarrow> abs_ns \<Rightarrow> 'a outcome \<times> abs_ns) \<Rightarrow> abs_ns \<Rightarrow>
    'a outcome \<times> abs_ns" where
  "in_parent dir f V =
     (if V (path_parts dir) = None then (Fail (NsErr PathNotFound dir), V) else f (path_parts dir) V)"

definition abs_create :: "path \<Rightarrow> abs_ns \<Rightarrow> unit outcome \<times> abs_ns" where
  "abs_create p V = bind_st (fail_if (ValidateFilename (Base p) p) V)
     (\<lambda>_. in_parent (Dir p) (\<lambda>d. abs_add d (Base p) (new_attrs p False)))"

definition abs_mkdir :: "path \<Rightarrow> abs_ns \<Rightarrow> unit outcome \<times> abs_ns" where
  "abs_mkdir p = in_parent (Dir p) (\<lambda>d. abs_add d (Base p) (new_attrs p True))"

definition tombstone :: "string \<Rightarrow> string" where
  "tombstone b = DeletedNamespaceFilePrefix @ b"

definition abs_delete :: "path \<Rightarrow> abs_ns \<Rightarrow> unit outcome \<times> abs_ns" where
  "abs_delete p V = bind_st (fail_if (ValidateFilename (Base p) p) V)
     (\<lambda>_. in_parent (Dir p) (\<lambda>d V.
        if V (d @ [Base p]) = None then (Fail (NsErr PathDoesNotExist p), V)
        else (Return (), abs_move id (d @ [Base p]) (d @ [tombstone (Base p)]) V)))"

definition abs_remove_dir :: "path \<Rightarrow> abs_ns \<Rightarrow> unit outcome \<times> abs_ns" where
  "abs_remove_dir p V =
     (if p = '''' \<or> p = ''/'' then (Fail CannotRemoveRoot, V)
      else bind_st (fail_if (ValidateFilename (Base p) p) V)
        (\<lambda>_. in_parent (Dir p) (\<lambda>d V. case V (d @ [Base p]) of
           None \<Rightarrow> (Fail (NsErr PathDoesNotExist p), V)
         | Some a \<Rightarrow> if \<not> a_isdir a then (Fail (NsErr NotADirectory p), V)
             else (Return (), abs_move id (d @ [Base p]) (d @ [tombstone (Base p)]) V))))"

definition abs_update :: "path \<Rightarrow> int \<Rightarrow> int \<Rightarrow> abs_ns \<Rightarrow> unit outcome \<times> abs_ns" where
  "abs_update p len chunks = in_parent (Dir p) (\<lambda>d V. case V (d @ [Base p]) of
     None \<Rightarrow> (Fail (NsErr FileDoesNotExist p), V)
   | Some a \<Rightarrow> if a_isdir a then (Fail (NsErr IsADirectory p), V)
       else (Return (), V(d @ [Base p] \<mapsto> a\<lparr>a_length := len, a_chunks := chunks\<rparr>)))"

definition abs_get :: "path \<Rightarrow> abs_ns \<Rightarrow> string list outcome \<times> abs_ns" where
  "abs_get p = in_parent (Dir p) (\<lambda>d V.
     if V (d @ [Base p]) = None then (Fail (NodeDoesNotExist (Dir p) (Base p)), V)
     else (Return (d @ [Base p]), V))"

fun abs_mkdirs :: "path \<Rightarrow> string list \<Rightarrow> abs_ns \<Rightarrow> unit outcome \<times> abs_ns" where
  "abs_mkdirs cur [] V = (Return (), V)"
| "abs_mkdirs cur (seg # segs) V =
     (if seg = '''' then abs_mkdirs cur segs V
      else bind_st (abs_mkdir (Join [cur, seg]) V) (\<lambda>_. abs_mkdirs (Join [cur, seg]) segs))"

definition abs_mkdir_all :: "path \<Rightarrow> abs_ns \<Rightarrow> unit outcome \<times> abs_ns" where
  "abs_mkdir_all p V =
     (if p = '''' \<or> p = ''/'' \<or> Ext (Base p) \<noteq> '''' \<and> Dir p = '''' then (Return (), V)
      else abs_mkdirs ''/'' (split_on sep (if Ext (Base p) \<noteq> '''' then Dir p else p)) V)"

text \<open>
  The last phase of a rename. With two different parent directories the one with the smaller
  path is locked first, and the request for the other blocks when it lies below the first.
\<close>

definition abs_rename_node :: "path \<Rightarrow> path \<Rightarrow> abs_ns \<Rightarrow> unit outcome \<times> abs_ns" where
  "abs_rename_node s t V =
     (let src = path_parts (Dir s) @ [Base s]; dst = path_parts (Dir t) @ [Base t];
          d1 = min (Dir s) (Dir t); d2 = max (Dir s) (Dir t);
          tgt_is_dir = (case V (path_parts (Dir t)) of None \<Rightarrow> False | Some a \<Rightarrow> a_isdir a) in
      if V (path_parts d1) = None then (Fail (NsErr PathNotFound d1), V)
      else if d1 \<noteq> d2 \<and> prefix (path_parts d1) (path_parts d2) then (Deadlock, V)
      else if V (path_parts d2) = None then (Fail (NsErr PathNotFound d2), V)
      else if d1 = d2 \<and> V src = None then (Fail (NsErr SourceDoesNotExist s), V)
      else if V dst \<noteq> None then (Fail (NsErr TargetAlreadyExists t), V)
      else if V src = None then (Fail (NsErr SourceDoesNotExist s), V)
      else if \<not> tgt_is_dir then (Panic, (\<lambda>ps. if prefix src ps then None else V ps))
      else (Return (), abs_move (\<lambda>a. a\<lparr>a_path := t\<rparr>) src dst V))"

definition abs_rename :: "path \<Rightarrow> path \<Rightarrow> abs_ns \<Rightarrow> unit outcome \<times> abs_ns" where
  "abs_rename s t V =
     (if s = t then (Return (), V)
      else let errs = option_list (ValidateFilename (Base s) s) @ option_list (ValidateFilename (Base t) t) in
        if errs \<noteq> [] then (Fail (InvalidPath errs), V)
        else bind_st (wrap_error SourceNotLocated (abs_get s V)) (\<lambda>_ V.
             bind_st (wrap_error TargetDirNotCreated (abs_mkdir_all (Dir t) V)) (\<lambda>_.
             abs_rename_node s t)))"

section \<open>Invariant\<close>

definition nm_inv :: "namespace_manager \<Rightarrow> bool" where
  "nm_inv nm \<longleftrightarrow> wf_tree (ns_root nm) \<and> IsDir (ns_root nm) \<and> ns_locks nm = no_locks \<and>
     distinct (deleteCache nm) \<and> length (cleanupChan nm) \<le> 100"

definition abs_res :: "'a nm_result \<Rightarrow> 'a outcome \<times> abs_ns" where
  "abs_res = apsnd (\<lambda>nm. view (ns_root nm))"

lemma abs_res_simp [simp]: "abs_res (r, nm) = (r, view (ns_root nm))"
  by (simp add: abs_res_def)

lemma nm_invD:
  "nm_inv nm \<Longrightarrow> wf_tree (ns_root nm)" "nm_inv nm \<Longrightarrow> IsDir (ns_root nm)"
  "nm_inv nm \<Longrightarrow> ns_locks nm = no_locks"
  by (simp_all add: nm_inv_def)

lemma IsDir_update_at: "(\<And>x. IsDir (f x) = IsDir x) \<Longrightarrow> IsDir (update_at d f t) = IsDir t"
  by (cases d) auto

lemma IsDir_ops [simp]: "IsDir (put_child n c t) = IsDir t" "IsDir (del_child n t) = IsDir t"
  "IsDir (set_size l k t) = IsDir t" "IsDir (set_path q t) = IsDir t"
  by (cases t; simp add: put_child_def del_child_def)+

text \<open>Tree surgery keeps the invariant.\<close>

lemma nm_inv_root:
  assumes "nm_inv nm" and "wf_tree t" and "IsDir t"
  shows "nm_inv (nm\<lparr>ns_root := t\<rparr>)"
  using assms by (simp add: nm_inv_def)

lemma nm_inv_assign:
  assumes "nm_inv nm" and "wf_tree c"
  shows "nm_inv (snd (assign_child d n c nm))"
proof -
  have "nm_inv (nm\<lparr>ns_root := update_at d (put_child n c) (ns_root nm)\<rparr>)"
    using assms by (intro nm_inv_root) (auto intro!: inv_intros simp: IsDir_update_at dest: nm_invD)
  then show ?thesis using assms(1) by (auto simp: assign_child_def assign_at_def split: option.splits)
qed

lemma nm_inv_delete_child: "nm_inv nm \<Longrightarrow> nm_inv (delete_child d n nm)"
  unfolding delete_child_def delete_at_def
  by (rule nm_inv_root) (auto intro!: inv_intros simp: IsDir_update_at dest: nm_invD)

lemma nm_inv_add_node: "nm_inv nm \<Longrightarrow> wf_tree c \<Longrightarrow> nm_inv (snd (add_node n c d nm))"
  by (simp add: add_node_def nm_inv_assign)

lemma nm_inv_bury_node:
  assumes "nm_inv nm" and "walk (ns_root nm) (d @ [n]) = Some node"
  shows "nm_inv (snd (bury_node p n node d nm))"
proof -
  have "wf_tree node" using assms wf_walk nm_invD(1) by blast
  then have a: "nm_inv (snd (assign_child d (DeletedNamespaceFilePrefix @ n) node nm))"
    using assms(1) by (rule nm_inv_assign [rotated])
  then show ?thesis
    using nm_inv_delete_child [OF a, of d n] assms(1)
    by (auto simp: bury_node_def bind_st_def Let_def nm_inv_def split: prod.splits outcome.splits)
qed

lemma nm_inv_Create: "nm_inv nm \<Longrightarrow> nm_inv (snd (Create p nm))"
  by (auto simp: Create_eq nm_invD intro!: nm_inv_add_node split: option.splits)

lemma nm_inv_MkDir: "nm_inv nm \<Longrightarrow> nm_inv (snd (MkDir p nm))"
  by (auto simp: MkDir_eq nm_invD intro!: nm_inv_add_node split: option.splits)

lemma nm_inv_Get: "nm_inv nm \<Longrightarrow> snd (Get p nm) = nm"
  by (auto simp: Get_eq nm_invD split: option.splits)

lemma nm_inv_Delete: "nm_inv nm \<Longrightarrow> nm_inv (snd (Delete p nm))"
  by (auto simp: Delete_eq nm_invD intro!: nm_inv_bury_node split: option.splits)

lemma nm_inv_RemoveDir: "nm_inv nm \<Longrightarrow> nm_inv (snd (RemoveDir p nm))"
  by (auto simp: RemoveDir_eq nm_invD intro!: nm_inv_bury_node split: option.splits)

lemma nm_inv_UpdateFileMetadata: "nm_inv nm \<Longrightarrow> nm_inv (snd (UpdateFileMetadata p l k nm))"
  by (auto simp: UpdateFileMetadata_eq nm_invD IsDir_update_at intro!: nm_inv_root inv_intros
      split: option.splits)

lemma nm_inv_mkdir_loop: "nm_inv nm \<Longrightarrow> nm_inv (snd (mkdir_loop cur segs nm))"
proof (induction cur segs nm rule: mkdir_loop.induct)
  case (2 cur seg segs nm)
  have "nm_inv (snd (MkDir (Join [cur, seg]) nm))" using 2 by (simp add: nm_inv_MkDir)
  with 2 show ?case
    by (cases "MkDir (Join [cur, seg]) nm"; cases "fst (MkDir (Join [cur, seg]) nm)") (auto simp: Let_def)
qed simp

lemma nm_inv_MkDirAll: "nm_inv nm \<Longrightarrow> nm_inv (snd (MkDirAll p nm))"
  by (auto simp: MkDirAll_def nm_inv_mkdir_loop Let_def split: prod.splits)

lemma nm_inv_rename_bodies:
  assumes "nm_inv nm"
  shows "nm_inv (snd (rename_same_dir s t sn tn d nm))" and "nm_inv (snd (rename_across s t sn tn sp tp nm))"
proof -
  have "wf_tree (set_path t c)" if "child_at nm d n = Some c" for d n c
    using that assms by (auto simp: child_at_def intro!: inv_intros dest: nm_invD wf_walk)
  then show "nm_inv (snd (rename_same_dir s t sn tn d nm))" "nm_inv (snd (rename_across s t sn tn sp tp nm))"
    using assms nm_inv_delete_child [OF assms]
    by (auto simp: rename_same_dir_def rename_across_def Let_def intro!: nm_inv_assign split: option.splits)
qed

section \<open>Refinement of the tree surgery\<close>

lemma view_None_iff: "view t ps = None \<longleftrightarrow> walk t ps = None"
  by (simp add: view_def)

lemma view_SomeD: "view t ps = Some a \<Longrightarrow> \<exists>x. walk t ps = Some x \<and> a = info x"
  by (auto simp: view_def)

lemma view_walk: "walk t d = Some x \<Longrightarrow> view t (d @ r) = view x r"
  by (simp add: view_def walk_append)

lemma view_at: "walk t d = Some x \<Longrightarrow> view t d = Some (info x)"
  by (simp add: view_def)

lemma info_simps [simp]: "a_isdir (info t) = IsDir t" "a_path (info t) = ns_Path t"
  "info (file_node p) = new_attrs p False" "info (dir_node p) = new_attrs p True"
  by (simp_all add: info_def new_attrs_def)

lemma view_leaf: "kids c = [] \<Longrightarrow> view c r = (if r = [] then Some (info c) else None)"
  by (cases r) (simp_all add: view_Cons child_def)

lemma view_set_path: "view (set_path q c) r =
    (if r = [] then Some ((info c)\<lparr>a_path := q\<rparr>) else view c r)"
  by (cases c; cases r) (simp_all add: view_Cons child_def kids_def info_def)

lemma child_has_parent:
  assumes "walk t (d @ [n]) = Some c"
  obtains x where "walk t d = Some x" and "childrenNodes x \<noteq> None" and "child x n = Some c"
  using assms by (cases "walk t d"; cases "childrenNodes (the (walk t d))") (auto simp: walk_snoc)

lemma add_node_refines:
  assumes "wf_tree (ns_root nm)" and "walk (ns_root nm) d = Some x" and "kids c = []"
  shows "abs_res (add_node b c d nm) = abs_add d b (info c) (view (ns_root nm))"
proof -
  have dir: "childrenNodes x = None \<longleftrightarrow> \<not> IsDir x"
    using wf_IsDir wf_walk [OF assms(1,2)] by blast
  have "view (update_at d (put_child b c) (ns_root nm)) = (view (ns_root nm))(d @ [b] \<mapsto> info c)"
    if "childrenNodes x \<noteq> None" "walk (ns_root nm) (d @ [b]) = None"
  proof
    fix ps
    have "view (ns_root nm) ps = None" if "prefix (d @ [b]) ps" "ps \<noteq> d @ [b]"
      using that \<open>walk (ns_root nm) (d @ [b]) = None\<close>
      by (auto simp: view_def walk_append prefix_def simp del: append_assoc)
    moreover have "drop (Suc (length d)) ps = [] \<longleftrightarrow> ps = d @ [b]" if "prefix (d @ [b]) ps"
      using that by (auto simp: prefix_def)
    ultimately show "view (update_at d (put_child b c) (ns_root nm)) ps =
        ((view (ns_root nm))(d @ [b] \<mapsto> info c)) ps"
      using view_put_at [OF assms(2) that(1), of b c ps] view_leaf [OF assms(3)] by auto
  qed
  then show ?thesis
    using dir by (auto simp: add_node_def abs_add_def child_at_def view_None_iff view_at [OF assms(2)]
        assign_child_eq [OF assms(2)])
qed

lemma sibling_not_prefix: "a \<noteq> b \<Longrightarrow> prefix (d @ [a]) ps \<Longrightarrow> \<not> prefix (d @ [b]) ps"
  by (auto simp: prefix_def)

lemma view_below:
  assumes "walk t src = Some node" and "prefix dst ps"
  shows "view node (drop (length dst) ps) = view t (src @ drop (length dst) ps)"
  by (simp add: view_walk [OF assms(1)])

lemma tombstone_neq: "tombstone b \<noteq> b"
  by (auto simp: tombstone_def DeletedNamespaceFilePrefix_def dest: arg_cong [where f = length])

lemma bury_node_refines:
  assumes "walk (ns_root nm) (d @ [b]) = Some node"
  shows "abs_res (bury_node p b node d nm) =
    (Return (), abs_move id (d @ [b]) (d @ [tombstone b]) (view (ns_root nm)))"
proof -
  obtain x where x: "walk (ns_root nm) d = Some x" "childrenNodes x \<noteq> None" "child x b = Some node"
    using child_has_parent [OF assms] .
  let ?t = "update_at d (put_child (tombstone b) node) (ns_root nm)"
  have w: "walk ?t d = Some (put_child (tombstone b) node x)"
    using walk_update_at_below [OF x(1), of "put_child (tombstone b) node" "[]"] by simp
  have "view (delete_at d b ?t) ps = abs_move id (d @ [b]) (d @ [tombstone b]) (view (ns_root nm)) ps" for ps
  proof -
    have len: "drop (Suc (length d)) ps = drop (length (d @ [tombstone b])) ps" by simp
    have np: "\<not> prefix (d @ [b]) (d @ [tombstone b])" using tombstone_neq [of b] by simp
    show ?thesis
      unfolding view_del_at [OF w] view_put_at [OF x(1,2)] len abs_move_def
      using np tombstone_neq [of b] sibling_not_prefix [of "tombstone b" b d ps]
        view_below [OF assms, of "d @ [tombstone b]" ps] view_at [OF assms]
      by (auto simp: option.map_id simp del: drop_append)
  qed
  then show ?thesis
    using x by (auto simp: bury_node_def assign_child_eq delete_child_def tombstone_def Let_def fun_eq_iff)
qed

text \<open>Taking a subtree out and binding it elsewhere under a new path.\<close>

lemma view_moved:
  assumes src: "walk t (sp @ [sn]) = Some node" and tp: "walk (delete_at sp sn t) tp = Some x"
    and dir: "childrenNodes x \<noteq> None" and fresh: "walk t (tp @ [tn]) = None"
  shows "view (update_at tp (put_child tn (set_path q node)) (delete_at sp sn t)) =
    abs_move (\<lambda>a. a\<lparr>a_path := q\<rparr>) (sp @ [sn]) (tp @ [tn]) (view t)"
proof
  fix ps
  let ?src = "sp @ [sn]" and ?dst = "tp @ [tn]"
  obtain y where y: "walk t sp = Some y" using child_has_parent [OF src] .
  have "view (delete_at sp sn t) tp \<noteq> None" using tp by (simp add: view_def)
  then have out: "\<not> prefix ?src tp" using view_del_at [OF y, of sn tp] by auto
  have "?src \<noteq> ?dst" using src fresh by auto
  then have np: "\<not> prefix ?src ?dst" using out by (simp add: prefix_snoc)
  have same: "drop (Suc (length tp)) ps = [] \<longleftrightarrow> ps = ?dst" if "prefix ?dst ps"
    using that by (auto simp: prefix_def)
  have len: "drop (Suc (length tp)) ps = drop (length ?dst) ps" by simp
  show "view (update_at tp (put_child tn (set_path q node)) (delete_at sp sn t)) ps =
      abs_move (\<lambda>a. a\<lparr>a_path := q\<rparr>) ?src ?dst (view t) ps"
    unfolding view_put_at [OF tp dir] view_set_path view_del_at [OF y] abs_move_def
    using np same view_below [OF src, of ?dst ps] view_at [OF src]
    by (auto simp: len simp del: drop_append length_append)
qed

lemma walk_delete_at_same:
  "walk t d = Some x \<Longrightarrow> walk (delete_at d n t) d = Some (del_child n x)"
  using walk_update_at_below [of t d x "del_child n" "[]"] by (simp add: delete_at_def)

lemma walk_delete_at_other:
  assumes "walk t sp = Some y" and "walk t d = Some x" and "wf_tree t" and "\<not> prefix (sp @ [n]) d"
  obtains x' where "walk (delete_at sp n t) d = Some x'" and "IsDir x' = IsDir x" and "wf_tree x'"
proof -
  have "view (delete_at sp n t) d = Some (info x)"
    using assms(4) by (simp add: view_del_at [OF assms(1)] view_at [OF assms(2)])
  then obtain x' where x': "walk (delete_at sp n t) d = Some x'" "info x' = info x"
    by (auto simp: view_def)
  moreover have "wf_tree x'"
    using wf_walk [OF _ x'(1)] assms(3) by (auto simp: delete_at_def intro!: inv_intros)
  moreover have "IsDir x' = IsDir x" using arg_cong [OF x'(2), of a_isdir] by simp
  ultimately show thesis using that by blast
qed

lemma rename_same_dir_refines:
  assumes "walk (ns_root nm) d = Some x"
  shows "abs_res (rename_same_dir s t sn tn d nm) =
    (let V = view (ns_root nm) in
     if V (d @ [sn]) = None then (Fail (NsErr SourceDoesNotExist s), V)
     else if V (d @ [tn]) \<noteq> None then (Fail (NsErr TargetAlreadyExists t), V)
     else (Return (), abs_move (\<lambda>a. a\<lparr>a_path := t\<rparr>) (d @ [sn]) (d @ [tn]) V))"
proof (cases "walk (ns_root nm) (d @ [sn])")
  case (Some node)
  have dir: "childrenNodes x \<noteq> None" using child_has_parent [OF Some] assms by auto
  have w: "walk (delete_at d sn (ns_root nm)) d = Some (del_child sn x)"
    using assms by (rule walk_delete_at_same)
  then have "assign_child d tn (set_path t node) (delete_child d sn nm) =
      (Return (), nm\<lparr>ns_root := update_at d (put_child tn (set_path t node)) (delete_at d sn (ns_root nm))\<rparr>)"
    using dir by (simp add: delete_child_def assign_child_eq [where d = "del_child sn x"])
  with Some dir view_moved [OF Some w] show ?thesis
    by (auto simp: rename_same_dir_def child_at_def view_None_iff Let_def)
qed (simp add: rename_same_dir_def child_at_def view_None_iff)

lemma rename_across_refines:
  assumes wf: "wf_tree (ns_root nm)" and sp: "walk (ns_root nm) sp = Some y" and tp: "walk (ns_root nm) tp = Some x"
  shows "abs_res (rename_across s t sn tn sp tp nm) =
    (let V = view (ns_root nm) in
     if V (tp @ [tn]) \<noteq> None then (Fail (NsErr TargetAlreadyExists t), V)
     else if V (sp @ [sn]) = None then (Fail (NsErr SourceDoesNotExist s), V)
     else if \<not> IsDir x then (Panic, (\<lambda>ps. if prefix (sp @ [sn]) ps then None else V ps))
     else (Return (), abs_move (\<lambda>a. a\<lparr>a_path := t\<rparr>) (sp @ [sn]) (tp @ [tn]) V))"
proof (cases "walk (ns_root nm) (sp @ [sn]) \<noteq> None \<and> walk (ns_root nm) (tp @ [tn]) = None")
  case True
  then obtain node where src: "walk (ns_root nm) (sp @ [sn]) = Some node" by auto
  let ?t = "delete_at sp sn (ns_root nm)"
  have del: "view ?t = (\<lambda>ps. if prefix (sp @ [sn]) ps then None else view (ns_root nm) ps)"
    by (rule ext) (rule view_del_at [OF sp])
  have dirx: "childrenNodes x = None \<longleftrightarrow> \<not> IsDir x"
    using wf_IsDir wf_walk [OF wf tp] by blast
  show ?thesis
  proof (cases "prefix (sp @ [sn]) tp")
    case inside: True
    then have w: "walk ?t tp = None" using view_None_iff [of ?t tp] by (simp add: del)
    have "abs_move f (sp @ [sn]) (tp @ [tn]) (view (ns_root nm)) = view ?t" for f
      using inside by (auto simp: abs_move_def del fun_eq_iff prefix_snoc)
    then show ?thesis
      using True src w dirx tp
      by (auto simp: rename_across_def child_at_def view_None_iff Let_def delete_child_def del split: option.splits)
  next
    case False
    then obtain x' where x': "walk ?t tp = Some x'" "IsDir x' = IsDir x" "wf_tree x'"
      using walk_delete_at_other [OF sp tp wf] by blast
    have dir: "childrenNodes x' = None \<longleftrightarrow> \<not> IsDir x" using wf_IsDir [OF x'(3)] x'(2) by simp
    have "assign_child tp tn (set_path t node) (delete_child sp sn nm) =
        (if IsDir x then (Return (), nm\<lparr>ns_root := update_at tp (put_child tn (set_path t node)) ?t\<rparr>)
         else (Panic, nm\<lparr>ns_root := ?t\<rparr>))"
      using x'(1) dir by (simp add: delete_child_def assign_child_eq [where d = x'])
    with True src x'(1) dir view_moved [OF src x'(1)] show ?thesis
      by (auto simp: rename_across_def child_at_def view_None_iff Let_def delete_child_def del)
  qed
qed (auto simp: rename_across_def child_at_def view_None_iff Let_def split: option.splits)

section \<open>Refinement of the operations\<close>

lemma abs_res_bind:
  assumes "abs_res m = m'" and "\<And>x nm. m = (Return x, nm) \<Longrightarrow> abs_res (f x nm) = f' x (view (ns_root nm))"
  shows "abs_res (bind_st m f) = bind_st m' f'"
  using assms by (cases m; cases "fst m") auto

lemma abs_res_wrap [simp]: "abs_res (wrap_error w m) = wrap_error w (abs_res m)"
  by (cases m; cases "fst m") (auto simp: wrap_error_def)

lemma Create_refines:
  assumes "nm_inv nm"
  shows "abs_res (Create p nm) = abs_create p (view (ns_root nm))"
proof -
  have "abs_res (add_node (Base p) (file_node p) d nm) =
      abs_add d (Base p) (new_attrs p False) (view (ns_root nm))" if "walk (ns_root nm) d = Some x" for d x
    using add_node_refines [OF nm_invD(1) [OF assms] that, of "file_node p"] by (simp add: kids_def)
  then show ?thesis
    by (auto simp: Create_eq [OF nm_invD(3) [OF assms]] abs_create_def in_parent_def view_None_iff
        split: option.splits)
qed

lemma MkDir_refines:
  assumes "nm_inv nm"
  shows "abs_res (MkDir p nm) = abs_mkdir p (view (ns_root nm))"
proof -
  have "abs_res (add_node (Base p) (dir_node p) d nm) =
      abs_add d (Base p) (new_attrs p True) (view (ns_root nm))" if "walk (ns_root nm) d = Some x" for d x
    using add_node_refines [OF nm_invD(1) [OF assms] that, of "dir_node p"] by (simp add: kids_def)
  then show ?thesis
    by (auto simp: MkDir_eq [OF nm_invD(3) [OF assms]] abs_mkdir_def in_parent_def view_None_iff
        split: option.splits)
qed

lemma Get_refines: "nm_inv nm \<Longrightarrow> abs_res (Get p nm) = abs_get p (view (ns_root nm))"
  by (auto simp: Get_eq nm_invD abs_get_def in_parent_def view_None_iff split: option.splits)

lemma Delete_refines: "nm_inv nm \<Longrightarrow> abs_res (Delete p nm) = abs_delete p (view (ns_root nm))"
  by (auto simp: Delete_eq nm_invD abs_delete_def in_parent_def view_None_iff bury_node_refines
      split: option.splits)

lemma RemoveDir_refines: "nm_inv nm \<Longrightarrow> abs_res (RemoveDir p nm) = abs_remove_dir p (view (ns_root nm))"
  by (auto simp: RemoveDir_eq nm_invD abs_remove_dir_def in_parent_def view_None_iff bury_node_refines
      view_at dest!: view_SomeD split: option.splits)

lemma view_set_size:
  assumes "walk t d = Some x" 
  shows "view (update_at d (set_size l k) t) = (view t)(d \<mapsto> (info x)\<lparr>a_length := l, a_chunks := k\<rparr>)"
proof
  fix ps
  have "view (set_size l k x) r = (if r = [] then Some ((info x)\<lparr>a_length := l, a_chunks := k\<rparr>) else view x r)" for r
    by (cases x; cases r) (simp_all add: view_Cons child_def kids_def info_def)
  moreover have "view t (d @ r) = view x r" for r by (rule view_walk [OF assms])
  ultimately show "view (update_at d (set_size l k) t) ps =
      ((view t)(d \<mapsto> (info x)\<lparr>a_length := l, a_chunks := k\<rparr>)) ps"
    by (auto simp: view_update_at [OF assms] prefix_def simp del: view_Nil)
qed

lemma UpdateFileMetadata_refines:
  "nm_inv nm \<Longrightarrow> abs_res (UpdateFileMetadata p l k nm) = abs_update p l k (view (ns_root nm))"
  by (auto simp: UpdateFileMetadata_eq nm_invD abs_update_def in_parent_def view_None_iff view_at
      view_set_size split: option.splits)

lemma mkdir_loop_refines:
  "nm_inv nm \<Longrightarrow> abs_res (mkdir_loop cur segs nm) = abs_mkdirs cur segs (view (ns_root nm))"
proof (induction cur segs nm rule: mkdir_loop.induct)
  case (2 cur seg segs nm)
  have "abs_res (bind_st (MkDir (Join [cur, seg]) nm) (\<lambda>_. mkdir_loop (Join [cur, seg]) segs)) =
      bind_st (abs_mkdir (Join [cur, seg]) (view (ns_root nm))) (\<lambda>_. abs_mkdirs (Join [cur, seg]) segs)"
    if "seg \<noteq> ''''"
  proof (rule abs_res_bind)
    show "abs_res (MkDir (Join [cur, seg]) nm) = abs_mkdir (Join [cur, seg]) (view (ns_root nm))"
      using 2 by (simp add: MkDir_refines)
    show "abs_res (mkdir_loop (Join [cur, seg]) segs nm') = abs_mkdirs (Join [cur, seg]) segs (view (ns_root nm'))"
      if "MkDir (Join [cur, seg]) nm = (Return x, nm')" for x nm'
      using 2 \<open>seg \<noteq> ''''\<close> that nm_inv_MkDir [OF "2.prems", of "Join [cur, seg]"] by auto
  qed
  with 2 show ?case by (simp add: Let_def)
qed simp

lemma MkDirAll_refines:
  "nm_inv nm \<Longrightarrow> abs_res (MkDirAll p nm) = abs_mkdir_all p (view (ns_root nm))"
  by (auto simp: MkDirAll_def abs_mkdir_all_def RetrievePartitionFromPath_def mkdir_loop_refines Let_def)

lemma Dir_neq_Nil [simp]: "Dir p \<noteq> []"
  by (auto simp: Dir_def Clean_def Let_def)

text \<open>The last phase of \<^verbatim>\<open>Rename\<close>, after the target's directory has been made.\<close>

definition rename_phase :: "path \<Rightarrow> path \<Rightarrow> namespace_manager \<Rightarrow> unit nm_result" where
  "rename_phase s t nm =
     (if Dir s = Dir t
      then with_parent (Dir s) True (rename_same_dir s t (Base s) (Base t)) nm
      else if Dir s < Dir t
      then with_parent (Dir s) True (\<lambda>a. with_parent (Dir t) True (rename_across s t (Base s) (Base t) a)) nm
      else with_parent (Dir t) True (\<lambda>b. with_parent (Dir s) True (\<lambda>a. rename_across s t (Base s) (Base t) a b)) nm)"

lemma lock_free_rename_across': "lock_free (\<lambda>a. rename_across s t sn tn a b)"
  using lock_free_rename_across unfolding lock_free_def by metis

lemma rename_phase_refines:
  assumes "nm_inv nm"
  shows "abs_res (rename_phase s t nm) = abs_rename_node s t (view (ns_root nm))"
proof -
  note locks = nm_invD(3) [OF assms] and wf = nm_invD(1) [OF assms]
  consider "Dir s = Dir t" | "Dir s < Dir t" | "Dir t < Dir s" by (rule linorder_cases)
  then show ?thesis
  proof cases
    case 1
    have "rename_phase s t nm = (case walk (ns_root nm) (path_parts (Dir t)) of
        None \<Rightarrow> (Fail (NsErr PathNotFound (Dir t)), nm)
      | Some _ \<Rightarrow> rename_same_dir s t (Base s) (Base t) (path_parts (Dir t)) nm)"
      using 1 locks by (simp add: rename_phase_def) (subst with_parent_pure; simp add: lock_free_rename_same_dir)
    moreover have "IsDir x" if "walk (ns_root nm) (path_parts (Dir t)) = Some x"
        "walk (ns_root nm) (path_parts (Dir t) @ [Base s]) \<noteq> None" for x
      using that wf_IsDir [OF wf_walk [OF wf that(1)]]
      by (cases "childrenNodes x") (auto simp: walk_snoc)
    ultimately show ?thesis
      using 1 by (auto simp: abs_rename_node_def view_None_iff rename_same_dir_refines Let_def view_at split: option.splits)
  next
    case 2
    then have mm: "min (Dir s) (Dir t) = Dir s" "max (Dir s) (Dir t) = Dir t" by auto
    show ?thesis
      using 2 two_parents_eq [OF locks, of "Dir s" "Dir t" "rename_across s t (Base s) (Base t)"]
      by (auto simp: rename_phase_def lock_free_rename_across abs_rename_node_def mm view_None_iff
          rename_across_refines [OF wf] Let_def view_at dest!: view_SomeD split: option.splits)
  next
    case 3
    then have mm: "min (Dir s) (Dir t) = Dir t" "max (Dir s) (Dir t) = Dir s" by auto
    show ?thesis
      using 3 two_parents_eq [OF locks, of "Dir t" "Dir s" "\<lambda>b a. rename_across s t (Base s) (Base t) a b"]
      by (auto simp: rename_phase_def lock_free_rename_across' abs_rename_node_def mm view_None_iff
          rename_across_refines [OF wf] Let_def view_at dest!: view_SomeD split: option.splits)
  qed
qed

lemma Rename_phases:
  "Rename s t nm =
     (if s = t then (Return (), nm)
      else let errs = option_list (ValidateFilename (Base s) s) @ option_list (ValidateFilename (Base t) t) in
        if errs \<noteq> [] then (Fail (InvalidPath errs), nm)
        else bind_st (wrap_error SourceNotLocated (Get s nm)) (\<lambda>_ nm.
             bind_st (wrap_error TargetDirNotCreated (MkDirAll (Dir t) nm)) (\<lambda>_. rename_phase s t)))"
  unfolding Rename_def rename_phase_def [abs_def] RetrievePartitionFromPath_def by (simp add: Let_def)

lemma wrap_error_Return: "wrap_error w m = (Return x, nm) \<longleftrightarrow> m = (Return x, nm)"
  by (cases m; cases "fst m") (auto simp: wrap_error_def)

lemma Rename_refines:
  assumes "nm_inv nm"
  shows "abs_res (Rename s t nm) = abs_rename s t (view (ns_root nm))"
proof -
  have "abs_res (bind_st (wrap_error SourceNotLocated (Get s nm)) (\<lambda>_ nm.
          bind_st (wrap_error TargetDirNotCreated (MkDirAll (Dir t) nm)) (\<lambda>_. rename_phase s t))) =
      bind_st (wrap_error SourceNotLocated (abs_get s (view (ns_root nm)))) (\<lambda>_ V.
          bind_st (wrap_error TargetDirNotCreated (abs_mkdir_all (Dir t) V)) (\<lambda>_. abs_rename_node s t))"
  proof (rule abs_res_bind, goal_cases)
    case (2 x nm')
    then have "nm' = nm" using nm_inv_Get [OF assms, of s] by (simp add: wrap_error_Return)
    then have inv: "nm_inv nm'" using assms by simp
    show ?case
    proof (rule abs_res_bind, goal_cases)
      case (2 x nm'')
      then have "nm_inv nm''" using nm_inv_MkDirAll [OF inv, of "Dir t"] by (simp add: wrap_error_Return)
      then show ?case by (rule rename_phase_refines)
    qed (simp add: MkDirAll_refines [OF inv])
  qed (simp add: Get_refines [OF assms])
  then show ?thesis by (simp add: Rename_phases abs_rename_def Let_def)
qed

lemma nm_inv_rename_phase:
  assumes "nm_inv nm" and "fst (rename_phase s t nm) \<noteq> Deadlock"
  shows "nm_inv (snd (rename_phase s t nm))"
proof -
  note locks = nm_invD(3) [OF assms(1)] and bodies = nm_inv_rename_bodies [OF assms(1)]
  consider "Dir s = Dir t" | "Dir s < Dir t" | "Dir s \<noteq> Dir t \<and> \<not> Dir s < Dir t" by auto
  then show ?thesis
  proof cases
    case 1
    then show ?thesis
      using assms(1) locks bodies with_parent_pure [OF _ lock_free_rename_same_dir, of "Dir s" True nm]
      by (auto simp: rename_phase_def split: option.splits)
  next
    case 2
    then show ?thesis
      using assms bodies two_parents_eq [OF locks, of "Dir s" "Dir t" "rename_across s t (Base s) (Base t)"]
      by (auto simp: rename_phase_def lock_free_rename_across split: option.splits if_splits)
  next
    case 3
    then show ?thesis
      using assms bodies two_parents_eq [OF locks, of "Dir t" "Dir s" "\<lambda>b a. rename_across s t (Base s) (Base t) a b"]
      by (auto simp: rename_phase_def lock_free_rename_across' split: option.splits if_splits)
  qed
qed

lemma bind_st_inv:
  assumes "fst (bind_st m f) \<noteq> Deadlock" and "fst m \<noteq> Deadlock \<Longrightarrow> P (snd m)"
    and "\<And>x s. m = (Return x, s) \<Longrightarrow> P s \<Longrightarrow> fst (f x s) \<noteq> Deadlock \<Longrightarrow> P (snd (f x s))"
  shows "P (snd (bind_st m f))"
  using assms by (cases m; cases "fst m") auto

lemma wrap_error_state [simp]: "snd (wrap_error w m) = snd m" "fst (wrap_error w m) = Deadlock \<longleftrightarrow> fst m = Deadlock"
  by (cases m; cases "fst m"; simp add: wrap_error_def)+

lemma nm_inv_Rename:
  assumes "nm_inv nm" and "fst (Rename s t nm) \<noteq> Deadlock"
  shows "nm_inv (snd (Rename s t nm))"
proof -
  define k where "k = (\<lambda>nm. bind_st (wrap_error TargetDirNotCreated (MkDirAll (Dir t) nm)) (\<lambda>_. rename_phase s t))"
  have k: "nm_inv (snd (k nm'))" if "nm_inv nm'" "fst (k nm') \<noteq> Deadlock" for nm'
    using that(2) unfolding k_def
  proof (rule bind_st_inv [where P = nm_inv])
    show "nm_inv (snd (wrap_error TargetDirNotCreated (MkDirAll (Dir t) nm')))"
      using that(1) by (simp add: nm_inv_MkDirAll)
  qed (rule nm_inv_rename_phase)
  have all: "Rename s t nm = (if s = t then (Return (), nm)
      else let errs = option_list (ValidateFilename (Base s) s) @ option_list (ValidateFilename (Base t) t) in
        if errs \<noteq> [] then (Fail (InvalidPath errs), nm)
        else bind_st (wrap_error SourceNotLocated (Get s nm)) (\<lambda>_. k))"
    unfolding Rename_phases k_def ..
  have "nm_inv (snd (bind_st (wrap_error SourceNotLocated (Get s nm)) (\<lambda>_. k)))"
    if "fst (bind_st (wrap_error SourceNotLocated (Get s nm)) (\<lambda>_. k)) \<noteq> Deadlock"
    using that
  proof (rule bind_st_inv [where P = nm_inv])
    show "nm_inv (snd (wrap_error SourceNotLocated (Get s nm)))"
      using assms(1) by (simp add: nm_inv_Get)
  qed (rule k)
  then show ?thesis
    using assms unfolding all Let_def by (auto simp del: append_is_Nil_conv split: if_splits)
qed

section \<open>Steps and reachable states\<close>

datatype ns_op =
    OpCreate path
  | OpDelete path
  | OpMkDir path
  | OpMkDirAll path
  | OpRename path path
  | OpUpdate path int int
  | OpRemoveDir path

fun exec_op :: "ns_op \<Rightarrow> namespace_manager \<Rightarrow> unit nm_result" where
  "exec_op (OpCreate p) = Create p"
| "exec_op (OpDelete p) = Delete p"
| "exec_op (OpMkDir p) = MkDir p"
| "exec_op (OpMkDirAll p) = MkDirAll p"
| "exec_op (OpRename s t) = Rename s t"
| "exec_op (OpUpdate p l k) = UpdateFileMetadata p l k"
| "exec_op (OpRemoveDir p) = RemoveDir p"

fun spec_op :: "ns_op \<Rightarrow> abs_ns \<Rightarrow> unit outcome \<times> abs_ns" where
  "spec_op (OpCreate p) = abs_create p"
| "spec_op (OpDelete p) = abs_delete p"
| "spec_op (OpMkDir p) = abs_mkdir p"
| "spec_op (OpMkDirAll p) = abs_mkdir_all p"
| "spec_op (OpRename s t) = abs_rename s t"
| "spec_op (OpUpdate p l k) = abs_update p l k"
| "spec_op (OpRemoveDir p) = abs_remove_dir p"

text \<open>An operation that panics ends the process and one that blocks never hands the state on.\<close>

inductive ns_step :: "namespace_manager \<Rightarrow> namespace_manager \<Rightarrow> bool" where
  ns_op: "exec_op op nm = (r, nm') \<Longrightarrow> r \<noteq> Panic \<Longrightarrow> r \<noteq> Deadlock \<Longrightarrow> ns_step nm nm'"
| ns_receive: "cleanup_receive nm = (Return (), nm') \<Longrightarrow> ns_step nm nm'"
| ns_tick: "ns_step nm (cleanup_tick nm)"

definition ns_reachable :: "namespace_manager \<Rightarrow> bool" where
  "ns_reachable nm \<longleftrightarrow> ns_step\<^sup>*\<^sup>* NewNameSpaceManager nm"

lemma nm_inv_op: "nm_inv nm \<Longrightarrow> fst (exec_op op nm) \<noteq> Deadlock \<Longrightarrow> nm_inv (snd (exec_op op nm))"
  by (cases op) (simp_all add: nm_inv_Create nm_inv_Delete nm_inv_MkDir nm_inv_MkDirAll nm_inv_Rename
      nm_inv_UpdateFileMetadata nm_inv_RemoveDir)

lemma op_refines: "nm_inv nm \<Longrightarrow> abs_res (exec_op op nm) = spec_op op (view (ns_root nm))"
  by (cases op) (simp_all add: Create_refines Delete_refines MkDir_refines MkDirAll_refines Rename_refines
      UpdateFileMetadata_refines RemoveDir_refines)

lemma cleanup_receive_eq:
  assumes "ns_locks nm = no_locks"
  shows "cleanup_receive nm = (Return (), case cleanupChan nm of
      [] \<Rightarrow> nm
    | p # rest \<Rightarrow> (case walk (ns_root nm) (parent_parts p) of
        None \<Rightarrow> nm\<lparr>cleanupChan := rest\<rparr>
      | Some _ \<Rightarrow> (delete_child (parent_parts p) (tombstone (Base p)) nm)
          \<lparr>cleanupChan := rest, deleteCache := removeAll p (deleteCache nm)\<rparr>))"
proof -
  have "lock_free (\<lambda>cwd nm. (Return (), delete_child cwd n nm))" for n
    by (rule lock_freeI) auto
  from with_parent_pure [OF _ this, of "Dir p" True "nm\<lparr>cleanupChan := rest\<rparr>" for p rest] assms
  show ?thesis
    by (auto simp: cleanup_receive_def RetrievePartitionFromPath_def tombstone_def delete_child_def
        split: list.splits option.splits)
qed

lemma nm_inv_receive: "nm_inv nm \<Longrightarrow> nm_inv (snd (cleanup_receive nm))"
  using nm_inv_delete_child [of nm]
  by (auto simp: cleanup_receive_eq nm_inv_def delete_child_def distinct_removeAll
      split: list.splits option.splits)

lemma tick_bound:
  "length ch \<le> 100 \<Longrightarrow> length (fold (\<lambda>p ch. if length ch < 100 then ch @ [p] else ch) ps ch) \<le> 100"
  by (induction ps arbitrary: ch) auto

lemma nm_inv_tick: "nm_inv nm \<Longrightarrow> nm_inv (cleanup_tick nm)"
  by (simp add: nm_inv_def cleanup_tick_def tick_bound)

lemma nm_inv_step: "ns_step nm nm' \<Longrightarrow> nm_inv nm \<Longrightarrow> nm_inv nm'"
proof (induction rule: ns_step.induct)
  case (ns_op op nm r nm')
  then show ?case using nm_inv_op [of nm op] by simp
next
  case (ns_receive nm nm')
  then show ?case using nm_inv_receive [of nm] by simp
qed (rule nm_inv_tick)

lemma nm_inv_reachable: "ns_reachable nm \<Longrightarrow> nm_inv nm"
  unfolding ns_reachable_def
proof (induction rule: rtranclp_induct)
  case base
  show ?case by (simp add: nm_inv_def NewNameSpaceManager_def)
qed (rule nm_inv_step)

end
