(* ===== verification/Ns_Properties.thy ===== *)
theory Ns_Properties
  imports Ns_Refinement
begin

text \<open>
  The namespace as its clients see it. The locale states what the master server relies on: the
  operations act as the abstract ones and keep the invariant; the client lemmas are proved
  there once, and the interpretation discharges the laws for the namespace manager.
\<close>

section \<open>The interface\<close>

locale namespace_store =
  fixes inv :: "'s \<Rightarrow> bool"
    and ns_of :: "'s \<Rightarrow> abs_ns"
    and create :: "path \<Rightarrow> 's \<Rightarrow> unit outcome \<times> 's"
    and remove :: "path \<Rightarrow> 's \<Rightarrow> unit outcome \<times> 's"
    and lookup :: "path \<Rightarrow> 's \<Rightarrow> string list outcome \<times> 's"
  assumes create_law: "inv s \<Longrightarrow> create p s = (r, s') \<Longrightarrow> inv s' \<and> (r, ns_of s') = abs_create p (ns_of s)"
    and remove_law: "inv s \<Longrightarrow> remove p s = (r, s') \<Longrightarrow> inv s' \<and> (r, ns_of s') = abs_delete p (ns_of s)"
    and lookup_law: "inv s \<Longrightarrow> fst (lookup p s) = fst (abs_get p (ns_of s)) \<and> snd (lookup p s) = s"
begin

lemma lookup_Return_iff:
  "inv s \<Longrightarrow> lookup p s = (Return a, s) \<longleftrightarrow>
     a = full_parts p \<and> ns_of s (parent_parts p) \<noteq> None \<and> ns_of s (full_parts p) \<noteq> None"
  using lookup_law [of s p] by (cases "lookup p s") (auto simp: abs_get_def in_parent_def)

lemma lookup_after_create:
  assumes "inv s" and "create p s = (Return (), s')"
  shows "lookup p s' = (Return (full_parts p), s')"
  using create_law [OF assms] lookup_Return_iff [of s' p "full_parts p"]
  by (auto simp: abs_create_def in_parent_def abs_add_def fail_if_def fun_upd_def split: option.splits if_splits)

text \<open>Creating touches one address, and only when it was unbound.\<close>

lemma create_frame:
  assumes "inv s" and "create p s = (Return (), s')" and "q \<noteq> full_parts p \<or> ns_of s q \<noteq> None"
  shows "ns_of s' q = ns_of s q"
  using create_law [OF assms(1,2)] assms(3)
  by (auto simp: abs_create_def in_parent_def abs_add_def fail_if_def split: option.splits if_splits)

lemma create_twice:
  assumes "inv s" and "create p s = (Return (), s')"
  shows "fst (create p s') = Return () \<and> ns_of (snd (create p s')) = ns_of s'"
proof -
  obtain r s'' where c: "create p s' = (r, s'')" by (cases "create p s'")
  have l1: "inv s'" "(Return (), ns_of s') = abs_create p (ns_of s)" using create_law [OF assms] by auto
  have l2: "(r, ns_of s'') = abs_create p (ns_of s')" using create_law [OF l1(1) c] by simp
  have "ns_of s' (full_parts p) \<noteq> None" "ns_of s' (parent_parts p) \<noteq> None"
    using lookup_after_create [OF assms] lookup_Return_iff [OF l1(1), of p] by auto
  moreover have "ValidateFilename (Base p) p = None"
    using l1(2) by (auto simp: abs_create_def fail_if_def split: option.splits)
  ultimately show ?thesis
    using l2 c by (auto simp: abs_create_def in_parent_def abs_add_def)
qed

lemma lookup_after_remove:
  assumes "inv s" and "remove p s = (Return (), s')"
  shows "lookup p s' = (Fail (NodeDoesNotExist (Dir p) (Base p)), s')"
    and "ns_of s' (parent_parts p @ tombstone (Base p) # r) = ns_of s (full_parts p @ r)"
    and "\<not> prefix (full_parts p) q \<Longrightarrow> \<not> prefix (parent_parts p @ [tombstone (Base p)]) q \<Longrightarrow>
      ns_of s' q = ns_of s q"
proof -
  have law: "inv s'" "(Return (), ns_of s') = abs_delete p (ns_of s)" using remove_law [OF assms] by auto
  then have V: "ns_of s' = abs_move id (full_parts p) (parent_parts p @ [tombstone (Base p)]) (ns_of s)"
    and par: "ns_of s (parent_parts p) \<noteq> None"
    by (auto simp: abs_delete_def in_parent_def fail_if_def split: option.splits if_splits)
  have np: "\<not> prefix (full_parts p) (parent_parts p @ [tombstone (Base p)])"
    using tombstone_neq [of "Base p"] by simp
  have "ns_of s' (full_parts p) = None" "ns_of s' (parent_parts p) \<noteq> None"
    using par tombstone_neq [of "Base p"] by (auto simp: V abs_move_def dest: prefix_length_le)
  then show "lookup p s' = (Fail (NodeDoesNotExist (Dir p) (Base p)), s')"
    using lookup_law [OF law(1), of p] by (cases "lookup p s'") (auto simp: abs_get_def in_parent_def)
  have "ns_of s' ((parent_parts p @ [tombstone (Base p)]) @ r) = ns_of s (full_parts p @ r)"
    unfolding V abs_move_def using np by (cases r) (auto simp: option.map_id)
  then show "ns_of s' (parent_parts p @ tombstone (Base p) # r) = ns_of s (full_parts p @ r)" by simp
  show "ns_of s' q = ns_of s q"
    if "\<not> prefix (full_parts p) q" "\<not> prefix (parent_parts p @ [tombstone (Base p)]) q"
    using that by (simp add: V abs_move_def)
qed

end

interpretation nsm: namespace_store nm_inv "\<lambda>nm. view (ns_root nm)" Create Delete Get
proof unfold_locales
  fix p nm and r :: "unit outcome" and nm'
  assume "nm_inv nm" and "Create p nm = (r, nm')"
  then show "nm_inv nm' \<and> (r, view (ns_root nm')) = abs_create p (view (ns_root nm))"
    using nm_inv_Create [of nm p] Create_refines [of nm p] by simp
next
  fix p nm and r :: "unit outcome" and nm'
  assume "nm_inv nm" and "Delete p nm = (r, nm')"
  then show "nm_inv nm' \<and> (r, view (ns_root nm')) = abs_delete p (view (ns_root nm))"
    using nm_inv_Delete [of nm p] Delete_refines [of nm p] by simp
next
  fix p nm
  assume inv: "nm_inv nm"
  show "fst (Get p nm) = fst (abs_get p (view (ns_root nm))) \<and> snd (Get p nm) = nm"
    using nm_inv_Get [OF inv, of p] arg_cong [OF Get_refines [OF inv, of p], of fst]
    by (simp add: abs_res_def)
qed

section \<open>Making directories\<close>

lemma abs_mkdir_canonical:
  assumes "\<And>s. s \<in> set cur \<Longrightarrow> valid_comp s" and "valid_comp seg"
  shows "abs_mkdir (abs_path (cur @ [seg])) V =
    (if V cur = None then (Fail (NsErr PathNotFound (abs_path cur)), V)
     else abs_add cur seg (new_attrs (abs_path (cur @ [seg])) True) V)"
  using assms by (simp add: abs_mkdir_def in_parent_def go_path)

lemma next_prefix:
  "strict_prefix cur q \<and> prefix q (cur @ seg # segs) \<longleftrightarrow>
     q = cur @ [seg] \<or> strict_prefix (cur @ [seg]) q \<and> prefix q ((cur @ [seg]) @ segs)"
proof
  assume "strict_prefix cur q \<and> prefix q (cur @ seg # segs)"
  then obtain r where "q = cur @ r" "r \<noteq> []" "prefix r (seg # segs)"
    unfolding strict_prefix_def by (metis append_Nil2 prefixE same_prefix_prefix)
  then show "q = cur @ [seg] \<or> strict_prefix (cur @ [seg]) q \<and> prefix q ((cur @ [seg]) @ segs)"
    by (cases r) (auto simp: strict_prefix_def prefix_def)
qed (auto simp: strict_prefix_def prefix_def)

text \<open>Directories are made along the path, each unless its address is bound already.\<close>

lemma abs_mkdirs_canonical:
  assumes "\<And>s. s \<in> set (cur @ segs) \<Longrightarrow> valid_comp s" and "V cur \<noteq> None"
    and "\<And>q a. strict_prefix q (cur @ segs) \<Longrightarrow> V q = Some a \<Longrightarrow> a_isdir a"
  shows "abs_mkdirs (abs_path cur) segs V = (Return (), \<lambda>q.
    if strict_prefix cur q \<and> prefix q (cur @ segs) \<and> V q = None
    then Some (new_attrs (abs_path q) True) else V q)"
  using assms
proof (induction segs arbitrary: cur V)
  case Nil
  then show ?case by (auto simp: strict_prefix_def fun_eq_iff dest: prefix_order.antisym)
next
  case (Cons seg segs)
  let ?cur = "cur @ [seg]"
  have v: "valid_comp seg" "\<And>s. s \<in> set cur \<Longrightarrow> valid_comp s" using Cons.prems(1) by auto
  have dir: "a_isdir a" if "V cur = Some a" for a
    using Cons.prems(3) [OF _ that] by (simp add: strict_prefix_def)
  define V' where "V' = (if V ?cur \<noteq> None then V else V(?cur \<mapsto> new_attrs (abs_path ?cur) True))"
  have step: "abs_mkdir (abs_path ?cur) V = (Return (), V')"
    using Cons.prems(2) dir
    by (auto simp: abs_mkdir_canonical [OF v(2) v(1)] abs_add_def V'_def split: option.splits)
  have d: "a_isdir a" if "strict_prefix q (?cur @ segs)" "V' q = Some a" for q a
    using that Cons.prems(3) [of q a] by (auto simp: V'_def new_attrs_def split: if_splits)
  have bound: "V' ?cur \<noteq> None" by (simp add: V'_def)
  have "abs_mkdirs (abs_path cur) (seg # segs) V = abs_mkdirs (abs_path ?cur) segs V'"
    using v step by (simp add: Join_abs_path valid_compD(1))
  also have "\<dots> = (Return (), \<lambda>q. if strict_prefix ?cur q \<and> prefix q (?cur @ segs) \<and> V' q = None
      then Some (new_attrs (abs_path q) True) else V' q)"
    using Cons.IH [of ?cur V'] Cons.prems(1) bound d by simp
  also have "\<dots> = (Return (), \<lambda>q. if strict_prefix cur q \<and> prefix q (cur @ seg # segs) \<and> V q = None
      then Some (new_attrs (abs_path q) True) else V q)"
    by (rule arg_cong [where f = "Pair (Return ())"], rule ext, subst conj_assoc [symmetric], subst conj_assoc [symmetric])
      (auto simp: V'_def next_prefix)
  finally show ?case .
qed

lemma Ext_no_dot: "CHR ''.'' \<notin> set b \<Longrightarrow> Ext b = []"
  by (auto simp: Ext_def Let_def dest: set_takeWhileD)

lemma abs_path_root: "abs_path [] = ''/''"
  by (simp add: abs_path_def)

lemma abs_path_neq_Nil [simp]: "abs_path ps \<noteq> []"
  by (simp add: abs_path_def)

lemma abs_path_neq: "ps \<noteq> [] \<Longrightarrow> (\<And>s. s \<in> set ps \<Longrightarrow> valid_comp s) \<Longrightarrow> abs_path ps \<noteq> ''/'' \<and> abs_path ps \<noteq> []"
  using join_with_eq_Nil [of ps "[sep]"] by (auto simp: abs_path_def valid_comp_def)

lemma mkdirs_of_abs_path:
  assumes "\<And>s. s \<in> set ps \<Longrightarrow> valid_comp s"
  shows "abs_mkdirs ''/'' (split_on sep (abs_path ps)) V = abs_mkdirs (abs_path []) ps V"
  using split_on_abs_path [of ps] assms by (simp add: abs_path_root)

lemma abs_mkdir_all_canonical:
  assumes "\<And>s. s \<in> set (ps @ [b]) \<Longrightarrow> valid_comp s"
  shows "abs_mkdir_all (abs_path (ps @ [b])) V =
    abs_mkdirs (abs_path []) (if Ext b = '''' then ps @ [b] else ps) V"
  using assms abs_path_neq [of "ps @ [b]"] mkdirs_of_abs_path [of ps] mkdirs_of_abs_path [of "ps @ [b]"]
  by (simp add: abs_mkdir_all_def go_path)

lemma view_prefix_closed: "view t ps \<noteq> None \<Longrightarrow> prefix q ps \<Longrightarrow> view t q \<noteq> None"
  by (auto simp: view_def prefix_def walk_append split: bind_splits)

text \<open>Making a directory that exists changes nothing, whatever its name looks like.\<close>

lemma abs_mkdirs_existing:
  assumes "\<And>s. s \<in> set (cur @ segs) \<Longrightarrow> valid_comp s" and "\<And>q. prefix q (cur @ segs) \<Longrightarrow> V q \<noteq> None"
  shows "abs_mkdirs (abs_path cur) segs V = (Return (), V)"
  using assms
proof (induction segs arbitrary: cur)
  case (Cons seg segs)
  have "abs_mkdir (abs_path (cur @ [seg])) V = (Return (), V)"
    using Cons.prems(1) Cons.prems(2) [of cur] Cons.prems(2) [of "cur @ [seg]"]
    by (subst abs_mkdir_canonical) (auto simp: abs_add_def)
  with Cons.IH [of "cur @ [seg]"] Cons.prems show ?case by (simp add: Join_abs_path valid_compD(1))
qed simp

lemma abs_mkdir_all_existing:
  assumes "\<And>s. s \<in> set ps \<Longrightarrow> valid_comp s" and "\<And>q. prefix q ps \<Longrightarrow> V q \<noteq> None"
  shows "abs_mkdir_all (abs_path ps) V = (Return (), V)"
proof (cases ps rule: rev_cases)
  case Nil
  then show ?thesis by (simp add: abs_mkdir_all_def abs_path_root)
next
  case (snoc qs b)
  with assms abs_mkdirs_existing [of "[]" qs V] abs_mkdirs_existing [of "[]" ps V] show ?thesis
    using abs_mkdir_all_canonical [of qs b V] by auto
qed

lemma valid_name: "ValidateFilename b p = None \<Longrightarrow> valid_comp b"
  by (auto simp: ValidateFilename_def valid_comp_def split: if_splits)

lemma string_less_append: "ys \<noteq> [] \<Longrightarrow> (xs :: string) < xs @ ys"
  by (induction xs) (auto simp: neq_Nil_conv)

lemma abs_path_less:
  assumes "prefix ds es" and "ds \<noteq> es" and "\<And>s. s \<in> set es \<Longrightarrow> valid_comp s"
  shows "abs_path ds < abs_path es"
proof -
  obtain r where es: "es = ds @ r" and "r \<noteq> []" using assms(1,2) by (auto simp: prefix_def)
  then have r: "join_with [sep] r \<noteq> []" using join_with_eq_Nil [of r "[sep]"] assms(3) by (auto simp: valid_comp_def)
  have join: "join_with [sep] (a @ b) = join_with [sep] a @ [sep] @ join_with [sep] b"
    if "a \<noteq> []" "b \<noteq> []" for a b :: "string list"
    using that by (induction a rule: induct_list012) (auto simp: join_with_Cons)
  show ?thesis
  proof (cases "ds = []")
    case True
    then show ?thesis using string_less_append [OF r, of "[sep]"] by (simp add: es abs_path_def)
  next
    case False
    then have "abs_path es = abs_path ds @ sep # join_with [sep] r"
      using \<open>r \<noteq> []\<close> by (simp add: es abs_path_def join)
    then show ?thesis by (simp add: string_less_append)
  qed
qed

lemma abs_rename_existing:
  assumes va: "\<And>s. s \<in> set sd \<Longrightarrow> valid_comp s" and vb: "\<And>s. s \<in> set td \<Longrightarrow> valid_comp s"
    and "ValidateFilename a (abs_path (sd @ [a])) = None" and "ValidateFilename b (abs_path (td @ [b])) = None"
    and "V = view t" and "V (sd @ [a]) \<noteq> None" and "V td \<noteq> None" and "sd @ [a] \<noteq> td @ [b]"
  shows "abs_rename (abs_path (sd @ [a])) (abs_path (td @ [b])) V =
    abs_rename_node (abs_path (sd @ [a])) (abs_path (td @ [b])) V"
proof -
  have ab: "valid_comp a" "valid_comp b" using assms(3,4) valid_name by auto
  have "path_parts (abs_path (sd @ [a])) = sd @ [a]" "path_parts (abs_path (td @ [b])) = td @ [b]"
    using va vb ab by (auto intro!: path_parts_abs_path)
  then have "abs_path (sd @ [a]) \<noteq> abs_path (td @ [b])" using assms(8) by metis
  moreover have "V sd \<noteq> None" using view_prefix_closed [of t "sd @ [a]" sd] assms(5,6) by simp
  moreover have "abs_mkdir_all (abs_path td) V = (Return (), V)"
    using vb assms(5,7) view_prefix_closed by (intro abs_mkdir_all_existing) blast+
  moreover have "Dir (abs_path (sd @ [a])) = abs_path sd" "Dir (abs_path (td @ [b])) = abs_path td"
    "Base (abs_path (sd @ [a])) = a" "Base (abs_path (td @ [b])) = b" "path_parts (abs_path sd) = sd"
    using va vb ab by (simp_all add: go_path)
  ultimately show ?thesis
    using assms(3,4,6)
    by (auto simp: abs_rename_def abs_get_def in_parent_def option_list_def wrap_error_def)
qed

lemma abs_rename_node_existing:
  assumes va: "\<And>s. s \<in> set sd \<Longrightarrow> valid_comp s" and vb: "\<And>s. s \<in> set td \<Longrightarrow> valid_comp s"
    and ab: "valid_comp a" "valid_comp b"
    and "V (sd @ [a]) \<noteq> None" and "V sd \<noteq> None" and td: "V td = Some x" "a_isdir x" and "V (td @ [b]) = None"
  shows "abs_rename_node (abs_path (sd @ [a])) (abs_path (td @ [b])) V =
    (if sd \<noteq> td \<and> (prefix sd td \<or> prefix td sd) then (Deadlock, V)
     else (Return (), abs_move (\<lambda>x. x\<lparr>a_path := abs_path (td @ [b])\<rparr>) (sd @ [a]) (td @ [b]) V))"
proof -
  let ?s = "abs_path sd" and ?t = "abs_path td"
  have dirs: "Dir (abs_path (sd @ [a])) = ?s" "Dir (abs_path (td @ [b])) = ?t"
    "Base (abs_path (sd @ [a])) = a" "Base (abs_path (td @ [b])) = b"
    "path_parts ?s = sd" "path_parts ?t = td"
    using va vb ab by (simp_all add: go_path)
  have eq: "?s = ?t \<longleftrightarrow> sd = td" using dirs by metis
  have le: "sd \<noteq> td \<Longrightarrow> prefix sd td \<Longrightarrow> ?s < ?t" "sd \<noteq> td \<Longrightarrow> prefix td sd \<Longrightarrow> ?t < ?s"
    using abs_path_less va vb by metis+
  consider "sd = td" | "?s < ?t" | "?t < ?s" using eq by (cases ?s ?t rule: linorder_cases) auto
  then show ?thesis
  proof cases
    case 2
    then have ne: "sd \<noteq> td" by auto
    then have "min ?s ?t = ?s" "max ?s ?t = ?t" "\<not> prefix td sd" using 2 le(2) by (auto dest: order.asym)
    with ne eq show ?thesis using assms by (auto simp: abs_rename_node_def dirs Let_def)
  next
    case 3
    then have ne: "sd \<noteq> td" by auto
    then have "min ?s ?t = ?t" "max ?s ?t = ?s" "\<not> prefix sd td" using 3 le(1) by (auto dest: order.asym)
    with ne eq show ?thesis using assms by (auto simp: abs_rename_node_def dirs Let_def)
  next
    case 1
    then have "min ?s ?t = ?t" "max ?s ?t = ?t" by auto
    then show ?thesis
      unfolding abs_rename_node_def dirs Let_def using assms 1 dirs(6) by auto
  qed
qed

section \<open>Properties\<close>

text \<open>A small namespace for the witnesses: a file and a directory in one directory, and a second directory.\<close>

definition example_ns :: namespace_manager where
  "example_ns = NewNameSpaceManager\<lparr>ns_root := NsTree ''*'' 0 0 True (Some
     [(''a'', NsTree ''/a'' 0 0 True (Some [(''f'', file_node ''/a/f''), (''d'', dir_node ''/a/d'')])),
      (''b'', dir_node ''/b'')])\<rparr>"

lemma example_ns_inv: "nm_inv example_ns"
  by (simp add: nm_inv_def example_ns_def NewNameSpaceManager_def)

lemmas path_eval = Dir_def Base_def Clean_def rooted_def path_parts_def abs_path_def

text \<open>
  C1. In every state that operations, cleanup receives and ticks can reach, the tree is well
  formed, all node mutexes are free and the channel is within its capacity; and every operation
  acts on the tree as the abstract operation does on the map from addresses to attributes, with
  the same result, error, panic or block.
\<close>

theorem ns_ops_refine:
  assumes "ns_reachable nm"
  shows "nm_inv nm \<and> abs_res (exec_op op nm) = spec_op op (view (ns_root nm)) \<and>
    abs_res (Get p nm) = abs_get p (view (ns_root nm))"
  using nm_inv_reachable [OF assms] op_refines Get_refines by blast

theorem ns_ops_refine_witness:
  "ns_reachable NewNameSpaceManager \<and>
   abs_res (exec_op (OpRename ''/a'' ''/b'') NewNameSpaceManager) =
     spec_op (OpRename ''/a'' ''/b'') (view (dir_node ''*''))"
  using ns_ops_refine [of NewNameSpaceManager "OpRename ''/a'' ''/b''" "''/''"]
  by (simp add: ns_reachable_def NewNameSpaceManager_def del: exec_op.simps spec_op.simps)

text \<open>
  A file that \<^verbatim>\<open>Create\<close> made is found by \<^verbatim>\<open>Get\<close>; creating changes no other address and no
  address that was bound, and creating again succeeds without effect.
\<close>

theorem Create_then_Get:
  assumes "nm_inv nm" and "Create p nm = (Return (), nm')"
  shows "Get p nm' = (Return (full_parts p), nm') \<and>
    (\<forall>q. q \<noteq> full_parts p \<or> view (ns_root nm) q \<noteq> None \<longrightarrow> view (ns_root nm') q = view (ns_root nm) q) \<and>
    fst (Create p nm') = Return () \<and> view (ns_root (snd (Create p nm'))) = view (ns_root nm')"
  using nsm.lookup_after_create [OF assms] nsm.create_frame [OF assms] nsm.create_twice [OF assms] by blast

lemma example_Create: "fst (Create ''/a/g'' example_ns) = Return ()"
  by (simp add: Create_eq example_ns_inv nm_invD)
    (simp add: path_eval example_ns_def NewNameSpaceManager_def ValidateFilename_def
      add_node_def child_at_def child_def kids_def assign_child_def assign_at_def)

theorem Create_then_Get_witness:
  "nm_inv example_ns \<and>
   Get ''/a/g'' (snd (Create ''/a/g'' example_ns)) = (Return [''a'', ''g''], snd (Create ''/a/g'' example_ns))"
proof -
  have "full_parts ''/a/g'' = [''a'', ''g'']" by (simp add: path_eval)
  then show ?thesis
    using Create_then_Get [of example_ns "''/a/g''" "snd (Create ''/a/g'' example_ns)"] example_ns_inv example_Create
    by (metis prod.collapse)
qed

text \<open>
  \<^verbatim>\<open>MkDirAll\<close> on a canonical path whose last name has no dot, with no file on the way,
  succeeds: afterwards every non-empty prefix of the path is bound, the ones that were unbound
  to new directories that carry their own path, and nothing else has changed.
\<close>

theorem MkDirAll_makes_path:
  assumes "nm_inv nm" and "ps \<noteq> []" and val: "list_all valid_comp ps"
    and "CHR ''.'' \<notin> set (last ps)"
    and "\<And>q a. strict_prefix q ps \<Longrightarrow> view (ns_root nm) q = Some a \<Longrightarrow> a_isdir a"
  shows "abs_res (MkDirAll (abs_path ps) nm) = (Return (), \<lambda>q.
    if q \<noteq> [] \<and> prefix q ps \<and> view (ns_root nm) q = None
    then Some (new_attrs (abs_path q) True) else view (ns_root nm) q)"
proof -
  have ps: "ps = butlast ps @ [last ps]" using assms(2) by simp
  have valid: "valid_comp s" if "s \<in> set ps" for s using val that by (simp add: list_all_iff)
  have "abs_mkdir_all (abs_path ps) (view (ns_root nm)) = abs_mkdirs (abs_path []) ps (view (ns_root nm))"
    using abs_mkdir_all_canonical [of "butlast ps" "last ps" "view (ns_root nm)"] valid
      Ext_no_dot [OF assms(4)] by (simp flip: ps)
  also have "\<dots> = (Return (), \<lambda>q. if strict_prefix [] q \<and> prefix q ([] @ ps) \<and> view (ns_root nm) q = None
      then Some (new_attrs (abs_path q) True) else view (ns_root nm) q)"
    using assms valid by (intro abs_mkdirs_canonical) auto
  finally show ?thesis
    using MkDirAll_refines [OF assms(1)] by (auto simp: strict_prefix_def fun_eq_iff)
qed

lemma NewNameSpaceManager_inv: "nm_inv NewNameSpaceManager"
  by (simp add: nm_inv_def NewNameSpaceManager_def)

theorem MkDirAll_makes_path_witness:
  "nm_inv NewNameSpaceManager \<and>
   snd (abs_res (MkDirAll ''/a/b'' NewNameSpaceManager)) [''a''] = Some (new_attrs ''/a'' True)"
proof -
  have v: "list_all valid_comp [''a'', ''b'']" by (simp add: valid_comp_def)
  have d: "a_isdir a" if "strict_prefix q [''a'', ''b'']" "view (ns_root NewNameSpaceManager) q = Some a" for q a
    using that by (cases q) (auto simp: NewNameSpaceManager_def view_Cons child_def kids_def new_attrs_def)
  have "abs_path [''a'', ''b''] = ''/a/b''" "abs_path [''a''] = ''/a''" by (simp_all add: abs_path_def)
  moreover have "view (ns_root NewNameSpaceManager) [''a''] = None"
    by (simp add: NewNameSpaceManager_def view_Cons child_def kids_def)
  moreover have "abs_res (MkDirAll (abs_path [''a'', ''b'']) NewNameSpaceManager) = (Return (), \<lambda>q.
      if q \<noteq> [] \<and> prefix q [''a'', ''b''] \<and> view (ns_root NewNameSpaceManager) q = None
      then Some (new_attrs (abs_path q) True) else view (ns_root NewNameSpaceManager) q)"
    by (rule MkDirAll_makes_path [OF NewNameSpaceManager_inv _ v _ d]) simp_all
  ultimately show ?thesis using NewNameSpaceManager_inv by simp
qed

text \<open>
  C9. Renaming between existing directories, with a free target name: when one of the two parent
  directories properly contains the other, the call locks the outer one as a writer and then
  waits for it while walking to the inner one, so it never returns; otherwise it returns, the
  whole subtree is bound at the target, its root carries the new path, the source is unbound and
  nothing else has changed.
\<close>

theorem Rename_moves_or_blocks:
  assumes "nm_inv nm"
    and val: "list_all valid_comp sd" "list_all valid_comp td"
    and names: "ValidateFilename a (abs_path (sd @ [a])) = None" "ValidateFilename b (abs_path (td @ [b])) = None"
    and src: "view (ns_root nm) (sd @ [a]) \<noteq> None"
    and tgt: "view (ns_root nm) td = Some x" "a_isdir x" "view (ns_root nm) (td @ [b]) = None"
  shows "abs_res (Rename (abs_path (sd @ [a])) (abs_path (td @ [b])) nm) =
    (if sd \<noteq> td \<and> (prefix sd td \<or> prefix td sd) then (Deadlock, view (ns_root nm))
     else (Return (),
       abs_move (\<lambda>x. x\<lparr>a_path := abs_path (td @ [b])\<rparr>) (sd @ [a]) (td @ [b]) (view (ns_root nm))))"
proof -
  have valid: "\<And>s. s \<in> set sd \<Longrightarrow> valid_comp s" "\<And>s. s \<in> set td \<Longrightarrow> valid_comp s"
    using val by (simp_all add: list_all_iff)
  have ne: "sd @ [a] \<noteq> td @ [b]" using src tgt(3) by auto
  have "view (ns_root nm) sd \<noteq> None" using view_prefix_closed [OF src, of sd] by simp
  then show ?thesis
    using abs_rename_existing [OF valid names refl src _ ne] tgt src
      abs_rename_node_existing [OF valid valid_name [OF names(1)] valid_name [OF names(2)] src _ tgt]
    by (simp add: Rename_refines [OF assms(1)])
qed

lemma example_view:
  "view (ns_root example_ns) [''a'', ''f''] = Some (new_attrs ''/a/f'' False)"
  "view (ns_root example_ns) [''a'', ''d''] = Some (new_attrs ''/a/d'' True)"
  "view (ns_root example_ns) [''b''] = Some (new_attrs ''/b'' True)"
  "view (ns_root example_ns) [''b'', ''g''] = None"
  "view (ns_root example_ns) [''a'', ''d'', ''g''] = None"
  by (simp_all add: example_ns_def NewNameSpaceManager_def view_Cons child_def kids_def)

theorem Rename_moves_or_blocks_witness:
  "fst (Rename ''/a/f'' ''/b/g'' example_ns) = Return () \<and>
   fst (Rename ''/a/f'' ''/a/d/g'' example_ns) = Deadlock"
proof -
  have v: "list_all valid_comp [''a'']" "list_all valid_comp [''b'']" "list_all valid_comp [''a'', ''d'']"
    by (simp_all add: valid_comp_def)
  have p: "abs_path [''a'', ''f''] = ''/a/f''" "abs_path [''b'', ''g''] = ''/b/g''"
    "abs_path [''a'', ''d'', ''g''] = ''/a/d/g''" by (simp_all add: abs_path_def)
  have n: "ValidateFilename ''f'' q = None" "ValidateFilename ''g'' q = None" for q
    by (simp_all add: ValidateFilename_def)
  have "fst (abs_res (Rename ''/a/f'' ''/b/g'' example_ns)) = Return ()"
    "fst (abs_res (Rename ''/a/f'' ''/a/d/g'' example_ns)) = Deadlock"
    using Rename_moves_or_blocks [OF example_ns_inv v(1) v(2) n(1) n(2)]
      Rename_moves_or_blocks [OF example_ns_inv v(1) v(3) n(1) n(2)] p example_view
    by (simp_all add: new_attrs_def)
  then show ?thesis by (simp add: abs_res_def)
qed

text \<open>
  C12. \<^verbatim>\<open>Delete\<close> hides the node: \<^verbatim>\<open>Get\<close> no longer finds it, its subtree is kept under the tombstone
  name, every other address is unchanged and the path is queued. When nothing else was queued,
  the next tick followed by a receive of the cleanup goroutine removes the tombstone and empties
  the cache.
\<close>

theorem Delete_hides_then_collects:
  assumes "nm_inv nm" and "Delete p nm = (Return (), nm')" and "deleteCache nm = []" and "cleanupChan nm = []"
  shows "Get p nm' = (Fail (NodeDoesNotExist (Dir p) (Base p)), nm') \<and>
    (\<forall>r. view (ns_root nm') (parent_parts p @ tombstone (Base p) # r) = view (ns_root nm) (full_parts p @ r)) \<and>
    (\<forall>q. \<not> prefix (full_parts p) q \<longrightarrow> \<not> prefix (parent_parts p @ [tombstone (Base p)]) q \<longrightarrow>
       view (ns_root nm') q = view (ns_root nm) q) \<and>
    deleteCache nm' = [p] \<and>
    deleteCache (snd (cleanup_receive (cleanup_tick nm'))) = [] \<and>
    view (ns_root (snd (cleanup_receive (cleanup_tick nm')))) (parent_parts p @ [tombstone (Base p)]) = None"
proof -
  note hides = nsm.lookup_after_remove [OF assms(1,2)]
  have inv': "nm_inv nm'" using nm_inv_Delete [OF assms(1), of p] assms(2) by simp
  obtain x node where "walk (ns_root nm) (parent_parts p) = Some x" "walk (ns_root nm) (full_parts p) = Some node"
    and nm': "bury_node p (Base p) node (parent_parts p) nm = (Return (), nm')"
    using assms(2) by (auto simp: Delete_eq nm_invD [OF assms(1)] split: option.splits)
  then have queued: "deleteCache nm' = [p]" "cleanupChan nm' = []"
    using assms(3,4)
    by (auto simp: bury_node_def bind_st_def Let_def delete_child_def assign_child_def
        split: outcome.splits prod.splits)
  have "fst (Get p nm') \<noteq> Fail (NsErr PathNotFound (Dir p))" using hides(1) by simp
  then have par: "walk (ns_root nm') (parent_parts p) \<noteq> None"
    by (auto simp: Get_eq nm_invD [OF inv'] split: option.splits)
  then obtain y where y: "walk (ns_root nm') (parent_parts p) = Some y" by auto
  let ?nm = "cleanup_tick nm'"
  have tick: "ns_root ?nm = ns_root nm'" "cleanupChan ?nm = [p]" "deleteCache ?nm = [p]" "ns_locks ?nm = no_locks"
    using queued nm_invD(3) [OF inv'] by (simp_all add: cleanup_tick_def)
  then have "cleanup_receive ?nm = (Return (), (delete_child (parent_parts p) (tombstone (Base p)) ?nm)
      \<lparr>cleanupChan := [], deleteCache := []\<rparr>)"
    using y by (simp add: cleanup_receive_eq)
  then have "deleteCache (snd (cleanup_receive ?nm)) = []"
    "view (ns_root (snd (cleanup_receive ?nm))) (parent_parts p @ [tombstone (Base p)]) = None"
    using view_del_at [OF y] tick(1) by (simp_all add: delete_child_def)
  with hides queued show ?thesis by blast
qed

lemma example_Delete: "fst (Delete ''/a/f'' example_ns) = Return ()"
  by (simp add: Delete_eq example_ns_inv nm_invD)
    (simp add: path_eval example_ns_def NewNameSpaceManager_def ValidateFilename_def
      bury_node_def Let_def child_def kids_def assign_child_def assign_at_def)

theorem Delete_hides_then_collects_witness:
  "fst (Get ''/a/f'' (snd (Delete ''/a/f'' example_ns))) = Fail (NodeDoesNotExist ''/a'' ''f'') \<and>
   deleteCache (snd (Delete ''/a/f'' example_ns)) = [''/a/f'']"
proof -
  have "Delete ''/a/f'' example_ns = (Return (), snd (Delete ''/a/f'' example_ns))"
    using example_Delete by (metis prod.collapse)
  moreover have "Dir ''/a/f'' = ''/a''" "Base ''/a/f'' = ''f''" by (simp_all add: path_eval)
  moreover have "deleteCache example_ns = []" "cleanupChan example_ns = []"
    by (simp_all add: example_ns_def NewNameSpaceManager_def)
  ultimately show ?thesis
    using Delete_hides_then_collects [OF example_ns_inv] by (metis fst_conv)
qed

text \<open>
  Creating a file below a path that names a file panics: the parent's map of children is nil.
\<close>

theorem Create_below_file_panics:
  assumes "nm_inv nm" and "ValidateFilename (Base p) p = None"
    and "view (ns_root nm) (parent_parts p) = Some a" and "\<not> a_isdir a"
  shows "fst (Create p nm) = Panic"
proof -
  obtain x where x: "walk (ns_root nm) (parent_parts p) = Some x" "a = info x"
    using view_SomeD [OF assms(3)] by auto
  then have nil: "childrenNodes x = None"
    using wf_IsDir wf_walk nm_invD(1) [OF assms(1)] assms(4) by fastforce
  then have "walk (ns_root nm) (full_parts p) = None" using x by (simp add: walk_snoc)
  with x nil assms(2) show ?thesis
    by (simp add: Create_eq nm_invD [OF assms(1)] add_node_def child_at_def assign_child_eq)
qed

theorem Create_below_file_panics_witness: "fst (Create ''/a/f/g'' example_ns) = Panic"
proof (rule Create_below_file_panics [OF example_ns_inv])
  have "parent_parts ''/a/f/g'' = [''a'', ''f'']" by (simp add: path_eval)
  then show "view (ns_root example_ns) (parent_parts ''/a/f/g'') = Some (new_attrs ''/a/f'' False)"
    using example_view(1) by simp
qed (simp_all add: path_eval ValidateFilename_def new_attrs_def)

end
