(* ===== verification/Ns_Serialize.thy ===== *)
theory Ns_Serialize
  imports Ns_Refinement
begin

text \<open>
  Persistence of the namespace, \<^verbatim>\<open>Serialize\<close> and \<^verbatim>\<open>Deserialize\<close> of
  \<^verbatim>\<open>src/namespace_manager/nsmanager.go\<close>: the tree is written in post-order into a slice whose
  entries name their children by index, and rebuilt from the last entry. The round trip gives
  back the tree except for the file lengths, which the serialised node does not hold.
\<close>

section \<open>Serialising\<close>

record serialized_node =
  sn_Children :: "(string \<times> int) list option"
  sn_Path :: path
  sn_Chunks :: int
  sn_IsDir :: bool

text \<open>The slice under construction and \<^verbatim>\<open>serializationCount\<close>.\<close>

type_synonym ser_state = "serialized_node list \<times> int"

fun nsTreeToSlice :: "ns_tree \<Rightarrow> ser_state \<Rightarrow> int \<times> ser_state"
  and nsTreeToSlice_children :: "(string \<times> ns_tree) list \<Rightarrow> (string \<times> int) list \<Rightarrow> ser_state \<Rightarrow>
    (string \<times> int) list \<times> ser_state" where
  "nsTreeToSlice (NsTree p l k d ch) st =
     (let (children, r, count) =
        (if d then (case ch of
             None \<Rightarrow> (Some [], st)
           | Some al \<Rightarrow> (case nsTreeToSlice_children al [] st of (m, st') \<Rightarrow> (Some m, st')))
         else (None, st))
      in (count, r @ [\<lparr>sn_Children = children, sn_Path = p, sn_Chunks = k, sn_IsDir = d\<rparr>], count + 1))"
| "nsTreeToSlice_children [] m st = (m, st)"
| "nsTreeToSlice_children ((n, c) # al) m st =
     (case nsTreeToSlice c st of (i, st') \<Rightarrow> nsTreeToSlice_children al (AList.update n i m) st')"

definition Serialize :: "namespace_manager \<Rightarrow> serialized_node list \<times> namespace_manager" where
  "Serialize nm = (case nsTreeToSlice (ns_root nm) ([], 0) of
     (_, r, count) \<Rightarrow> (r, nm\<lparr>serializationCount := count\<rparr>))"

section \<open>Deserialising\<close>

text \<open>
  Rebuilding follows indices found in the slice, so it need not end on an arbitrary slice; the
  fuel bounds the depth. An index outside the slice panics. The second component counts the
  nodes, as \<^verbatim>\<open>deserializationCount\<close> does.
\<close>

fun SliceToNsTree :: "nat \<Rightarrow> serialized_node list \<Rightarrow> int \<Rightarrow> int \<Rightarrow> (ns_tree \<times> int) outcome"
  and SliceToNsTree_children :: "nat \<Rightarrow> serialized_node list \<Rightarrow> (string \<times> int) list \<Rightarrow>
    (string \<times> ns_tree) list \<Rightarrow> int \<Rightarrow> ((string \<times> ns_tree) list \<times> int) outcome" where
  "SliceToNsTree 0 r i count = OutOfFuel"
| "SliceToNsTree (Suc fuel) r i count =
     (if i < 0 \<or> int (length r) \<le> i then Panic
      else let n = r ! nat i in
        if sn_IsDir n
        then bind_outcome (SliceToNsTree_children fuel r (case sn_Children n of None \<Rightarrow> [] | Some m \<Rightarrow> m) [] count)
               (\<lambda>(al, count). Return (NsTree (sn_Path n) 0 (sn_Chunks n) True (Some al), count + 1))
        else Return (NsTree (sn_Path n) 0 (sn_Chunks n) False None, count + 1))"
| "SliceToNsTree_children fuel r [] al count = Return (al, count)"
| "SliceToNsTree_children fuel r ((k, i) # m) al count =
     bind_outcome (SliceToNsTree fuel r i count) (\<lambda>(t, count).
       SliceToNsTree_children fuel r m (AList.update k t al) count)"

definition Deserialize :: "serialized_node list \<Rightarrow> namespace_manager \<Rightarrow> ns_tree outcome \<times> namespace_manager" where
  "Deserialize nodes nm =
     (case SliceToNsTree (Suc (length nodes)) nodes (int (length nodes) - 1) (deserializationCount nm) of
        Return (t, count) \<Rightarrow> (Return t, nm\<lparr>ns_root := t, deserializationCount := count\<rparr>)
      | Fail e \<Rightarrow> (Fail e, nm)
      | Panic \<Rightarrow> (Panic, nm)
      | Deadlock \<Rightarrow> (Deadlock, nm)
      | OutOfFuel \<Rightarrow> (OutOfFuel, nm))"

section \<open>Round trip\<close>

text \<open>What survives: everything but the lengths.\<close>

fun erase_length :: "ns_tree \<Rightarrow> ns_tree" where
  "erase_length (NsTree p l k d ch) = NsTree p 0 k d (map_option (map (map_prod id erase_length)) ch)"

fun node_count :: "ns_tree \<Rightarrow> nat" where
  "node_count (NsTree p l k d ch) =
     Suc (case ch of None \<Rightarrow> 0 | Some al \<Rightarrow> sum_list (map (\<lambda>x. node_count (snd x)) al))"

lemma update_fresh: "k \<notin> fst ` set al \<Longrightarrow> AList.update k v al = al @ [(k, v)]"
  by (induction al) auto

abbreviation child_count :: "(string \<times> ns_tree) list \<Rightarrow> nat" where
  "child_count al \<equiv> sum_list (map (\<lambda>x. node_count (snd x)) al)"

text \<open>
  Serialising appends one entry per node, the root's last, and every later extension of the
  slice can be decoded from that entry.
\<close>

definition decodes :: "serialized_node list \<Rightarrow> int \<Rightarrow> ns_tree \<Rightarrow> bool" where
  "decodes r i t \<longleftrightarrow> (\<forall>ext fuel cnt. node_count t \<le> fuel \<longrightarrow>
     SliceToNsTree fuel (r @ ext) i cnt = Return (erase_length t, cnt + int (node_count t)))"

definition decodes_children :: "serialized_node list \<Rightarrow> (string \<times> int) list \<Rightarrow> (string \<times> ns_tree) list \<Rightarrow> bool" where
  "decodes_children r m al \<longleftrightarrow> (\<forall>ext fuel acc cnt. child_count al \<le> fuel \<longrightarrow>
     fst ` set al \<inter> fst ` set acc = {} \<longrightarrow>
     SliceToNsTree_children fuel (r @ ext) m acc cnt =
       Return (acc @ map (map_prod id erase_length) al, cnt + int (child_count al)))"

lemma decodes_dir:
  assumes "decodes_children (r @ ext) is al" and "length (r @ ext) = i"
  shows "decodes (r @ ext @ [\<lparr>sn_Children = Some is, sn_Path = p, sn_Chunks = k, sn_IsDir = True\<rparr>]) (int i) (NsTree p l k True (Some al))"
  unfolding decodes_def
proof (intro allI impI)
  fix ext2 fuel cnt assume enough: "node_count (NsTree p l k True (Some al)) \<le> fuel"
  let ?n = "\<lparr>sn_Children = Some is, sn_Path = p, sn_Chunks = k, sn_IsDir = True\<rparr>"
  have at: "(r @ ext @ ?n # ext2) ! i = ?n" using nth_append_length [of "r @ ext" ?n ext2] unfolding assms(2) by simp
  obtain f where f: "fuel = Suc f" "child_count al \<le> f" using enough by (cases fuel) auto
  have "SliceToNsTree_children f (r @ ext @ ?n # ext2) is [] cnt = Return (map (map_prod id erase_length) al, cnt + int (child_count al))"
    using assms(1) f(2) by (auto simp: decodes_children_def)
  then show "SliceToNsTree fuel ((r @ ext @ [?n]) @ ext2) (int i) cnt =
      Return (erase_length (NsTree p l k True (Some al)), cnt + int (node_count (NsTree p l k True (Some al))))"
    using f(1) at assms(2) by (simp add: nat_int_add)
qed

lemma decodes_children_Cons:
  assumes "decodes r i c" and "decodes_children (r @ e2) is al" and "n \<notin> fst ` set al"
  shows "decodes_children (r @ e2) ((n, i) # is) ((n, c) # al)"
  unfolding decodes_children_def
proof (intro allI impI)
  fix ext fuel cnt and acc :: "(string \<times> ns_tree) list"
  assume fuel: "child_count ((n, c) # al) \<le> fuel" and fresh: "fst ` set ((n, c) # al) \<inter> fst ` set acc = {}"
  have "SliceToNsTree fuel ((r @ e2) @ ext) i cnt = Return (erase_length c, cnt + int (node_count c))"
    using assms(1) fuel unfolding decodes_def by simp
  moreover have "AList.update n (erase_length c) acc = acc @ [(n, erase_length c)]" using fresh by (simp add: update_fresh)
  moreover have "fst ` set al \<inter> fst ` set (acc @ [(n, erase_length c)]) = {}" using fresh assms(3) by auto
  ultimately show "SliceToNsTree_children fuel ((r @ e2) @ ext) ((n, i) # is) acc cnt =
      Return (acc @ map (map_prod id erase_length) ((n, c) # al), cnt + int (child_count ((n, c) # al)))"
    using assms(2) fuel unfolding decodes_children_def by (simp add: algebra_simps)
qed

lemma nsTreeToSlice_decodes:
  "wf_tree t \<Longrightarrow> snd st = int (length (fst st)) \<Longrightarrow>
     \<exists>ext. nsTreeToSlice t st = (int (length (fst st) + node_count t) - 1, fst st @ ext, int (length (fst st) + node_count t)) \<and>
       length ext = node_count t \<and> decodes (fst st @ ext) (int (length (fst st) + node_count t) - 1) t"
  "\<forall>x \<in> set al. wf_tree (snd x) \<Longrightarrow> distinct (map fst al) \<Longrightarrow> fst ` set al \<inter> fst ` set m = {} \<Longrightarrow>
     snd st = int (length (fst st)) \<Longrightarrow>
     \<exists>ext is. nsTreeToSlice_children al m st = (m @ is, fst st @ ext, int (length (fst st) + child_count al)) \<and>
       length ext = child_count al \<and> decodes_children (fst st @ ext) is al"
proof (induction t st and al m st rule: nsTreeToSlice_nsTreeToSlice_children.induct)
  case (1 p l k d ch st)
  show ?case
  proof (cases ch)
    case None
    let ?n = "\<lparr>sn_Children = None, sn_Path = p, sn_Chunks = k, sn_IsDir = False\<rparr>"
    have "decodes (fst st @ [?n]) (int (length (fst st))) (NsTree p l k False None)"
      unfolding decodes_def by (auto simp: nth_append dest!: Suc_le_D)
    then show ?thesis
      using None 1(2,3) by (intro exI [of _ "[?n]"]) (auto split: prod.splits)
  next
    case (Some al)
    with 1(2) have d: "d" "\<forall>x \<in> set al. wf_tree (snd x)" "distinct (map fst al)" by auto
    from 1(1) [OF d(1) Some d(2,3) _ 1(3)] obtain ext "is" where
      e: "nsTreeToSlice_children al [] st = (is, fst st @ ext, int (length (fst st) + child_count al))"
        "length ext = child_count al" "decodes_children (fst st @ ext) is al" by auto
    let ?n = "\<lparr>sn_Children = Some is, sn_Path = p, sn_Chunks = k, sn_IsDir = True\<rparr>"
    have "decodes (fst st @ ext @ [?n]) (int (length (fst st) + child_count al)) (NsTree p l k d ch)"
      using decodes_dir [OF e(3), of "length (fst st) + child_count al"] e(2) Some d(1) by simp
    then show ?thesis using Some d(1) e by (intro exI [of _ "ext @ [?n]"]) simp
  qed
next
  case (2 m st)
  then show ?case by (cases st) (simp add: decodes_children_def)
next
  case (3 n c al m st)
  from 3(1) 3(3,6) obtain e1 where
    e1: "nsTreeToSlice c st = (int (length (fst st) + node_count c) - 1, fst st @ e1, int (length (fst st) + node_count c))"
      "length e1 = node_count c" "decodes (fst st @ e1) (int (length (fst st) + node_count c) - 1) c" by auto
  let ?i = "int (length (fst st) + node_count c) - 1"
  let ?st = "(fst st @ e1, int (length (fst st) + node_count c))"
  have m': "AList.update n ?i m = m @ [(n, ?i)]" using 3(5) by (simp add: update_fresh)
  have disj: "fst ` set al \<inter> fst ` set (AList.update n ?i m) = {}" unfolding m' using 3(4,5) by auto
  have "\<exists>ext is. nsTreeToSlice_children al (AList.update n ?i m) ?st =
      (AList.update n ?i m @ is, fst ?st @ ext, int (length (fst ?st) + child_count al)) \<and>
      length ext = child_count al \<and> decodes_children (fst ?st @ ext) is al"
    using 3(2) [OF e1(1) [symmetric] _ _ disj] 3(3,4) e1(2) by simp
  then obtain e2 "is" where e2: "nsTreeToSlice_children al (m @ [(n, ?i)]) ?st =
      (m @ (n, ?i) # is, fst st @ e1 @ e2, int (length (fst st) + (node_count c + child_count al)))"
      "length e2 = child_count al" "decodes_children (fst st @ e1 @ e2) is al"
    using e1(2) unfolding m' by (auto simp: algebra_simps)
  have "decodes_children (fst st @ e1 @ e2) ((n, ?i) # is) ((n, c) # al)"
    using decodes_children_Cons [OF e1(3), of e2 "is" al n] e2(3) 3(4) by simp
  then show ?case using e1(1) e2(1,2) e1(2) m' by (intro exI [of _ "e1 @ e2"] exI [of _ "(n, ?i) # is"]) simp
qed

lemma view_erase_length:
  "view (erase_length t) ps = map_option (\<lambda>a. a\<lparr>a_length := 0\<rparr>) (view t ps)"
proof (induction ps arbitrary: t)
  case Nil
  show ?case by (cases t) (simp add: info_def)
next
  case (Cons n ps)
  have map: "map_of (map (map_prod id f) al) n = map_option f (map_of al n)" for f :: "ns_tree \<Rightarrow> ns_tree" and al
    by (induction al) auto
  show ?case
    using Cons by (cases t) (auto simp: view_Cons child_def kids_def map split: option.splits)
qed

lemma node_count_pos [simp]: "0 < node_count t"
  by (cases t) simp

lemma Serialize_decodes:
  assumes "wf_tree (ns_root nm)"
  obtains nodes where "Serialize nm = (nodes, nm\<lparr>serializationCount := int (length nodes)\<rparr>)"
    and "length nodes = node_count (ns_root nm)" and "decodes nodes (int (length nodes) - 1) (ns_root nm)"
  using nsTreeToSlice_decodes(1) [OF assms, of "([], 0)"] that by (auto simp: Serialize_def)

section \<open>Properties\<close>

lemma Serialize_Deserialize:
  assumes "nm_inv nm" and "Serialize nm = (nodes, nm1)" and "deserializationCount nm2 = 0"
  shows "\<exists>t nm3. Deserialize nodes nm2 = (Return t, nm3) \<and> ns_root nm3 = t \<and>
    view t = (\<lambda>ps. map_option (\<lambda>a. a\<lparr>a_length := 0\<rparr>) (view (ns_root nm) ps)) \<and>
    serializationCount nm1 = int (length nodes) \<and> deserializationCount nm3 = int (length nodes)"
proof -
  obtain ns where ns: "Serialize nm = (ns, nm\<lparr>serializationCount := int (length ns)\<rparr>)"
    "length ns = node_count (ns_root nm)" "decodes ns (int (length ns) - 1) (ns_root nm)"
    using Serialize_decodes [OF nm_invD(1) [OF assms(1)]] .
  then have "nodes = ns" "nm1 = nm\<lparr>serializationCount := int (length ns)\<rparr>" using assms(2) by auto
  moreover have "SliceToNsTree (Suc (length ns)) (ns @ []) (int (length ns) - 1) 0 =
      Return (erase_length (ns_root nm), 0 + int (length ns))"
    using ns(3) unfolding decodes_def ns(2) [symmetric] by (simp only: simp_thms le_SucI order_refl)
  moreover have "view (erase_length (ns_root nm)) =
      (\<lambda>ps. map_option (\<lambda>a. a\<lparr>a_length := 0\<rparr>) (view (ns_root nm) ps))"
    by (rule ext) (rule view_erase_length)
  ultimately show ?thesis
    using assms(3) by (simp add: Deserialize_def del: SliceToNsTree.simps)
qed

text \<open>
  Persisting the namespace and loading it again gives the same namespace except that every
  file length is 0: every address keeps its path, chunk count and kind. Each node is written
  once, both counters count the nodes, and loading neither panics nor runs forever.
\<close>

theorem Serialize_roundtrip:
  assumes "nm_inv nm" and "Serialize nm = (nodes, nm1)" and "deserializationCount nm2 = 0"
  shows "\<exists>t nm3. Deserialize nodes nm2 = (Return t, nm3) \<and> ns_root nm3 = t \<and>
    view t = (\<lambda>ps. map_option (\<lambda>a. a\<lparr>a_length := 0\<rparr>) (view (ns_root nm) ps)) \<and>
    serializationCount nm1 = int (length nodes) \<and> deserializationCount nm3 = int (length nodes)"
  by (rule Serialize_Deserialize [OF assms])

theorem Serialize_roundtrip_witness:
  "nm_inv NewNameSpaceManager \<and>
   (\<exists>t nm3. Deserialize (fst (Serialize NewNameSpaceManager)) NewNameSpaceManager = (Return t, nm3) \<and>
      view t [] = Some (new_attrs ''*'' True))"
proof -
  have inv: "nm_inv NewNameSpaceManager" by (simp add: nm_inv_def NewNameSpaceManager_def)
  have "view (ns_root NewNameSpaceManager) [] = Some (new_attrs ''*'' True)"
    "deserializationCount NewNameSpaceManager = 0"
    by (simp_all add: NewNameSpaceManager_def)
  then show ?thesis
    using Serialize_roundtrip [OF inv, of "fst (Serialize NewNameSpaceManager)" "snd (Serialize NewNameSpaceManager)"
        NewNameSpaceManager] inv by (auto simp: new_attrs_def simp del: view_Nil)
qed

end
