(* ===== verification/Ns_List.thy ===== *)
theory Ns_List
  imports Ns_Refinement Ns_Serialize Deque "HOL-Library.Multiset"
begin

text \<open>
  \<^verbatim>\<open>List\<close> of \<^verbatim>\<open>src/namespace_manager/nsmanager.go\<close>: a breadth-first walk that keeps the
  directories still to visit in the linked deque of \<open>Deque\<close>, used as a FIFO queue. The walk is
  shown to end and to report exactly the entries of a recursive enumeration that skips deleted
  entries and everything below them.
\<close>

record path_info =
  pi_Path :: path
  pi_Name :: string
  pi_Length :: int
  pi_Chunk :: int
  pi_IsDir :: bool

definition path_info_of :: "string \<Rightarrow> ns_tree \<Rightarrow> path_info" where
  "path_info_of name c = \<lparr>pi_Path = ns_Path c, pi_Name = name, pi_Length = ns_Length c,
     pi_Chunk = ns_Chunks c, pi_IsDir = IsDir c\<rparr>"

text \<open>The queue holds pointers to nodes; \<open>None\<close> is the nil pointer, which is its zero value.\<close>

fun list_children :: "(string \<times> ns_tree) list \<Rightarrow> path_info list \<Rightarrow> ns_tree option deque \<Rightarrow>
    (path_info list \<times> ns_tree option deque) outcome" where
  "list_children [] infos q = Return (infos, q)"
| "list_children ((name, c) # rest) infos q =
     (if prefix DeletedNamespaceFilePrefix name then list_children rest infos q
      else bind_outcome (if IsDir c \<and> kids c \<noteq> [] then PushBack (Some c) q else Return q) (\<lambda>q.
           list_children rest (infos @ [path_info_of name c]) q))"

fun list_loop :: "nat \<Rightarrow> path_info list \<Rightarrow> ns_tree option deque \<Rightarrow> path_info list outcome" where
  "list_loop 0 infos q = OutOfFuel"
| "list_loop (Suc fuel) infos q =
     (if Length q > 0
      then bind_outcome (PopFront None q) (\<lambda>(current, q).
           case current of
             None \<Rightarrow> Panic
           | Some cur \<Rightarrow> bind_outcome (list_children (kids cur) infos q) (\<lambda>(infos, q). list_loop fuel infos q))
      else Return infos)"

definition list_from :: "ns_tree \<Rightarrow> path_info list outcome" where
  "list_from dir = bind_outcome (PushBack (Some dir) empty_deque) (list_loop (Suc (node_count dir)) [])"

text \<open>The root is locked directly; every other directory through \<^verbatim>\<open>lockParents\<close>.\<close>

definition List :: "path \<Rightarrow> namespace_manager \<Rightarrow> path_info list nm_result" where
  "List p nm =
     (if p = ''/''
      then bind_st (on_locks (RLock []) nm) (\<lambda>_ nm.
             deferring (on_locks (RUnlock [])) (list_from (ns_root nm), nm))
      else with_parent p False (\<lambda>cwd nm.
             (case walk (ns_root nm) cwd of None \<Rightarrow> Panic | Some dir \<Rightarrow> list_from dir, nm)) nm)"

section \<open>The enumeration\<close>

fun entries :: "ns_tree \<Rightarrow> path_info list" where
  "entries (NsTree p l k d ch) = (case ch of
     None \<Rightarrow> []
   | Some al \<Rightarrow> concat (map (\<lambda>x. if prefix DeletedNamespaceFilePrefix (fst x) then []
       else path_info_of (fst x) (snd x) # entries (snd x)) al))"

abbreviation visible_kids :: "(string \<times> ns_tree) list \<Rightarrow> (string \<times> ns_tree) list" where
  "visible_kids al \<equiv> filter (\<lambda>x. \<not> prefix DeletedNamespaceFilePrefix (fst x)) al"

lemma entries_kids:
  "entries t = concat (map (\<lambda>x. path_info_of (fst x) (snd x) # entries (snd x)) (visible_kids (kids t)))"
proof -
  have "concat (map (\<lambda>x. if prefix DeletedNamespaceFilePrefix (fst x) then [] else f x) al) =
      concat (map f (visible_kids al))" for f :: "string \<times> ns_tree \<Rightarrow> path_info list" and al
    by (induction al) auto
  then show ?thesis by (cases t) (auto simp: kids_def split: option.splits)
qed

lemma entries_leaf: "kids t = [] \<Longrightarrow> entries t = []"
  using entries_kids [of t] by simp

definition to_visit :: "(string \<times> ns_tree) list \<Rightarrow> ns_tree list" where
  "to_visit al = filter (\<lambda>c. IsDir c \<and> kids c \<noteq> []) (map snd (visible_kids al))"

lemma node_count_kids: "node_count t = Suc (child_count (kids t))"
  by (cases t) (simp add: kids_def split: option.splits)

lemma to_visit_Cons:
  "to_visit ((n, c) # al) = (if prefix DeletedNamespaceFilePrefix n then to_visit al
     else if IsDir c \<and> kids c \<noteq> [] then c # to_visit al else to_visit al)"
  by (simp add: to_visit_def)

lemma to_visit_count: "sum_list (map node_count (to_visit al)) \<le> child_count al"
  by (induction al) (auto simp: to_visit_Cons, simp add: to_visit_def)

lemma entries_split:
  assumes "\<forall>x \<in> set al. wf_tree (snd x)"
  shows "mset (concat (map (\<lambda>x. path_info_of (fst x) (snd x) # entries (snd x)) (visible_kids al))) =
    mset (map (\<lambda>x. path_info_of (fst x) (snd x)) (visible_kids al)) + mset (concat (map entries (to_visit al)))"
  using assms
proof (induction al)
  case (Cons x al)
  obtain n c where x: "x = (n, c)" by (cases x)
  have "entries c = []" if "\<not> (IsDir c \<and> kids c \<noteq> [])"
    using that Cons.prems wf_IsDir [of c] by (auto intro!: entries_leaf simp: x kids_def split: option.splits)
  with Cons show ?case by (auto simp: x to_visit_Cons)
qed (simp add: to_visit_def)

lemma list_children_spec:
  "fifo_inv q \<Longrightarrow> \<exists>q'. list_children al infos q =
     Return (infos @ map (\<lambda>x. path_info_of (fst x) (snd x)) (visible_kids al), q') \<and>
     fifo_inv q' \<and> contents q' = contents q @ map Some (to_visit al)"
proof (induction al arbitrary: infos q)
  case (Cons x al)
  obtain n c where x: "x = (n, c)" by (cases x)
  from dq_fifo.push_law [OF Cons.prems, of "Some c"] obtain q1
    where "PushBack (Some c) q = Return q1" "fifo_inv q1" "contents q1 = contents q @ [Some c]" by blast
  then show ?case
    using Cons.IH [of q] Cons.IH [of q1 "infos @ [path_info_of n c]"] Cons.IH [of q "infos @ [path_info_of n c]"] Cons.prems
    by (auto simp: x to_visit_Cons)
qed (simp add: to_visit_def)

lemma wf_kids: "wf_tree t \<Longrightarrow> \<forall>x \<in> set (kids t). wf_tree (snd x)"
  using wf_tree_iff [of t] by blast

lemma wf_to_visit: "\<forall>x \<in> set al. wf_tree (snd x) \<Longrightarrow> \<forall>c \<in> set (to_visit al). wf_tree c"
  by (auto simp: to_visit_def)

lemma list_loop_spec:
  "fifo_inv q \<Longrightarrow> contents q = map Some ts \<Longrightarrow> \<forall>t \<in> set ts. wf_tree t \<Longrightarrow>
     sum_list (map node_count ts) < fuel \<Longrightarrow>
     \<exists>res. list_loop fuel infos q = Return (infos @ res) \<and> mset res = mset (concat (map entries ts))"
proof (induction fuel arbitrary: q ts infos)
  case (Suc fuel)
  show ?case
  proof (cases ts)
    case Nil
    then show ?thesis using Suc.prems dq_fifo.len_law [OF Suc.prems(1)] by simp
  next
    case (Cons t ts')
    from dq_fifo.pop_law [OF Suc.prems(1), of "Some t" "map Some ts'" None] Suc.prems(2) Cons
    obtain q1 where q1: "PopFront None q = Return (Some t, q1)" "fifo_inv q1" "contents q1 = map Some ts'" by auto
    obtain q2 where q2: "list_children (kids t) infos q1 =
        Return (infos @ map (\<lambda>x. path_info_of (fst x) (snd x)) (visible_kids (kids t)), q2)"
        "fifo_inv q2" "contents q2 = map Some (ts' @ to_visit (kids t))"
      using list_children_spec [OF q1(2), of "kids t" infos] q1(3) by auto
    have wf: "\<forall>x \<in> set (kids t). wf_tree (snd x)" using Suc.prems(3) Cons wf_kids [of t] by simp
    have "\<forall>u \<in> set (ts' @ to_visit (kids t)). wf_tree u"
      using Suc.prems(3) Cons wf_to_visit [OF wf] by auto
    moreover have "sum_list (map node_count (ts' @ to_visit (kids t))) < fuel"
      using Suc.prems(4) Cons to_visit_count [of "kids t"] by (simp add: node_count_kids [of t])
    ultimately obtain res where res: "list_loop fuel
          (infos @ map (\<lambda>x. path_info_of (fst x) (snd x)) (visible_kids (kids t))) q2 =
        Return ((infos @ map (\<lambda>x. path_info_of (fst x) (snd x)) (visible_kids (kids t))) @ res)"
        "mset res = mset (concat (map entries (ts' @ to_visit (kids t))))"
      using Suc.IH [OF q2(2,3)] by blast
    have "0 < Length q" using Suc.prems(2) Cons dq_fifo.len_law [OF Suc.prems(1)] by simp
    with q1(1) q2(1) res Cons entries_split [OF wf] entries_kids [of t] show ?thesis by simp
  qed
qed simp

lemma list_from_spec: "wf_tree t \<Longrightarrow> \<exists>res. list_from t = Return res \<and> mset res = mset (entries t)"
proof -
  assume wf: "wf_tree t"
  from dq_fifo.push_law [OF dq_fifo.inv_empty, of "Some t"] obtain q
    where q: "PushBack (Some t) empty_deque = Return q" "fifo_inv q" "contents q = map Some [t]"
    by (auto simp: dq_fifo.items_empty)
  show ?thesis
    using list_loop_spec [OF q(2,3), of "Suc (node_count t)" "[]"] wf q(1) by (auto simp: list_from_def)
qed

section \<open>Properties\<close>

text \<open>
  C28. \<^verbatim>\<open>List\<close> ends on every namespace. It fails with a not-found error when the path leads
  nowhere, and otherwise returns each undeleted entry below the directory once, with its
  attributes, and no entry that is deleted or lies below a deleted one. The namespace and its
  mutexes are left as they were.
\<close>

theorem List_enumerates:
  assumes "nm_inv nm"
  shows "case walk (ns_root nm) (path_parts p) of
      None \<Rightarrow> List p nm = (Fail (NsErr PathNotFound p), nm)
    | Some dir \<Rightarrow> \<exists>res. List p nm = (Return res, nm) \<and> mset res = mset (entries dir)"
proof (cases "p = ''/''")
  case True
  obtain res where res: "list_from (ns_root nm) = Return res" "mset res = mset (entries (ns_root nm))"
    using list_from_spec [OF nm_invD(1) [OF assms]] by blast
  have "List p nm = (Return res, nm\<lparr>ns_locks := no_locks\<rparr>)"
    using True res nm_invD(3) [OF assms] by (simp add: List_def on_locks_def deferring_def RUnlock_reader)
  then show ?thesis using True res nm_invD(3) [OF assms] by simp
next
  case False
  define body where "body = (\<lambda>cwd (nm :: namespace_manager). (case walk (ns_root nm) cwd of None \<Rightarrow> Panic | Some dir \<Rightarrow> list_from dir, nm))"
  have list: "List p nm = with_parent p False body nm" using False by (simp add: List_def body_def)
  show ?thesis
  proof (cases "walk (ns_root nm) (path_parts p)")
    case None
    then show ?thesis
      unfolding list using nm_invD(3) [OF assms] by (simp add: with_parent_granted)
  next
    case (Some dir)
    obtain res where res: "list_from dir = Return res" "mset res = mset (entries dir)"
      using list_from_spec [OF wf_walk [OF nm_invD(1) [OF assms] Some]] by blast
    have "List p nm = (Return res, nm)"
      unfolding list using nm_invD(3) [OF assms] Some res(1) deferring_restore [of nm no_locks "path_parts p" "Return res" False]
      by (simp add: with_parent_granted body_def)
    then show ?thesis using Some res by simp
  qed
qed

theorem List_enumerates_witness:
  "nm_inv NewNameSpaceManager \<and> (\<exists>res. List ''/'' NewNameSpaceManager = (Return res, NewNameSpaceManager) \<and> res = [])"
proof -
  have inv: "nm_inv NewNameSpaceManager" by (simp add: nm_inv_def NewNameSpaceManager_def)
  have "entries (ns_root NewNameSpaceManager) = []" by (simp add: NewNameSpaceManager_def)
  then show ?thesis using List_enumerates [OF inv, of "''/''"] inv by auto
qed

end
