(* ===== verification/Common_Types.thy ===== *)
theory Common_Types
  imports Helpers
begin

text \<open>
  The records of \<^verbatim>\<open>src/common/types.go\<close> that the master, the chunk server and the client
  exchange. A missing time value (Go's zero time) is \<open>None\<close> where the code tests for it.
\<close>

datatype error_code =
    Success | UnknownError | Timeout | AppendExceedChunkSize | WriteExceedChunkSize
  | ReadEOF | NotAvailableForCopy | DownloadBufferMiss | LeaseExpired

text \<open>The mutation flags are \<^verbatim>\<open>(iota + 1) << 1\<close>: 2, 4 and 6.\<close>

definition MutationAppend :: int where
  "MutationAppend = 2"

definition MutationWrite :: int where
  "MutationWrite = 4"

definition MutationPad :: int where
  "MutationPad = 6"

record mutation =
  mu_Data :: "byte list"
  mu_Offset :: offset
  mu_Type :: int

record persisted_chunk_info =
  pc_Handle :: chunk_handle
  pc_Version :: chunk_version
  pc_Checksum :: checksum
  pc_Length :: offset

record lease =
  l_Expire :: time
  l_Primary :: server_addr
  l_Secondaries :: "server_addr list"
  l_Handle :: chunk_handle
  l_InUse :: bool

definition IsExpired :: "lease \<Rightarrow> time \<Rightarrow> bool" where
  "IsExpired ls u \<longleftrightarrow> l_Expire ls < u"

record machine_info =
  Hostname :: string
  RoundTripProximityTime :: rat

end
