(* ===== verification/Chunk_Server_Manager.thy ===== *)
theory Chunk_Server_Manager
  imports Common_Types
begin

text \<open>
  The master's record of chunk servers, chunks and files, \<^verbatim>\<open>src/master_server/cs_manager.go\<close>.
  Every operation that the code runs under its mutexes is a function of the state; \<open>now\<close> stands
  for the value of \<^verbatim>\<open>time.Now()\<close>. Remote calls are parameters: a function from server
  addresses to the call's result, or, for calls made concurrently, the list of results in the
  order in which they arrive.
\<close>

section \<open>State\<close>

record chunk_server_info =
  lastHeartBeat :: "time option"
  sv_chunks :: "chunk_handle list"
  garbages :: "chunk_handle list"
  serverInfo :: machine_info

record chunk_info =
  expire :: time
  primary :: server_addr
  ck_checksum :: checksum
  ck_path :: path
  locations :: "server_addr list"
  ck_length :: offset
  version :: chunk_version

definition isExpired :: "chunk_info \<Rightarrow> time \<Rightarrow> bool" where
  "isExpired chk u \<longleftrightarrow> expire chk < u"

record file_info =
  handles :: "chunk_handle list"

record serial_chunk_info =
  sc_Path :: path
  sc_Info :: "persisted_chunk_info list"

record chunk_server_manager =
  servers :: "(server_addr \<times> chunk_server_info) list"
  chunks :: "(chunk_handle \<times> chunk_info) list"
  files :: "(path \<times> file_info) list"
  handleToPathMapping :: "(chunk_handle \<times> path) list"
  replicationInProgress :: "(chunk_handle \<times> time) list"
  replicaMigration :: "chunk_handle list"
  numberOfCreatedChunkHandle :: chunk_handle

type_synonym csm = chunk_server_manager

definition NewChunkServerManager :: csm where
  "NewChunkServerManager = \<lparr>servers = [], chunks = [], files = [], handleToPathMapping = [],
     replicationInProgress = [], replicaMigration = [], numberOfCreatedChunkHandle = 0\<rparr>"

text \<open>A write through the pointer that the map holds.\<close>

definition set_server :: "server_addr \<Rightarrow> (chunk_server_info \<Rightarrow> chunk_server_info) \<Rightarrow> csm \<Rightarrow> csm" where
  "set_server addr f m = m\<lparr>servers := AList.map_entry addr f (servers m)\<rparr>"

definition set_chunk :: "chunk_handle \<Rightarrow> (chunk_info \<Rightarrow> chunk_info) \<Rightarrow> csm \<Rightarrow> csm" where
  "set_chunk h f m = m\<lparr>chunks := AList.map_entry h f (chunks m)\<rparr>"

section \<open>Replication bookkeeping\<close>

definition TryStartReplication :: "time \<Rightarrow> chunk_handle \<Rightarrow> csm \<Rightarrow> bool \<times> csm" where
  "TryStartReplication now h m =
     (if map_of (replicationInProgress m) h \<noteq> None then (False, m)
      else (True, m\<lparr>replicationInProgress := AList.update h now (replicationInProgress m)\<rparr>))"

definition FinishReplication :: "chunk_handle \<Rightarrow> csm \<Rightarrow> csm" where
  "FinishReplication h m = m\<lparr>replicationInProgress := AList.delete h (replicationInProgress m)\<rparr>"

definition queueReplication :: "chunk_handle \<Rightarrow> csm \<Rightarrow> csm" where
  "queueReplication h m = m\<lparr>replicaMigration := replicaMigration m @ [h]\<rparr>"

text \<open>\<^verbatim>\<open>slices.Sort\<close>, then one entry per run of equal handles.\<close>

fun unique_loop :: "chunk_handle list \<Rightarrow> chunk_handle option \<Rightarrow> chunk_handle list \<Rightarrow> chunk_handle list" where
  "unique_loop [] lst acc = acc"
| "unique_loop (h # hs) lst acc =
     (if lst = Some h then unique_loop hs lst acc else unique_loop hs (Some h) (acc @ [h]))"

definition replicationMigration :: "csm \<Rightarrow> chunk_handle list \<times> csm" where
  "replicationMigration m =
     (if replicaMigration m = [] then ([], m)
      else (unique_loop (sort (replicaMigration m)) None [], m\<lparr>replicaMigration := []\<rparr>))"

section \<open>Replicas\<close>

definition getReplicas :: "chunk_handle \<Rightarrow> csm \<Rightarrow> server_addr list outcome" where
  "getReplicas h m = (case map_of (chunks m) h of
     None \<Rightarrow> Fail (HandleErr ReplicaNotRetrieved h)
   | Some chk \<Rightarrow> Return (locations chk))"

definition registerReplicas :: "chunk_handle \<Rightarrow> server_addr \<Rightarrow> csm \<Rightarrow> unit outcome \<times> csm" where
  "registerReplicas h addr m = (case map_of (chunks m) h of
     None \<Rightarrow> (Fail (HandleErr CannotFindChunk h), m)
   | Some _ \<Rightarrow> (Return (), set_chunk h (\<lambda>c.
       if addr \<in> set (locations c) then c else c\<lparr>locations := locations c @ [addr]\<rparr>) m))"

definition is_live :: "time \<Rightarrow> chunk_server_info \<Rightarrow> bool" where
  "is_live now sv = (case lastHeartBeat sv of None \<Rightarrow> False | Some t \<Rightarrow> now - t < ServerHealthCheckTimeout)"

definition detectDeadServer :: "time \<Rightarrow> csm \<Rightarrow> server_addr list" where
  "detectDeadServer now m = map fst (filter (\<lambda>(_, sv).
     case lastHeartBeat sv of None \<Rightarrow> True | Some t \<Rightarrow> now - t \<ge> ServerHealthCheckTimeout) (servers m))"

definition GetLiveServers :: "time \<Rightarrow> csm \<Rightarrow> server_addr list" where
  "GetLiveServers now m = IterateOverMap (servers m)
     (\<lambda>addr sv all. if is_live now sv then all @ [addr] else all) []"

text \<open>The body of the loop of \<^verbatim>\<open>removeChunks\<close> over the handles, with the error list it appends to.\<close>

definition removeChunk_step :: "time \<Rightarrow> server_addr \<Rightarrow> chunk_handle \<Rightarrow> go_error list \<times> csm \<Rightarrow>
    go_error list \<times> csm" where
  "removeChunk_step now server h st = (case st of (errs, m) \<Rightarrow>
     (case map_of (chunks m) h of
        None \<Rightarrow> (errs @ [HandleErr HandleDoesNotExist h], m)
      | Some chk \<Rightarrow>
          let locs = FilterSlice (locations chk) (\<lambda>v. v \<noteq> server);
              m = set_chunk h (\<lambda>c. c\<lparr>locations := locs, expire := now\<rparr>) m;
              m = set_server server (\<lambda>sv. sv\<lparr>sv_chunks := removeAll h (sv_chunks sv)\<rparr>) m
          in if length locs < MinimumReplicationFactor
             then (if length locs = 0 then errs @ [HandleErr LostAllReplicas h] else errs,
                   m\<lparr>replicaMigration := replicaMigration m @ [h]\<rparr>)
             else (errs, m)))"

definition removeChunks :: "time \<Rightarrow> chunk_handle list \<Rightarrow> server_addr \<Rightarrow> csm \<Rightarrow> unit outcome \<times> csm" where
  "removeChunks now hs server m =
     (case ForEachInSlice hs (removeChunk_step now server) ([], m) of
        (errs, m') \<Rightarrow> (if errs = [] then Return () else Fail (Errors errs), m'))"

definition removeServer :: "server_addr \<Rightarrow> csm \<Rightarrow> chunk_handle list outcome \<times> csm" where
  "removeServer addr m = (case map_of (servers m) addr of
     None \<Rightarrow> (Fail (ServerNotFound addr), m)
   | Some sv \<Rightarrow> (Return (sv_chunks sv), m\<lparr>servers := AList.delete addr (servers m)\<rparr>))"

fun addChunk :: "server_addr list \<Rightarrow> chunk_handle \<Rightarrow> csm \<Rightarrow> csm" where
  "addChunk [] h m = m"
| "addChunk (v # addrs) h m =
     addChunk addrs h (set_server v (\<lambda>sv. sv\<lparr>sv_chunks := List.insert h (sv_chunks sv)\<rparr>) m)"

definition addGarbage :: "server_addr \<Rightarrow> chunk_handle \<Rightarrow> csm \<Rightarrow> csm" where
  "addGarbage addr h m = set_server addr (\<lambda>sv. sv\<lparr>garbages := garbages sv @ [h]\<rparr>) m"

section \<open>Leases\<close>

definition extendLease :: "time \<Rightarrow> chunk_handle \<Rightarrow> server_addr \<Rightarrow> csm \<Rightarrow> chunk_info outcome \<times> csm" where
  "extendLease now h prim m = (case map_of (chunks m) h of
     None \<Rightarrow> (Fail (CannotExtendLease prim), m)
   | Some chk \<Rightarrow>
       if primary chk \<noteq> prim \<and> expire chk > now then (Fail (DoesNotHoldLease prim h), m)
       else let chk' = chk\<lparr>expire := expire chk + LeaseTimeout\<rparr> in
            (Return chk', set_chunk h (\<lambda>_. chk') m))"

text \<open>
  \<open>probes\<close> holds the answers of the version checks in the order in which they arrive: the
  address, and whether the call succeeded and the replica is current. \<open>now1\<close>, \<open>now2\<close> are the
  clock before and after them.
\<close>

definition getLeaseHolder :: "time \<Rightarrow> time \<Rightarrow> (server_addr \<times> bool) list \<Rightarrow> chunk_handle \<Rightarrow> csm \<Rightarrow>
    (lease \<times> server_addr list) outcome \<times> csm" where
  "getLeaseHolder now1 now2 probes h m = (case map_of (chunks m) h of
     None \<Rightarrow> (Fail (HandleErr InvalidHandle h), m)
   | Some chk \<Rightarrow>
       let expired = isExpired chk now1;
           good = map fst (filter snd probes);
           stale = map fst (filter (\<lambda>x. \<not> snd x) probes);
           chk = (if expired then chk\<lparr>locations := good\<rparr> else chk);
           few = expired \<and> length good < MinimumReplicationFactor;
           m = (if few then m\<lparr>replicaMigration := replicaMigration m @ [h]\<rparr> else m)
       in if few \<and> good = [] then (Fail (HandleErr NoReplica h), set_chunk h (\<lambda>_. chk) m)
          else let chk = (if expired \<and> \<not> few then chk\<lparr>primary := hd good, expire := expire chk + LeaseTimeout\<rparr> else chk);
                   secondaries = FilterSlice (locations chk) (\<lambda>v. v \<noteq> primary chk);
                   (prim, secs) = (if primary chk = '''' \<and> secondaries \<noteq> []
                     then (hd secondaries, tl secondaries) else (primary chk, secondaries));
                   ls = \<lparr>l_Expire = now2 + LeaseTimeout, l_Primary = prim, l_Secondaries = secs,
                         l_Handle = h, l_InUse = False\<rparr>;
                   chk = chk\<lparr>primary := prim, expire := now2 + LeaseTimeout\<rparr>
               in (Return (ls, if expired then stale else []), set_chunk h (\<lambda>_. chk) m))"

section \<open>Choosing servers\<close>

text \<open>\<open>perm\<close> is the random permutation that \<^verbatim>\<open>Sample\<close> draws.\<close>

definition chooseServers :: "nat list \<Rightarrow> int \<Rightarrow> csm \<Rightarrow> server_addr list outcome" where
  "chooseServers perm num m =
     (if num > int (length (servers m)) then Fail (NotEnoughServers num)
      else let arr = map (\<lambda>(a, sv). (a, RoundTripProximityTime (serverInfo sv))) (servers m);
               all = TransformSlice (sort_key snd arr) fst
           in bind_outcome (Sample perm (int (length all)) num) (\<lambda>chosen. Return (map (\<lambda>v. all ! v) chosen)))"

definition chooseReplicationServer :: "time \<Rightarrow> chunk_handle \<Rightarrow> csm \<Rightarrow> (server_addr \<times> server_addr) outcome" where
  "chooseReplicationServer now h m = bind_outcome (getReplicas h m) (\<lambda>locs.
     let live = GetLiveServers now m in
     if live = [] then Fail (HandleErr NoLiveServer h)
     else let from = (case find (\<lambda>a. a \<noteq> '''' \<and> a \<in> set live) locs of None \<Rightarrow> '''' | Some a \<Rightarrow> a) in
       if from = '''' then Fail (HandleErr NoLiveReplica h)
       else let to = (case find (\<lambda>a. a \<notin> set locs) live of None \<Rightarrow> '''' | Some a \<Rightarrow> a) in
         if to = '''' then Fail (HandleErr NoTarget h) else Return (from, to))"

section \<open>Chunks and files\<close>

text \<open>\<open>rpc addr\<close> is the error that creating the chunk on \<open>addr\<close> returns, if any.\<close>

definition createChunk :: "time \<Rightarrow> (server_addr \<Rightarrow> go_error option) \<Rightarrow> path \<Rightarrow> server_addr list \<Rightarrow> csm \<Rightarrow>
    (chunk_handle \<times> server_addr list \<times> go_error option) \<times> csm" where
  "createChunk now rpc p addrs m =
     (let h = numberOfCreatedChunkHandle m;
          old = (case map_of (files m) p of None \<Rightarrow> [] | Some fi \<Rightarrow> handles fi);
          success = filter (\<lambda>a. rpc a = None) addrs;
          errs = List.map_filter rpc addrs;
          chk = \<lparr>expire = now + LeaseTimeout, primary = '''', ck_checksum = '''', ck_path = p,
                 locations = success, ck_length = 0, version = 0\<rparr>;
          m = m\<lparr>numberOfCreatedChunkHandle := h + 1,
                files := AList.update p \<lparr>handles = old @ [h]\<rparr> (files m),
                handleToPathMapping := AList.update h p (handleToPathMapping m),
                chunks := AList.update h chk (chunks m)\<rparr>
      in if errs \<noteq> []
         then ((h, success, Some (Errors errs)), m\<lparr>replicaMigration := replicaMigration m @ [h]\<rparr>)
         else ((h, success, None), m))"

definition getChunkHandle :: "path \<Rightarrow> int \<Rightarrow> csm \<Rightarrow> chunk_handle outcome" where
  "getChunkHandle p idx m = (case map_of (files m) p of
     None \<Rightarrow> Fail (NsErr NoHandles p)
   | Some fi \<Rightarrow>
       if idx < 0 \<or> idx \<ge> int (length (handles fi)) then Fail (InvalidChunkIndex idx)
       else Return (handles fi ! nat idx))"

definition getChunk :: "chunk_handle \<Rightarrow> csm \<Rightarrow> chunk_info option" where
  "getChunk h m = map_of (chunks m) h"

definition GetChunkHandles :: "path \<Rightarrow> csm \<Rightarrow> chunk_handle list outcome" where
  "GetChunkHandles p m = (case map_of (files m) p of None \<Rightarrow> Fail (NsErr NoHandles p) | Some fi \<Rightarrow> Return (handles fi))"

definition deleteChunk :: "chunk_handle \<Rightarrow> csm \<Rightarrow> csm" where
  "deleteChunk h m =
     (let m = (case map_of (handleToPathMapping m) h of
          None \<Rightarrow> m
        | Some p \<Rightarrow>
            let m = m\<lparr>handleToPathMapping := AList.delete h (handleToPathMapping m)\<rparr> in
            (case map_of (files m) p of
               None \<Rightarrow> m
             | Some fi \<Rightarrow>
                 let hs = FilterSlice (handles fi) (\<lambda>x. x \<noteq> h) in
                 if hs = [] then m\<lparr>files := AList.delete p (files m)\<rparr>
                 else m\<lparr>files := AList.update p (fi\<lparr>handles := hs\<rparr>) (files m)\<rparr>))
      in m\<lparr>replicaMigration := FilterSlice (replicaMigration m) (\<lambda>x. x \<noteq> h),
           chunks := AList.delete h (chunks m),
           servers := map (\<lambda>(a, sv). (a, sv\<lparr>sv_chunks := removeAll h (sv_chunks sv)\<rparr>)) (servers m)\<rparr>)"

fun rename_handles :: "chunk_handle list \<Rightarrow> path \<Rightarrow> csm \<Rightarrow> csm" where
  "rename_handles [] target m = m"
| "rename_handles (h # hs) target m =
     rename_handles hs target
       (set_chunk h (\<lambda>c. c\<lparr>ck_path := target\<rparr>)
         (m\<lparr>handleToPathMapping := AList.update h target (handleToPathMapping m)\<rparr>))"

definition UpdateFilePath :: "path \<Rightarrow> path \<Rightarrow> csm \<Rightarrow> csm" where
  "UpdateFilePath source target m =
     (if source = target then m
      else case map_of (files m) source of
        None \<Rightarrow> m
      | Some fi \<Rightarrow> rename_handles (handles fi) target
          (m\<lparr>files := AList.update target fi (AList.delete source (files m))\<rparr>))"

section \<open>Heartbeats\<close>

text \<open>The result tells a first heartbeat, and carries the garbage list of the reply otherwise.\<close>

definition HeartBeat :: "time \<Rightarrow> server_addr \<Rightarrow> machine_info \<Rightarrow> csm \<Rightarrow> (bool \<times> chunk_handle list) \<times> csm" where
  "HeartBeat now addr mi m = (case map_of (servers m) addr of
     None \<Rightarrow> ((True, []), m\<lparr>servers := AList.update addr
       \<lparr>lastHeartBeat = Some now, sv_chunks = [], garbages = [], serverInfo = mi\<rparr> (servers m)\<rparr>)
   | Some srv \<Rightarrow> ((False, garbages srv),
       set_server addr (\<lambda>sv. sv\<lparr>garbages := [], lastHeartBeat := Some now\<rparr>) m))"

definition markServerLive :: "server_addr \<Rightarrow> time \<Rightarrow> csm \<Rightarrow> csm" where
  "markServerLive addr t m = set_server addr (\<lambda>sv. sv\<lparr>lastHeartBeat := Some t\<rparr>) m"

section \<open>Persistence\<close>

definition SerializeChunks :: "csm \<Rightarrow> serial_chunk_info list" where
  "SerializeChunks m = map (\<lambda>(p, fi). \<lparr>sc_Path = p, sc_Info = map (\<lambda>h.
     (case map_of (chunks m) h of
        None \<Rightarrow> \<lparr>pc_Handle = h, pc_Version = 0, pc_Checksum = '''', pc_Length = 0\<rparr>
      | Some chk \<Rightarrow> \<lparr>pc_Handle = h, pc_Version = version chk, pc_Checksum = ck_checksum chk,
          pc_Length = ck_length chk\<rparr>)) (handles fi)\<rparr>) (files m)"

fun restore_handles :: "time \<Rightarrow> path \<Rightarrow> persisted_chunk_info list \<Rightarrow> csm \<Rightarrow> csm" where
  "restore_handles now p [] m = m"
| "restore_handles now p (ci # rest) m =
     restore_handles now p rest (m\<lparr>
       chunks := AList.update (pc_Handle ci) \<lparr>expire = now, primary = '''', ck_checksum = pc_Checksum ci,
         ck_path = p, locations = [], ck_length = pc_Length ci, version = pc_Version ci\<rparr> (chunks m),
       handleToPathMapping := AList.update (pc_Handle ci) p (handleToPathMapping m)\<rparr>)"

fun DeserializeChunks :: "time \<Rightarrow> serial_chunk_info list \<Rightarrow> csm \<Rightarrow> csm" where
  "DeserializeChunks now [] m = m"
| "DeserializeChunks now (c # cs) m =
     (let m = restore_handles now (sc_Path c) (sc_Info c) m;
          hs = map pc_Handle (sc_Info c)
      in DeserializeChunks now cs (m\<lparr>files := AList.update (sc_Path c) \<lparr>handles = hs\<rparr> (files m),
           numberOfCreatedChunkHandle := numberOfCreatedChunkHandle m + int (length hs)\<rparr>))"

end
