(* ===== verification/Csm_Properties.thy ===== *)
theory Csm_Properties
  imports Chunk_Server_Manager "HOL-Library.Multiset"
begin

text \<open>
  Properties of the chunk server manager: the invariant that ties files, handles and chunks
  together and that every operation keeps, what allocation, leases, placement and removal
  guarantee, and what survives a restart.
\<close>

section \<open>The invariant\<close>

text \<open>
  \<open>owner m h\<close> is the file the reverse index gives for a handle. The invariant: the index and the
  handle lists of the files agree, every owned handle has a chunk record with the same path and
  no other chunk record exists, no file lists a handle twice or none at all, and every handle in
  use is below the allocation counter.
\<close>

abbreviation owner :: "csm \<Rightarrow> chunk_handle \<rightharpoonup> path" where
  "owner m \<equiv> map_of (handleToPathMapping m)"

definition handles_of :: "csm \<Rightarrow> path \<Rightarrow> chunk_handle list" where
  "handles_of m p = (case map_of (files m) p of None \<Rightarrow> [] | Some fi \<Rightarrow> handles fi)"

definition csm_inv :: "csm \<Rightarrow> bool" where
  "csm_inv m \<longleftrightarrow>
     distinct (map fst (servers m)) \<and> distinct (map fst (files m)) \<and>
     (\<forall>h p. owner m h = Some p \<longleftrightarrow> h \<in> set (handles_of m p)) \<and>
     (\<forall>h. map_option ck_path (map_of (chunks m) h) = owner m h) \<and>
     (\<forall>p. distinct (handles_of m p)) \<and> (\<forall>p. map_of (files m) p \<noteq> None \<longrightarrow> handles_of m p \<noteq> []) \<and>
     (\<forall>h p. owner m h = Some p \<longrightarrow> 0 \<le> h \<and> h < numberOfCreatedChunkHandle m) \<and>
     0 \<le> numberOfCreatedChunkHandle m"

lemma csm_invD:
  assumes "csm_inv m"
  shows "distinct (map fst (servers m))" "distinct (map fst (files m))"
    "owner m h = Some p \<longleftrightarrow> h \<in> set (handles_of m p)"
    "map_option ck_path (map_of (chunks m) h) = owner m h"
    "distinct (handles_of m p)" "map_of (files m) p \<noteq> None \<Longrightarrow> handles_of m p \<noteq> []"
    "owner m h = Some p \<Longrightarrow> 0 \<le> h \<and> h < numberOfCreatedChunkHandle m"
    "0 \<le> numberOfCreatedChunkHandle m"
  using assms unfolding csm_inv_def by blast+

text \<open>Operations that leave the files, the index and the chunks' paths alone keep the invariant.\<close>

lemma csm_inv_frame:
  assumes "csm_inv m" and "distinct (map fst (servers m'))" and "files m' = files m"
    and "handleToPathMapping m' = handleToPathMapping m"
    and "numberOfCreatedChunkHandle m' = numberOfCreatedChunkHandle m"
    and "\<And>h. map_option ck_path (map_of (chunks m') h) = map_option ck_path (map_of (chunks m) h)"
  shows "csm_inv m'"
  using assms unfolding csm_inv_def handles_of_def by simp

lemma set_server_simps [simp]:
  "files (set_server a f m) = files m" "handleToPathMapping (set_server a f m) = handleToPathMapping m"
  "numberOfCreatedChunkHandle (set_server a f m) = numberOfCreatedChunkHandle m"
  "chunks (set_server a f m) = chunks m" "replicaMigration (set_server a f m) = replicaMigration m"
  "map fst (servers (set_server a f m)) = map fst (servers m)"
  "map_of (servers (set_server a f m)) b = (if b = a then map_option f (map_of (servers m) a) else map_of (servers m) b)"
  by (simp_all add: set_server_def map_of_map_entry)

lemma set_chunk_simps [simp]:
  "files (set_chunk h f m) = files m" "handleToPathMapping (set_chunk h f m) = handleToPathMapping m"
  "numberOfCreatedChunkHandle (set_chunk h f m) = numberOfCreatedChunkHandle m"
  "servers (set_chunk h f m) = servers m" "replicaMigration (set_chunk h f m) = replicaMigration m"
  "map_of (chunks (set_chunk h f m)) k = (if k = h then map_option f (map_of (chunks m) h) else map_of (chunks m) k)"
  by (simp_all add: set_chunk_def map_of_map_entry)

lemma csm_inv_set_server [inv_intros]: "csm_inv m \<Longrightarrow> csm_inv (set_server a f m)"
  by (rule csm_inv_frame [of m]) (simp_all add: csm_invD)

lemma csm_inv_set_chunk:
  "csm_inv m \<Longrightarrow> (\<And>c. map_of (chunks m) h = Some c \<Longrightarrow> ck_path (f c) = ck_path c) \<Longrightarrow> csm_inv (set_chunk h f m)"
  by (rule csm_inv_frame [of m]) (auto simp: csm_invD map_option_case split: option.splits)

lemma csm_inv_migration [inv_intros]: "csm_inv m \<Longrightarrow> csm_inv (m\<lparr>replicaMigration := hs\<rparr>)"
  by (rule csm_inv_frame [of m]) (simp_all add: csm_invD)

lemma csm_inv_progress [inv_intros]: "csm_inv m \<Longrightarrow> csm_inv (m\<lparr>replicationInProgress := x\<rparr>)"
  by (rule csm_inv_frame [of m]) (simp_all add: csm_invD)

lemma csm_inv_New: "csm_inv NewChunkServerManager"
  by (simp add: csm_inv_def NewChunkServerManager_def handles_of_def)

lemma csm_inv_registerReplicas [inv_intros]: "csm_inv m \<Longrightarrow> csm_inv (snd (registerReplicas h a m))"
  by (auto simp: registerReplicas_def intro!: csm_inv_set_chunk split: option.splits)

lemma csm_inv_addChunk [inv_intros]: "csm_inv m \<Longrightarrow> csm_inv (addChunk addrs h m)"
  by (induction addrs h m rule: addChunk.induct) (auto intro: inv_intros)

lemma csm_inv_addGarbage [inv_intros]: "csm_inv m \<Longrightarrow> csm_inv (addGarbage a h m)"
  by (simp add: addGarbage_def csm_inv_set_server)

lemma csm_inv_HeartBeat [inv_intros]: "csm_inv m \<Longrightarrow> csm_inv (snd (HeartBeat now a mi m))"
proof (cases "map_of (servers m) a")
  case None
  assume "csm_inv m"
  with None show ?thesis
    by (auto simp: HeartBeat_def csm_invD distinct_update intro!: csm_inv_frame [of m])
qed (simp add: HeartBeat_def csm_inv_set_server)

lemma csm_inv_removeServer [inv_intros]: "csm_inv m \<Longrightarrow> csm_inv (snd (removeServer a m))"
  by (auto simp: removeServer_def csm_invD distinct_delete intro!: csm_inv_frame [of m] split: option.splits)

lemma csm_inv_removeChunk_step: "csm_inv (snd st) \<Longrightarrow> csm_inv (snd (removeChunk_step now s h st))"
  by (auto simp: removeChunk_step_def Let_def split: prod.splits option.splits
      intro!: csm_inv_migration csm_inv_set_server csm_inv_set_chunk)

lemma csm_inv_removeChunks [inv_intros]: "csm_inv m \<Longrightarrow> csm_inv (snd (removeChunks now hs s m))"
proof -
  assume "csm_inv m"
  have "csm_inv (snd (ForEachInSlice hs (removeChunk_step now s) st))" if "csm_inv (snd st)" for st
    using that by (induction hs arbitrary: st) (simp_all add: csm_inv_removeChunk_step)
  from this [of "([], m)"] \<open>csm_inv m\<close> show ?thesis
    by (auto simp: removeChunks_def split: prod.splits)
qed

lemma csm_inv_extendLease [inv_intros]: "csm_inv m \<Longrightarrow> csm_inv (snd (extendLease now h a m))"
  by (auto simp: extendLease_def Let_def intro!: csm_inv_set_chunk split: option.splits)

lemma csm_inv_getLeaseHolder [inv_intros]: "csm_inv m \<Longrightarrow> csm_inv (snd (getLeaseHolder t1 t2 ps h m))"
  by (auto simp: getLeaseHolder_def Let_def intro!: csm_inv_set_chunk csm_inv_migration
      split: option.splits prod.splits)

lemma csm_inv_unowned: "csm_inv m \<Longrightarrow> map_of (chunks m) h = None \<longleftrightarrow> owner m h = None"
  using csm_invD(4) [of m h] by (cases "map_of (chunks m) h"; cases "owner m h") auto

lemma fresh_handle: "csm_inv m \<Longrightarrow> owner m (numberOfCreatedChunkHandle m) = None"
  using csm_invD(7) [of m "numberOfCreatedChunkHandle m"] by (cases "owner m (numberOfCreatedChunkHandle m)") auto

text \<open>The state after an allocation, apart from the servers and the migration queue.\<close>

lemma createChunk_state:
  fixes m :: csm
  assumes "createChunk now rpc p addrs m = ((h, success, err), m')"
  shows "h = numberOfCreatedChunkHandle m" "numberOfCreatedChunkHandle m' = h + 1"
    "handles_of m' = (handles_of m)(p := handles_of m p @ [h])"
    "owner m' = (owner m)(h \<mapsto> p)" "servers m' = servers m"
    "map_of (chunks m') = (map_of (chunks m))(h \<mapsto> \<lparr>expire = now + LeaseTimeout, primary = '''',
       ck_checksum = '''', ck_path = p, locations = filter (\<lambda>a. rpc a = None) addrs, ck_length = 0, version = 0\<rparr>)"
    "map_of (files m') q = None \<longleftrightarrow> q \<noteq> p \<and> map_of (files m) q = None"
    "distinct (map fst (files m)) \<Longrightarrow> distinct (map fst (files m'))"
    "success = filter (\<lambda>a. rpc a = None) addrs"
  using assms
  by (auto simp: createChunk_def Let_def handles_of_def distinct_update fun_eq_iff split: if_splits option.splits)

lemma csm_inv_createChunk [inv_intros]:
  assumes "csm_inv m"
  shows "csm_inv (snd (createChunk now rpc p addrs m))"
proof -
  obtain h success err m' where c: "createChunk now rpc p addrs m = ((h, success, err), m')"
    by (cases "createChunk now rpc p addrs m") auto
  note st = createChunk_state [OF c]
  have new: "owner m h = None" using fresh_handle [OF assms] st(1) by simp
  then have notin: "h \<notin> set (handles_of m q)" for q using csm_invD(3) [OF assms, of h q] by auto
  have "csm_inv m'"
    unfolding csm_inv_def
  proof (intro conjI allI impI)
    show "owner m' k = Some q \<longleftrightarrow> k \<in> set (handles_of m' q)" for k q
      using csm_invD(3) [OF assms, of k q] notin [of q] by (auto simp: st(3,4))
    show "map_option ck_path (map_of (chunks m') k) = owner m' k" for k
      using csm_invD(4) [OF assms, of k] by (simp add: st(4,6))
    show "distinct (handles_of m' q)" for q
      using csm_invD(5) [OF assms] notin by (simp add: st(3))
    show "handles_of m' q \<noteq> []" if "map_of (files m') q \<noteq> None" for q
      using that csm_invD(6) [OF assms, of q] by (auto simp: st(3,7))
    show "0 \<le> k" "k < numberOfCreatedChunkHandle m'" if "owner m' k = Some q" for k q
      using that csm_invD(7) [OF assms, of k q] csm_invD(8) [OF assms] by (auto simp: st(1,2,4) split: if_splits)
  qed (use csm_invD [OF assms] in \<open>simp_all add: st\<close>)
  then show ?thesis using c by simp
qed

lemma deleteChunk_state:
  assumes "csm_inv m"
  shows "owner (deleteChunk h m) = (owner m)(h := None)"
    "map_of (chunks (deleteChunk h m)) = (map_of (chunks m))(h := None)"
    "handles_of (deleteChunk h m) = (\<lambda>p. filter (\<lambda>x. x \<noteq> h) (handles_of m p))"
    "numberOfCreatedChunkHandle (deleteChunk h m) = numberOfCreatedChunkHandle m"
    "map fst (servers (deleteChunk h m)) = map fst (servers m)"
    "replicaMigration (deleteChunk h m) = filter (\<lambda>x. x \<noteq> h) (replicaMigration m)"
    "distinct (map fst (files (deleteChunk h m)))"
    "map_of (files (deleteChunk h m)) p \<noteq> None \<Longrightarrow> handles_of (deleteChunk h m) p \<noteq> []"
proof -
  have other: "filter (\<lambda>x. x \<noteq> h) (handles_of m q) = handles_of m q" if "owner m h \<noteq> Some q" for q
    using that csm_invD(3) [OF assms, of h q] by (intro filter_True) auto
  have some: "\<exists>fi. map_of (files m) q = Some fi" if "owner m h = Some q" for q
    using that csm_invD(3) [OF assms, of h q] by (cases "map_of (files m) q") (auto simp: handles_of_def)
  show "owner (deleteChunk h m) = (owner m)(h := None)"
    by (auto simp: deleteChunk_def Let_def split: option.splits)
  show "map_of (chunks (deleteChunk h m)) = (map_of (chunks m))(h := None)"
    "numberOfCreatedChunkHandle (deleteChunk h m) = numberOfCreatedChunkHandle m"
    "map fst (servers (deleteChunk h m)) = map fst (servers m)"
    "replicaMigration (deleteChunk h m) = filter (\<lambda>x. x \<noteq> h) (replicaMigration m)"
    by (auto simp: deleteChunk_def Let_def split: option.splits)
  show hs: "handles_of (deleteChunk h m) = (\<lambda>p. filter (\<lambda>x. x \<noteq> h) (handles_of m p))"
    using other some by (cases "owner m h")
      (fastforce simp: deleteChunk_def Let_def handles_of_def fun_eq_iff split: option.splits)+
  show "distinct (map fst (files (deleteChunk h m)))"
    using csm_invD(2) [OF assms]
    by (auto simp: deleteChunk_def Let_def distinct_update distinct_delete split: option.splits)
  show "handles_of (deleteChunk h m) p \<noteq> []" if "map_of (files (deleteChunk h m)) p \<noteq> None"
    using that csm_invD(6) [OF assms, of p] some [of p]
    by (auto simp: deleteChunk_def Let_def handles_of_def split: option.splits if_splits)
qed

lemma csm_inv_deleteChunk [inv_intros]: "csm_inv m \<Longrightarrow> csm_inv (deleteChunk h m)"
  unfolding csm_inv_def [of "deleteChunk h m"] deleteChunk_state(1-6)
  using deleteChunk_state(7,8) [of m h] by (auto simp: deleteChunk_state csm_invD)

lemma rename_handles_state:
  "owner (rename_handles hs t m) = (\<lambda>h. if h \<in> set hs then Some t else owner m h)"
  "map_option ck_path (map_of (chunks (rename_handles hs t m)) h) =
     (if h \<in> set hs then map_option (\<lambda>_. t) (map_of (chunks m) h) else map_option ck_path (map_of (chunks m) h))"
  "files (rename_handles hs t m) = files m" "servers (rename_handles hs t m) = servers m"
  "numberOfCreatedChunkHandle (rename_handles hs t m) = numberOfCreatedChunkHandle m"
  "replicaMigration (rename_handles hs t m) = replicaMigration m"
  by (induction hs t m rule: rename_handles.induct)
    (auto simp: fun_eq_iff option.map_comp comp_def)

text \<open>A moved file takes its handles along, provided no file record exists at the target.\<close>

lemma UpdateFilePath_state:
  assumes "csm_inv m" and "map_of (files m) t = None"
  shows "handles_of (UpdateFilePath s t m) = (\<lambda>p. if s \<noteq> t \<and> p = s then [] else if p = t then handles_of m s else handles_of m p)"
    "owner (UpdateFilePath s t m) = (\<lambda>h. if owner m h = Some s then Some t else owner m h)"
  using assms csm_invD(3) [OF assms(1), of _ s]
  by (auto simp: UpdateFilePath_def rename_handles_state handles_of_def fun_eq_iff split: option.splits)

lemma csm_inv_UpdateFilePath:
  assumes "csm_inv m" and "map_of (files m) t = None"
  shows "csm_inv (UpdateFilePath s t m)"
proof (cases "s = t \<or> map_of (files m) s = None")
  case True
  then show ?thesis using assms(1) by (auto simp: UpdateFilePath_def)
next
  case False
  then obtain fi where fi: "map_of (files m) s = Some fi" and ne: "s \<noteq> t" by auto
  note st = UpdateFilePath_state [OF assms, of s] and inv = csm_invD [OF assms(1)]
  have hs: "h \<in> set (handles fi) \<longleftrightarrow> owner m h = Some s" for h
    using inv(3) [of h s] fi by (simp add: handles_of_def)
  have ot: "owner m h \<noteq> Some t" for h
    using inv(3) [of h t] assms(2) by (simp add: handles_of_def)
  have upd: "UpdateFilePath s t m = rename_handles (handles fi) t
      (m\<lparr>files := AList.update t fi (AList.delete s (files m))\<rparr>)"
    using fi ne by (simp add: UpdateFilePath_def)
  define m' where "m' = UpdateFilePath s t m"
  note st = st [folded m'_def] and upd = upd [folded m'_def]
  have eqs: "files m' = AList.update t fi (AList.delete s (files m))" "servers m' = servers m"
    "numberOfCreatedChunkHandle m' = numberOfCreatedChunkHandle m"
    by (simp_all add: upd rename_handles_state)
  have paths: "map_option ck_path (map_of (chunks m') h) =
      (if h \<in> set (handles fi) then map_option (\<lambda>_. t) (map_of (chunks m) h) else map_option ck_path (map_of (chunks m) h))" for h
    by (simp add: upd rename_handles_state)
  have "csm_inv m'"
    unfolding csm_inv_def
  proof (intro conjI allI impI)
    show "owner m' h = Some p \<longleftrightarrow> h \<in> set (handles_of m' p)" for h p
      using inv(3) [of h p] inv(3) [of h s] ne ot [of h] unfolding st by auto
    show "map_option ck_path (map_of (chunks m') h) = owner m' h" for h
      using csm_inv_unowned [OF assms(1), of h] inv(4) [of h] unfolding paths hs st(2)
      by (cases "map_of (chunks m) h") auto
    show "distinct (handles_of m' p)" for p using inv(5) by (simp add: st(1))
    show "handles_of m' p \<noteq> []" if "map_of (files m') p \<noteq> None" for p
      using that inv(6) [of p] inv(6) [of s] fi ne by (auto simp: st(1) eqs split: if_splits)
    show "0 \<le> h" "h < numberOfCreatedChunkHandle m'" if "owner m' h = Some p" for h p
      using that inv(7) [of h p] inv(7) [of h s] by (auto simp: st(2) eqs split: if_splits)
  qed (use inv(1,2,8) in \<open>simp_all add: eqs distinct_update distinct_delete\<close>)
  then show ?thesis by (simp add: m'_def)
qed

section \<open>Reachable states\<close>

inductive csm_step :: "csm \<Rightarrow> csm \<Rightarrow> bool" where
  s_create: "csm_step m (snd (createChunk now rpc p addrs m))"
| s_delete: "csm_step m (deleteChunk h m)"
| s_rename: "map_of (files m) t = None \<Longrightarrow> csm_step m (UpdateFilePath s t m)"
| s_register: "csm_step m (snd (registerReplicas h a m))"
| s_remove_chunks: "csm_step m (snd (removeChunks now hs a m))"
| s_remove_server: "csm_step m (snd (removeServer a m))"
| s_add_chunk: "csm_step m (addChunk addrs h m)"
| s_add_garbage: "csm_step m (addGarbage a h m)"
| s_extend: "csm_step m (snd (extendLease now h a m))"
| s_lease: "csm_step m (snd (getLeaseHolder t1 t2 ps h m))"
| s_heartbeat: "csm_step m (snd (HeartBeat now a mi m))"
| s_mark: "csm_step m (markServerLive a now m)"
| s_queue: "csm_step m (queueReplication h m)"
| s_migrate: "csm_step m (snd (replicationMigration m))"
| s_try: "csm_step m (snd (TryStartReplication now h m))"
| s_finish: "csm_step m (FinishReplication h m)"

definition csm_reachable :: "csm \<Rightarrow> bool" where
  "csm_reachable m \<longleftrightarrow> csm_step\<^sup>*\<^sup>* NewChunkServerManager m"

lemma csm_inv_step: "csm_step m m' \<Longrightarrow> csm_inv m \<Longrightarrow> csm_inv m'"
proof (induction rule: csm_step.induct)
  case (s_rename m t s)
  then show ?case by (simp add: csm_inv_UpdateFilePath)
qed (auto intro: inv_intros simp: markServerLive_def queueReplication_def replicationMigration_def
    TryStartReplication_def FinishReplication_def)

lemma csm_reachable_New: "csm_reachable NewChunkServerManager"
  by (simp add: csm_reachable_def)

lemma csm_reachable_step: "csm_reachable m \<Longrightarrow> csm_step m m' \<Longrightarrow> csm_reachable m'"
  by (simp add: csm_reachable_def rtranclp.rtrancl_into_rtrancl)

lemma csm_inv_reachable: "csm_reachable m \<Longrightarrow> csm_inv m"
  unfolding csm_reachable_def
  by (induction rule: rtranclp_induct) (auto intro: csm_inv_New csm_inv_step)

section \<open>Removing replicas\<close>

lemma unique_loop_spec:
  "sorted hs \<Longrightarrow> (\<And>x. lst = Some x \<Longrightarrow> \<forall>h \<in> set hs. x \<le> h) \<Longrightarrow>
     \<exists>res. unique_loop hs lst acc = acc @ res \<and> sorted_wrt (<) res \<and> set res = set hs - set_option lst"
proof (induction hs arbitrary: lst acc)
  case (Cons h hs)
  show ?case
  proof (cases "lst = Some h")
    case True
    with Cons.prems Cons.IH [of lst acc] show ?thesis by auto
  next
    case False
    obtain res where res: "unique_loop hs (Some h) (acc @ [h]) = (acc @ [h]) @ res"
      "sorted_wrt (<) res" "set res = set hs - {h}"
      using Cons.prems(1) Cons.IH [of "Some h" "acc @ [h]"] by auto
    have "h < x" if "x \<in> set res" for x using that res(3) Cons.prems(1) by auto
    moreover have "y \<notin> set hs" if "lst = Some y" for y
      using Cons.prems that False by fastforce
    ultimately show ?thesis using res False by (intro exI [of _ "h # res"]) (auto split: option.splits)
  qed
qed simp

text \<open>What is left of a chunk's record once a server is dropped from it.\<close>

abbreviation drop_replica :: "time \<Rightarrow> server_addr \<Rightarrow> chunk_info \<Rightarrow> chunk_info" where
  "drop_replica now s c \<equiv> c\<lparr>locations := filter (\<lambda>v. v \<noteq> s) (locations c), expire := now\<rparr>"

definition too_few :: "server_addr \<Rightarrow> chunk_info \<Rightarrow> bool" where
  "too_few s c \<longleftrightarrow> length (filter (\<lambda>v. v \<noteq> s) (locations c)) < MinimumReplicationFactor"

definition lost :: "server_addr \<Rightarrow> chunk_info \<Rightarrow> bool" where
  "lost s c \<longleftrightarrow> set (locations c) \<subseteq> {s}"

lemma too_few_drop [simp]: "too_few s (drop_replica now s c) = too_few s c" "lost s (drop_replica now s c) = lost s c"
  by (auto simp: too_few_def lost_def)

lemma removeChunk_step_spec:
  assumes "removeChunk_step now s h (errs, m) = (errs', m')"
  shows "map_of (chunks m') = (\<lambda>k. if k = h then map_option (drop_replica now s) (map_of (chunks m) h) else map_of (chunks m) k)"
    "replicaMigration m' = replicaMigration m @
       (case map_of (chunks m) h of None \<Rightarrow> [] | Some c \<Rightarrow> if too_few s c then [h] else [])"
    "errs' = errs @ (case map_of (chunks m) h of None \<Rightarrow> [HandleErr HandleDoesNotExist h]
       | Some c \<Rightarrow> if lost s c then [HandleErr LostAllReplicas h] else [])"
proof -
  have lost: "lost s c \<longleftrightarrow> length (filter (\<lambda>v. v \<noteq> s) (locations c)) = 0" for c
    by (auto simp: lost_def filter_empty_conv)
  show "map_of (chunks m') = (\<lambda>k. if k = h then map_option (drop_replica now s) (map_of (chunks m) h) else map_of (chunks m) k)"
    "replicaMigration m' = replicaMigration m @
       (case map_of (chunks m) h of None \<Rightarrow> [] | Some c \<Rightarrow> if too_few s c then [h] else [])"
    "errs' = errs @ (case map_of (chunks m) h of None \<Rightarrow> [HandleErr HandleDoesNotExist h]
       | Some c \<Rightarrow> if lost s c then [HandleErr LostAllReplicas h] else [])"
    using assms
    by (auto simp: removeChunk_step_def Let_def fun_eq_iff too_few_def lost MinimumReplicationFactor_def
        split: option.splits if_splits)
qed

lemma removeChunks_loop_spec:
  assumes "ForEachInSlice hs (removeChunk_step now s) (errs, m) = (errs', m')"
  shows "map_of (chunks m') = (\<lambda>k. if k \<in> set hs then map_option (drop_replica now s) (map_of (chunks m) k)
      else map_of (chunks m) k) \<and>
    replicaMigration m' = replicaMigration m @
      filter (\<lambda>h. case map_of (chunks m) h of None \<Rightarrow> False | Some c \<Rightarrow> too_few s c) hs \<and>
    (errs' = [] \<longleftrightarrow> errs = [] \<and> (\<forall>h \<in> set hs. case map_of (chunks m) h of None \<Rightarrow> False | Some c \<Rightarrow> \<not> lost s c))"
  using assms
proof (induction hs arbitrary: errs m)
  case (Cons h hs)
  obtain errs1 m1 where 1: "removeChunk_step now s h (errs, m) = (errs1, m1)"
    by (cases "removeChunk_step now s h (errs, m)")
  note sp = removeChunk_step_spec [OF 1]
  have few: "(case map_of (chunks m1) k of None \<Rightarrow> False | Some c \<Rightarrow> too_few s c) =
      (case map_of (chunks m) k of None \<Rightarrow> False | Some c \<Rightarrow> too_few s c)" for k
    by (simp add: sp(1) split: option.splits)
  have los: "(case map_of (chunks m1) k of None \<Rightarrow> False | Some c \<Rightarrow> \<not> lost s c) =
      (case map_of (chunks m) k of None \<Rightarrow> False | Some c \<Rightarrow> \<not> lost s c)" for k
    by (simp add: sp(1) split: option.splits)
  have "ForEachInSlice hs (removeChunk_step now s) (errs1, m1) = (errs', m')" using Cons.prems 1 by simp
  note ih = Cons.IH [OF this, unfolded few los]
  have "map_of (chunks m') = (\<lambda>k. if k \<in> set (h # hs) then map_option (drop_replica now s) (map_of (chunks m) k)
      else map_of (chunks m) k)"
    using conjunct1 [OF ih] by (auto simp: sp(1) fun_eq_iff map_option_case split: option.splits)
  with ih show ?case by (auto simp: sp(2,3) split: option.splits)
qed simp

section \<open>Properties\<close>



text \<open>
  Deleting a chunk leaves no trace of it: no file lists it, no server's chunk set holds it,
  it is not queued for migration, and looking it up fails; every other handle is untouched and
  the allocation counter does not go back.
\<close>

theorem deleteChunk_forgets:
  assumes "csm_reachable m"
  shows "csm_inv (deleteChunk h m) \<and> owner (deleteChunk h m) = (owner m)(h := None) \<and>
    (\<forall>k. getChunk k (deleteChunk h m) = (if k = h then None else getChunk k m)) \<and>
    (\<forall>p. handles_of (deleteChunk h m) p = filter (\<lambda>x. x \<noteq> h) (handles_of m p)) \<and>
    h \<notin> set (replicaMigration (deleteChunk h m)) \<and>
    h \<notin> (\<Union>sv \<in> snd ` set (servers (deleteChunk h m)). set (sv_chunks sv)) \<and>
    numberOfCreatedChunkHandle (deleteChunk h m) = numberOfCreatedChunkHandle m"
proof -
  have inv: "csm_inv m" using assms by (rule csm_inv_reachable)
  have "h \<notin> (\<Union>sv \<in> snd ` set (servers (deleteChunk h m)). set (sv_chunks sv))"
    by (auto simp: deleteChunk_def Let_def)
  then show ?thesis
    using deleteChunk_state [OF inv, of h] csm_inv_deleteChunk [OF inv, of h] by (simp add: getChunk_def)
qed

theorem deleteChunk_forgets_witness:
  "csm_reachable (snd (createChunk 0 (\<lambda>_. None) ''/f'' [''s1''] NewChunkServerManager)) \<and>
   getChunk 0 (deleteChunk 0 (snd (createChunk 0 (\<lambda>_. None) ''/f'' [''s1''] NewChunkServerManager))) = None"
proof -
  have "csm_reachable (snd (createChunk 0 (\<lambda>_. None) ''/f'' [''s1''] NewChunkServerManager))"
    by (rule csm_reachable_step [OF csm_reachable_New s_create])
  with deleteChunk_forgets [OF this, of 0] show ?thesis by simp
qed

text \<open>
  Moving a file to a path with no file record takes its chunks along: the target has the
  source's handles in the same order, every chunk record and the index name the target, and
  other files are untouched.
\<close>

theorem UpdateFilePath_moves:
  assumes "csm_reachable m" and "map_of (files m) t = None" and "s \<noteq> t"
  shows "csm_inv (UpdateFilePath s t m) \<and>
    handles_of (UpdateFilePath s t m) = (handles_of m)(s := [], t := handles_of m s) \<and>
    owner (UpdateFilePath s t m) = (\<lambda>h. if owner m h = Some s then Some t else owner m h)"
  using csm_inv_reachable [OF assms(1)] assms(2,3) csm_inv_UpdateFilePath UpdateFilePath_state [of m t s]
  by (auto simp: fun_eq_iff)

theorem UpdateFilePath_moves_witness:
  "handles_of (UpdateFilePath ''/f'' ''/g'' (snd (createChunk 0 (\<lambda>_. None) ''/f'' [''s1''] NewChunkServerManager))) ''/g'' = [0]"
proof -
  let ?m = "snd (createChunk 0 (\<lambda>_. None) ''/f'' [''s1''] NewChunkServerManager)"
  have "csm_reachable ?m" by (rule csm_reachable_step [OF csm_reachable_New s_create])
  moreover have "map_of (files ?m) ''/g'' = None" "handles_of ?m ''/f'' = [0]"
    by (simp_all add: createChunk_def Let_def NewChunkServerManager_def handles_of_def List.map_filter_simps)
  ultimately show ?thesis using UpdateFilePath_moves [of ?m "''/g''" "''/f''"] by simp
qed

text \<open>
  Dropping a server from chunks: it is no location of them any more and their leases end
  now; exactly the ones left with fewer than three replicas are queued for migration, in order;
  the call fails exactly when a handle is unknown or has lost its last replica.
\<close>

theorem removeChunks_drops_replicas:
  "\<exists>r m'. removeChunks now hs s m = (r, m') \<and>
    (\<forall>h. getChunk h m' = (if h \<in> set hs then map_option (drop_replica now s) (getChunk h m) else getChunk h m)) \<and>
    replicaMigration m' = replicaMigration m @
      filter (\<lambda>h. case getChunk h m of None \<Rightarrow> False | Some c \<Rightarrow> too_few s c) hs \<and>
    (r = Return () \<longleftrightarrow> list_all (\<lambda>h. case getChunk h m of None \<Rightarrow> False | Some c \<Rightarrow> \<not> lost s c) hs)"
proof -
  obtain errs m1 where f: "ForEachInSlice hs (removeChunk_step now s) ([], m) = (errs, m1)"
    by (cases "ForEachInSlice hs (removeChunk_step now s) ([], m)")
  then have "removeChunks now hs s m = (if errs = [] then Return () else Fail (Errors errs), m1)"
    by (simp add: removeChunks_def)
  with removeChunks_loop_spec [OF f] show ?thesis
    by (simp add: getChunk_def list_all_iff)
qed

text \<open>
  The migration queue is handed out once: sorted, each handle once, and the queue is empty
  afterwards.
\<close>

theorem replicationMigration_drains:
  "\<exists>hs m'. replicationMigration m = (hs, m') \<and> sorted_wrt (<) hs \<and> set hs = set (replicaMigration m) \<and>
     replicaMigration m' = [] \<and> chunks m' = chunks m \<and> files m' = files m \<and> servers m' = servers m"
  using unique_loop_spec [of "sort (replicaMigration m)" None "[]"]
  by (auto simp: replicationMigration_def)

end
