(* ===== verification/Csm_Leases.thy ===== *)
theory Csm_Leases
  imports Csm_Properties
begin

text \<open>
  Leases, placement of replicas, liveness of servers and restart of the chunk server manager.
\<close>

section \<open>Leases\<close>

text \<open>
  C21. A lease whose term has run out, with at least three current replicas: the new lease goes
  to the replica that answered first, the secondaries are the other current ones, the stale
  servers are reported and are no locations any more, and lease and record expire together.
\<close>

theorem getLeaseHolder_renews:
  assumes "getChunk h m = Some chk" and "isExpired chk now1" and "distinct (map fst probes)"
    and "map fst (filter snd probes) = g # gs" and "MinimumReplicationFactor \<le> length (g # gs)" and "g \<noteq> ''''"
  shows "\<exists>ls m' chk'. getLeaseHolder now1 now2 probes h m =
      (Return (ls, map fst (filter (\<lambda>x. \<not> snd x) probes)), m') \<and>
    l_Primary ls = g \<and> l_Secondaries ls = gs \<and> l_Handle ls = h \<and> l_Expire ls = now2 + LeaseTimeout \<and>
    getChunk h m' = Some chk' \<and> locations chk' = g # gs \<and> primary chk' = g \<and> expire chk' = l_Expire ls \<and>
    version chk' = version chk \<and> replicaMigration m' = replicaMigration m"
proof -
  have "distinct (g # gs)" using assms(3) unfolding assms(4) [symmetric] by (simp add: distinct_map_filter)
  then have "filter (\<lambda>v. v \<noteq> g) gs = gs" by (auto intro: filter_True)
  with assms show ?thesis
    by (simp add: getLeaseHolder_def getChunk_def Let_def isExpired_def)
qed

theorem getLeaseHolder_renews_witness:
  "\<exists>ls m'. getLeaseHolder (LeaseTimeout + 1) (LeaseTimeout + 2)
      [(''b'', True), (''a'', False), (''c'', True), (''d'', True)] 0
      (snd (createChunk 0 (\<lambda>_. None) ''/f'' [''a'', ''b'', ''c'', ''d''] NewChunkServerManager)) =
     (Return (ls, [''a'']), m') \<and> l_Primary ls = ''b'' \<and> l_Secondaries ls = [''c'', ''d'']"
proof -
  let ?m = "snd (createChunk 0 (\<lambda>_. None) ''/f'' [''a'', ''b'', ''c'', ''d''] NewChunkServerManager)"
  have c: "getChunk 0 ?m = Some \<lparr>expire = LeaseTimeout, primary = '''', ck_checksum = '''', ck_path = ''/f'',
      locations = [''a'', ''b'', ''c'', ''d''], ck_length = 0, version = 0\<rparr>"
    by (simp add: createChunk_def Let_def NewChunkServerManager_def getChunk_def List.map_filter_simps)
  show ?thesis
    using getLeaseHolder_renews [OF c, of "LeaseTimeout + 1"
        "[(''b'', True), (''a'', False), (''c'', True), (''d'', True)]" "''b''" "[''c'', ''d'']" "LeaseTimeout + 2"]
    by (auto simp: isExpired_def MinimumReplicationFactor_def)
qed

text \<open>
  C22. With one or two current replicas left the old primary is kept even when its own probe
  failed or found it stale: the lease then names a server that is no location of the chunk, and
  the same call reports it as stale.
\<close>

theorem getLeaseHolder_keeps_stale_primary:
  assumes "getChunk h m = Some chk" and "isExpired chk now1" and "distinct (map fst probes)"
    and "(primary chk, False) \<in> set probes" and "primary chk \<noteq> ''''"
    and "map fst (filter snd probes) \<noteq> []"
    and "length (filter snd probes) < MinimumReplicationFactor"
  shows "\<exists>ls stale m' chk'. getLeaseHolder now1 now2 probes h m = (Return (ls, stale), m') \<and>
    l_Primary ls = primary chk \<and> primary chk \<in> set stale \<and>
    getChunk h m' = Some chk' \<and> primary chk \<notin> set (locations chk') \<and>
    replicaMigration m' = replicaMigration m @ [h]"
proof -
  have "primary chk \<notin> set (map fst (filter snd probes))"
    using assms(3,4) by (auto dest: eq_key_imp_eq_value)
  moreover have "primary chk \<in> set (map fst (filter (\<lambda>x. \<not> snd x) probes))"
    using assms(4) by force
  ultimately show ?thesis
    using assms(1,2,5-7) by (simp add: getLeaseHolder_def getChunk_def Let_def isExpired_def)
qed

definition stale_primary_state :: csm where
  "stale_primary_state = NewChunkServerManager\<lparr>chunks := [(7, \<lparr>expire = 0, primary = ''a'', ck_checksum = '''',
     ck_path = ''/f'', locations = [''a'', ''b''], ck_length = 0, version = 1\<rparr>)]\<rparr>"

theorem getLeaseHolder_keeps_stale_primary_witness:
  "\<exists>ls stale m'. getLeaseHolder 1 2 [(''a'', False), (''b'', True)] 7 stale_primary_state = (Return (ls, stale), m') \<and>
     l_Primary ls = ''a'' \<and> ''a'' \<in> set stale"
proof -
  have c: "getChunk 7 stale_primary_state = Some \<lparr>expire = 0, primary = ''a'', ck_checksum = '''',
     ck_path = ''/f'', locations = [''a'', ''b''], ck_length = 0, version = 1\<rparr>"
    by (simp add: stale_primary_state_def getChunk_def)
  show ?thesis
    using getLeaseHolder_keeps_stale_primary [OF c, of 1 "[(''a'', False), (''b'', True)]" 2]
    by (auto simp: isExpired_def MinimumReplicationFactor_def)
qed

section \<open>Placement\<close>

lemma GetLiveServers_eq: "GetLiveServers now m = map fst (filter (\<lambda>x. is_live now (snd x)) (servers m))"
proof -
  have "IterateOverMap al (\<lambda>addr sv all. if is_live now sv then all @ [addr] else all) acc =
      acc @ map fst (filter (\<lambda>x. is_live now (snd x)) al)" for al :: "(server_addr \<times> chunk_server_info) list" and acc
    by (induction al arbitrary: acc) auto
  then show ?thesis by (simp add: GetLiveServers_def)
qed

text \<open>
  Choosing servers for a new chunk: with enough servers the result is as many distinct known
  servers as asked for, whatever permutation is drawn; with too few the call fails.
\<close>

theorem chooseServers_distinct:
  assumes "distinct (map fst (servers m))" and "mset perm = mset [0..<length (servers m)]" and "0 \<le> num"
  shows "case chooseServers perm num m of
      Return addrs \<Rightarrow> num \<le> int (length (servers m)) \<and> int (length addrs) = num \<and> distinct addrs \<and>
        set addrs \<subseteq> fst ` set (servers m)
    | Fail e \<Rightarrow> e = NotEnoughServers num \<and> int (length (servers m)) < num
    | _ \<Rightarrow> False"
proof (cases "num \<le> int (length (servers m))")
  case True
  define arr where "arr = map (\<lambda>(a, sv). (a, RoundTripProximityTime (serverInfo sv))) (servers m)"
  define al where "al = map fst (sort_key snd arr)"
  have fst_arr: "map fst arr = map fst (servers m)" by (simp add: arr_def case_prod_beta)
  have "mset al = mset (map fst (servers m))"
    using fst_arr by (metis al_def mset_map mset_sort)
  then have al: "distinct al" "set al = fst ` set (servers m)" "length al = length (servers m)"
    using assms(1) by (metis mset_eq_imp_distinct_iff, metis list.set_map set_mset_mset, metis length_map size_mset)
  have perm: "distinct perm" "set perm = {0..<length al}" "length perm = length al"
    using assms(2) al(3) by (metis distinct_upt mset_eq_imp_distinct_iff, metis atLeastLessThan_upt set_mset_mset,
      metis length_upt minus_nat.diff_0 size_mset)
  let ?c = "take (nat num) perm"
  have eq: "chooseServers perm num m = Return (map (\<lambda>v. al ! v) ?c)"
    using True assms(3) al(3) by (simp add: chooseServers_def Sample_def al_def arr_def Let_def)
  have sub: "set ?c \<subseteq> {0..<length al}" using perm(2) set_take_subset by metis
  have "inj_on (\<lambda>v. al ! v) (set ?c)" using sub al(1) by (auto simp: inj_on_def nth_eq_iff_index_eq subset_iff)
  moreover have "distinct ?c" using perm(1) by simp
  ultimately have "distinct (map (\<lambda>v. al ! v) ?c)" by (simp add: distinct_map)
  moreover have "set (map (\<lambda>v. al ! v) ?c) \<subseteq> fst ` set (servers m)"
    using sub unfolding al(2) [symmetric] by (auto simp: subset_iff)
  moreover have "int (length ?c) = num" using True assms(3) perm(3) al(3) by simp
  ultimately show ?thesis using True unfolding eq by (simp only: outcome.case length_map simp_thms)
qed (simp add: chooseServers_def)

definition three_servers :: csm where
  "three_servers = NewChunkServerManager\<lparr>servers := map (\<lambda>a. (a, \<lparr>lastHeartBeat = Some 0, sv_chunks = [],
     garbages = [], serverInfo = \<lparr>Hostname = a, RoundTripProximityTime = 1\<rparr>\<rparr>)) [''a'', ''b'', ''c'']\<rparr>"

theorem chooseServers_distinct_witness:
  "case chooseServers [2, 0, 1] 2 three_servers of Return addrs \<Rightarrow> distinct addrs \<and> length addrs = 2 | _ \<Rightarrow> False"
proof -
  have "distinct (map fst (servers three_servers))" "length (servers three_servers) = 3"
    by (simp_all add: three_servers_def)
  moreover have "mset [2, 0, 1] = mset [0..<3 :: nat]" by (simp add: numeral_eq_Suc)
  ultimately show ?thesis
    using chooseServers_distinct [of three_servers "[2, 0, 1]" 2] by (auto split: outcome.splits)
qed

text \<open>
  Choosing where to copy a chunk: the source is a live server that holds it, the target a
  live server that does not; when both exist (servers have non-empty addresses) the call
  succeeds.
\<close>

theorem chooseReplicationServer_sound_complete:
  assumes "getReplicas h m = Return locs" and "'''' \<notin> set (GetLiveServers now m)"
  shows "(\<forall>from to. chooseReplicationServer now h m = Return (from, to) \<longrightarrow>
      from \<in> set locs \<and> from \<in> set (GetLiveServers now m) \<and> to \<in> set (GetLiveServers now m) \<and> to \<notin> set locs) \<and>
    ((\<exists>p. chooseReplicationServer now h m = Return p) \<longleftrightarrow>
      set locs \<inter> set (GetLiveServers now m) \<noteq> {} \<and> \<not> set (GetLiveServers now m) \<subseteq> set locs)"
proof -
  let ?live = "GetLiveServers now m"
  let ?f = "find (\<lambda>a. a \<noteq> '''' \<and> a \<in> set ?live) locs" and ?t = "find (\<lambda>a. a \<notin> set locs) ?live"
  have from_iff: "?f = None \<longleftrightarrow> set locs \<inter> set ?live = {}"
    using assms(2) by (auto simp: find_None_iff)
  have to_iff: "?t = None \<longleftrightarrow> set ?live \<subseteq> set locs" by (auto simp: find_None_iff)
  have f: "a \<in> set locs \<and> a \<in> set ?live \<and> a \<noteq> ''''" if "?f = Some a" for a
    using that by (auto simp: find_Some_iff)
  have t: "a \<notin> set locs \<and> a \<in> set ?live \<and> a \<noteq> ''''" if "?t = Some a" for a
    using that assms(2) by (metis (mono_tags, lifting) find_Some_iff nth_mem)
  show ?thesis
  proof (cases "?f = None \<or> ?t = None")
    case True
    then have "\<not> (\<exists>p. chooseReplicationServer now h m = Return p)"
      using assms(1) by (auto simp: chooseReplicationServer_def Let_def split: if_splits option.splits)
    then show ?thesis using True from_iff to_iff by auto
  next
    case False
    then obtain a b where ab: "?f = Some a" "?t = Some b" by auto
    then have "chooseReplicationServer now h m = Return (a, b)"
      using assms(1) f [OF ab(1)] t [OF ab(2)] by (auto simp: chooseReplicationServer_def Let_def)
    then show ?thesis using ab f [OF ab(1)] t [OF ab(2)] from_iff to_iff by auto
  qed
qed

theorem chooseReplicationServer_sound_complete_witness:
  "\<exists>p. chooseReplicationServer 1 0
     (snd (createChunk 0 (\<lambda>_. None) ''/f'' [''b''] three_servers)) = Return p"
proof -
  let ?m = "snd (createChunk 0 (\<lambda>_. None) ''/f'' [''b''] three_servers)"
  have n: "numberOfCreatedChunkHandle three_servers = 0" "files three_servers = []" "chunks three_servers = []"
    "handleToPathMapping three_servers = []"
    by (simp_all add: three_servers_def NewChunkServerManager_def)
  then have l: "getReplicas 0 ?m = Return [''b'']" "servers ?m = servers three_servers"
    by (simp_all add: createChunk_def Let_def getReplicas_def List.map_filter_simps)
  then have v: "GetLiveServers 1 ?m = [''a'', ''b'', ''c'']"
    by (simp add: GetLiveServers_eq three_servers_def is_live_def ServerHealthCheckTimeout_def Second_def)
  show ?thesis
    using chooseReplicationServer_sound_complete [OF l(1), of 1] unfolding v by simp
qed

section \<open>Liveness and garbage\<close>

text \<open>
  At any moment every known server is either dead or live, never both; a server that has
  just sent a heartbeat is live for the whole health-check timeout.
\<close>

theorem dead_or_live:
  fixes m :: csm
  assumes "distinct (map fst (servers m))"
  shows "set (detectDeadServer now m) \<union> set (GetLiveServers now m) = fst ` set (servers m) \<and>
    set (detectDeadServer now m) \<inter> set (GetLiveServers now m) = {} \<and>
    (now \<le> t \<and> t < now + ServerHealthCheckTimeout \<longrightarrow>
       a \<in> set (GetLiveServers t (snd (HeartBeat now a mi m))))"
proof -
  have dead: "detectDeadServer now m = map fst (filter (\<lambda>x. \<not> is_live now (snd x)) (servers m))"
    unfolding detectDeadServer_def
    by (rule arg_cong [where f = "map fst"], rule filter_cong)
      (auto simp: is_live_def not_less split: option.splits)
  have "a \<in> set (GetLiveServers t (snd (HeartBeat now a mi m)))"
    if "now \<le> t" "t < now + ServerHealthCheckTimeout"
  proof -
    obtain sv where "map_of (servers (snd (HeartBeat now a mi m))) a = Some sv" "lastHeartBeat sv = Some now"
      by (cases "map_of (servers m) a") (auto simp: HeartBeat_def)
    then show ?thesis
      using that by (force simp: GetLiveServers_eq is_live_def dest: map_of_SomeD)
  qed
  with assms show ?thesis
    unfolding dead GetLiveServers_eq by (auto dest: eq_key_imp_eq_value)
qed

theorem dead_or_live_witness:
  "distinct (map fst (servers three_servers)) \<and>
   ''a'' \<in> set (GetLiveServers 5 (snd (HeartBeat 5 ''a'' \<lparr>Hostname = ''a'', RoundTripProximityTime = 1\<rparr> three_servers)))"
proof -
  have d: "distinct (map fst (servers three_servers))" by (simp add: three_servers_def)
  with dead_or_live [OF d, of 5 5 "''a''" "\<lparr>Hostname = ''a'', RoundTripProximityTime = 1\<rparr>"] show ?thesis
    by (simp add: ServerHealthCheckTimeout_def Second_def)
qed

text \<open>
  Garbage is delivered once: what was queued for a known server since its last heartbeat
  comes with its next one, in order, and a further heartbeat delivers nothing.
\<close>

theorem HeartBeat_delivers_garbage_once:
  assumes "map_of (servers m) a = Some sv" and "garbages sv = []"
  shows "\<exists>m'. HeartBeat now a mi (foldl (\<lambda>m h. addGarbage a h m) m hs) = ((False, hs), m') \<and>
    fst (HeartBeat now' a mi m') = (False, []) \<and> map fst (servers m') = map fst (servers m)"
proof -
  have fold: "map_of (servers (foldl (\<lambda>m h. addGarbage a h m) m hs)) a = Some (sv\<lparr>garbages := garbages sv @ hs\<rparr>) \<and>
      map fst (servers (foldl (\<lambda>m h. addGarbage a h m) m hs)) = map fst (servers m)"
    if "map_of (servers m) a = Some sv" for m sv
    using that
  proof (induction hs arbitrary: m sv)
    case (Cons h hs)
    have "map_of (servers (addGarbage a h m)) a = Some (sv\<lparr>garbages := garbages sv @ [h]\<rparr>)"
      using Cons.prems by (simp add: addGarbage_def)
    from Cons.IH [OF this] show ?case by (simp add: addGarbage_def)
  qed simp
  from fold [OF assms(1)] assms(2) show ?thesis by (simp add: HeartBeat_def)
qed

theorem HeartBeat_delivers_garbage_once_witness:
  "\<exists>m'. HeartBeat 1 ''a'' \<lparr>Hostname = ''a'', RoundTripProximityTime = 1\<rparr>
      (foldl (\<lambda>m h. addGarbage ''a'' h m) three_servers [4, 9]) = ((False, [4, 9]), m')"
proof -
  have "map_of (servers three_servers) ''a'' = Some \<lparr>lastHeartBeat = Some 0, sv_chunks = [], garbages = [],
      serverInfo = \<lparr>Hostname = ''a'', RoundTripProximityTime = 1\<rparr>\<rparr>"
    by (simp add: three_servers_def)
  from HeartBeat_delivers_garbage_once [OF this, of 1 "\<lparr>Hostname = ''a'', RoundTripProximityTime = 1\<rparr>" "[4, 9]"]
  show ?thesis by auto
qed

section \<open>Restart\<close>

lemma map_add_upd_outside: "k \<notin> dom g \<Longrightarrow> f(k \<mapsto> v) ++ g = (f ++ g)(k \<mapsto> v)"
  by (auto simp: map_add_def fun_eq_iff split: option.splits)

definition restored :: "time \<Rightarrow> path \<Rightarrow> persisted_chunk_info \<Rightarrow> chunk_info" where
  "restored now p i = \<lparr>expire = now, primary = '''', ck_checksum = pc_Checksum i, ck_path = p, locations = [],
     ck_length = pc_Length i, version = pc_Version i\<rparr>"

lemma restore_handles_state:
  assumes "distinct (map pc_Handle infos)"
  shows "map_of (chunks (restore_handles now p infos m)) =
      map_of (chunks m) ++ map_of (map (\<lambda>i. (pc_Handle i, restored now p i)) infos)"
    "owner (restore_handles now p infos m) = owner m ++ map_of (map (\<lambda>i. (pc_Handle i, p)) infos)"
    "files (restore_handles now p infos m) = files m"
    "numberOfCreatedChunkHandle (restore_handles now p infos m) = numberOfCreatedChunkHandle m"
  using assms
  by (induction infos arbitrary: m)
    (auto simp: map_add_upd_outside dom_map_of_conv_image_fst image_image restored_def)

definition saved_handles :: "serial_chunk_info list \<Rightarrow> chunk_handle list" where
  "saved_handles cs = concat (map (\<lambda>c. map pc_Handle (sc_Info c)) cs)"

lemma DeserializeChunks_state:
  assumes "distinct (map sc_Path cs)" and "distinct (saved_handles cs)"
  shows "map_of (files (DeserializeChunks now cs m)) =
      map_of (files m) ++ map_of (map (\<lambda>c. (sc_Path c, \<lparr>handles = map pc_Handle (sc_Info c)\<rparr>)) cs) \<and>
    owner (DeserializeChunks now cs m) =
      owner m ++ map_of (concat (map (\<lambda>c. map (\<lambda>i. (pc_Handle i, sc_Path c)) (sc_Info c)) cs)) \<and>
    map_of (chunks (DeserializeChunks now cs m)) =
      map_of (chunks m) ++ map_of (concat (map (\<lambda>c. map (\<lambda>i. (pc_Handle i, restored now (sc_Path c) i)) (sc_Info c)) cs)) \<and>
    numberOfCreatedChunkHandle (DeserializeChunks now cs m) =
      numberOfCreatedChunkHandle m + int (length (saved_handles cs))"
  using assms
proof (induction cs arbitrary: m)
  case (Cons c cs)
  have d: "distinct (map pc_Handle (sc_Info c))" "distinct (map sc_Path cs)" "distinct (saved_handles cs)"
    "pc_Handle ` set (sc_Info c) \<inter> set (saved_handles cs) = {}" "sc_Path c \<notin> sc_Path ` set cs"
    using Cons.prems by (auto simp: saved_handles_def)
  have comm: "(f ++ map_of (map (\<lambda>i. (pc_Handle i, g c i)) (sc_Info c))) ++
      map_of (concat (map (\<lambda>c. map (\<lambda>i. (pc_Handle i, g c i)) (sc_Info c)) cs)) =
      f ++ map_of (concat (map (\<lambda>c. map (\<lambda>i. (pc_Handle i, g c i)) (sc_Info c)) (c # cs)))"
    for f and g :: "serial_chunk_info \<Rightarrow> persisted_chunk_info \<Rightarrow> 'a"
  proof -
    have "dom (map_of (map (\<lambda>i. (pc_Handle i, g c i)) (sc_Info c))) \<inter>
        dom (map_of (concat (map (\<lambda>c. map (\<lambda>i. (pc_Handle i, g c i)) (sc_Info c)) cs))) = {}"
    proof -
      have "fst ` set (map (\<lambda>i. (pc_Handle i, g c i)) (sc_Info c)) = pc_Handle ` set (sc_Info c)"
        by (simp add: image_image)
      moreover have "fst ` set (concat (map (\<lambda>c. map (\<lambda>i. (pc_Handle i, g c i)) (sc_Info c)) cs)) = set (saved_handles cs)"
        by (simp add: saved_handles_def image_UN image_image)
      ultimately show ?thesis using d(4) by (simp only: dom_map_of_conv_image_fst)
    qed
    from map_add_comm [OF this] show ?thesis
      unfolding list.map concat.simps map_of_append by (simp only: map_add_assoc [symmetric])
  qed
  note step = restore_handles_state [OF d(1)]
  show ?case
  proof (intro conjI)
    show "map_of (files (DeserializeChunks now (c # cs) m)) =
        map_of (files m) ++ map_of (map (\<lambda>c. (sc_Path c, \<lparr>handles = map pc_Handle (sc_Info c)\<rparr>)) (c # cs))"
      proof (rule ext)
      fix p
      have "map_of (map (\<lambda>c. (sc_Path c, \<lparr>handles = map pc_Handle (sc_Info c)\<rparr>)) cs) (sc_Path c) = None"
        using d(5) by (simp add: map_of_eq_None_iff image_image)
      then show "map_of (files (DeserializeChunks now (c # cs) m)) p = (map_of (files m) ++
          map_of (map (\<lambda>c. (sc_Path c, \<lparr>handles = map pc_Handle (sc_Info c)\<rparr>)) (c # cs))) p"
        by (auto simp: Let_def Cons.IH [OF d(2,3)] step map_add_def split: option.splits)
    qed
    show "owner (DeserializeChunks now (c # cs) m) =
        owner m ++ map_of (concat (map (\<lambda>c. map (\<lambda>i. (pc_Handle i, sc_Path c)) (sc_Info c)) (c # cs)))"
      using comm [of "owner m" "\<lambda>c i. sc_Path c"] by (simp add: Let_def Cons.IH [OF d(2,3)] step)
    show "map_of (chunks (DeserializeChunks now (c # cs) m)) =
        map_of (chunks m) ++ map_of (concat (map (\<lambda>c. map (\<lambda>i. (pc_Handle i, restored now (sc_Path c) i)) (sc_Info c)) (c # cs)))"
      using comm [of "map_of (chunks m)" "\<lambda>c. restored now (sc_Path c)"] by (simp add: Let_def Cons.IH [OF d(2,3)] step)
    show "numberOfCreatedChunkHandle (DeserializeChunks now (c # cs) m) =
        numberOfCreatedChunkHandle m + int (length (saved_handles (c # cs)))"
      by (simp add: Let_def Cons.IH [OF d(2,3)] step saved_handles_def)
  qed
qed (simp_all add: saved_handles_def)

definition saved :: "csm \<Rightarrow> chunk_handle \<Rightarrow> persisted_chunk_info" where
  "saved m h = (case map_of (chunks m) h of
     None \<Rightarrow> \<lparr>pc_Handle = h, pc_Version = 0, pc_Checksum = '''', pc_Length = 0\<rparr>
   | Some chk \<Rightarrow> \<lparr>pc_Handle = h, pc_Version = version chk, pc_Checksum = ck_checksum chk,
       pc_Length = ck_length chk\<rparr>)"

lemma SerializeChunks_saved:
  "SerializeChunks m = map (\<lambda>x. \<lparr>sc_Path = fst x, sc_Info = map (saved m) (handles (snd x))\<rparr>) (files m)"
  by (simp add: SerializeChunks_def saved_def [abs_def] case_prod_beta)

lemma pc_Handle_saved [simp]: "pc_Handle (saved m h) = h"
  by (simp add: saved_def split: option.splits)

lemma map_pc_Handle_saved [simp]: "map (pc_Handle \<circ> saved m) hs = hs"
  by (induction hs) auto

text \<open>What is saved: no path and no handle twice.\<close>

lemma distinct_all_handles:
  assumes "distinct (map fst al)" and "\<And>p fi. (p, fi) \<in> set al \<Longrightarrow> distinct (handles fi)"
    and "\<And>p q fi gi h. (p, fi) \<in> set al \<Longrightarrow> (q, gi) \<in> set al \<Longrightarrow> h \<in> set (handles fi) \<Longrightarrow> h \<in> set (handles gi) \<Longrightarrow> p = q"
  shows "distinct (concat (map (\<lambda>x. handles (snd x)) (al :: (path \<times> file_info) list)))"
  using assms
proof (induction al)
  case (Cons x al)
  have ne: "(p, fi) \<in> set al \<Longrightarrow> (p, fi) \<in> set (x # al)" for p fi by simp
  have "set (handles (snd x)) \<inter> set (handles (snd y)) = {}" if "y \<in> set al" for y
    using Cons.prems(1) Cons.prems(3) [of "fst x" "snd x" "fst y" "snd y"] that by (cases x; cases y) force
  moreover have "distinct (concat (map (\<lambda>x. handles (snd x)) al))"
    using Cons.prems(1) by (intro Cons.IH) (auto intro: Cons.prems(2) [OF ne] Cons.prems(3) [OF ne ne])
  moreover have "distinct (handles (snd x))" using Cons.prems(2) [of "fst x" "snd x"] by simp
  ultimately show ?case by auto
qed simp

lemma handles_of_files:
  "csm_inv m \<Longrightarrow> (p, fi) \<in> set (files m) \<Longrightarrow> handles_of m p = handles fi"
  by (simp add: handles_of_def csm_invD)

lemma saved_handles_Serialize: "saved_handles (SerializeChunks m) = concat (map (\<lambda>x. handles (snd x)) (files m))"
  by (simp add: saved_handles_def SerializeChunks_saved comp_def [of _ "\<lambda>x. \<lparr>sc_Path = fst x, sc_Info = _ x\<rparr>"])

lemma distinct_saved_handles:
  assumes "csm_inv m"
  shows "distinct (saved_handles (SerializeChunks m))"
  unfolding saved_handles_Serialize
proof (rule distinct_all_handles)
  fix p q fi gi h
  assume "(p, fi) \<in> set (files m)" "(q, gi) \<in> set (files m)" "h \<in> set (handles fi)" "h \<in> set (handles gi)"
  then have "owner m h = Some p" "owner m h = Some q"
    using csm_invD(3) [OF assms, of h] handles_of_files [OF assms] by auto
  then show "p = q" by simp
next
  show "distinct (handles fi)" if "(p, fi) \<in> set (files m)" for p fi
    using csm_invD(5) [OF assms, of p] handles_of_files [OF assms that] by simp
qed (rule csm_invD(2) [OF assms])

lemma set_saved_handles: "csm_inv m \<Longrightarrow> set (saved_handles (SerializeChunks m)) = dom (owner m)"
proof -
  assume inv: "csm_inv m"
  have "h \<in> set (saved_handles (SerializeChunks m)) \<longleftrightarrow> owner m h \<noteq> None" for h
  proof
    assume "h \<in> set (saved_handles (SerializeChunks m))"
    then obtain p fi where "(p, fi) \<in> set (files m)" "h \<in> set (handles fi)"
      by (auto simp: saved_handles_Serialize)
    then show "owner m h \<noteq> None" using csm_invD(3) [OF inv, of h p] handles_of_files [OF inv] by auto
  next
    assume "owner m h \<noteq> None"
    then obtain p where "h \<in> set (handles_of m p)" using csm_invD(3) [OF inv, of h] by auto
    then obtain fi where "map_of (files m) p = Some fi" "h \<in> set (handles fi)"
      by (cases "map_of (files m) p") (auto simp: handles_of_def)
    then show "h \<in> set (saved_handles (SerializeChunks m))"
      by (force simp: saved_handles_Serialize dest: map_of_SomeD)
  qed
  then show ?thesis by auto
qed

text \<open>The entries that loading makes from the saved chunks, and what they hold.\<close>

definition saved_owners :: "serial_chunk_info list \<Rightarrow> (chunk_handle \<times> path) list" where
  "saved_owners cs = concat (map (\<lambda>c. map (\<lambda>i. (pc_Handle i, sc_Path c)) (sc_Info c)) cs)"

definition saved_records :: "time \<Rightarrow> serial_chunk_info list \<Rightarrow> (chunk_handle \<times> chunk_info) list" where
  "saved_records now cs = concat (map (\<lambda>c. map (\<lambda>i. (pc_Handle i, restored now (sc_Path c) i)) (sc_Info c)) cs)"

lemma saved_keys: "map fst (saved_owners cs) = saved_handles cs" "map fst (saved_records now cs) = saved_handles cs"
  by (simp_all add: saved_owners_def saved_records_def saved_handles_def map_concat o_def)

lemma in_saved:
  assumes inv: "csm_inv m" and "owner m h = Some p"
  obtains c where "c \<in> set (SerializeChunks m)" "sc_Path c = p" "saved m h \<in> set (sc_Info c)"
proof -
  obtain fi where "(p, fi) \<in> set (files m)" "h \<in> set (handles fi)"
    using assms csm_invD(3) [OF inv, of h p]
    by (cases "map_of (files m) p") (auto simp: handles_of_def dest: map_of_SomeD)
  then have "\<exists>c \<in> set (SerializeChunks m). sc_Path c = p \<and> saved m h \<in> set (sc_Info c)"
    by (auto simp: SerializeChunks_saved intro!: bexI [of _ "(p, fi)"])
  then show ?thesis using that by blast
qed

lemma unsaved:
  assumes "csm_inv m" and "owner m h = None"
  shows "map_of (saved_owners (SerializeChunks m)) h = None" "map_of (saved_records now (SerializeChunks m)) h = None"
proof -
  have "h \<notin> set (saved_handles (SerializeChunks m))" using assms(2) set_saved_handles [OF assms(1)] by auto
  then show "map_of (saved_owners (SerializeChunks m)) h = None" "map_of (saved_records now (SerializeChunks m)) h = None"
    using saved_keys by (metis map_of_eq_None_iff set_map)+
qed

lemma saved_distinct:
  assumes "csm_inv m"
  shows "distinct (map fst (saved_owners (SerializeChunks m)))" "distinct (map fst (saved_records now (SerializeChunks m)))"
  unfolding saved_keys by (rule distinct_saved_handles [OF assms])+

lemma saved_owners_of:
  assumes inv: "csm_inv m"
  shows "map_of (saved_owners (SerializeChunks m)) = owner m"
proof
  fix h
  show "map_of (saved_owners (SerializeChunks m)) h = owner m h"
  proof (cases "owner m h")
    case (Some p)
    obtain c where "c \<in> set (SerializeChunks m)" "sc_Path c = p" "saved m h \<in> set (sc_Info c)" by (rule in_saved [OF inv Some])
    then have "(h, p) \<in> set (saved_owners (SerializeChunks m))"
      by (auto simp: saved_owners_def intro!: bexI [of _ c] image_eqI [of _ _ "saved m h"])
    then show ?thesis unfolding Some by (rule map_of_is_SomeI [OF saved_distinct(1) [OF inv]])
  qed (simp add: unsaved [OF inv])
qed

lemma saved_records_of:
  assumes inv: "csm_inv m"
  shows "map_of (saved_records now (SerializeChunks m)) h =
    map_option (\<lambda>c. c\<lparr>expire := now, primary := '''', locations := []\<rparr>) (getChunk h m)"
proof (cases "getChunk h m")
  case None
  then have "owner m h = None" using csm_inv_unowned [OF inv] by (simp add: getChunk_def)
  then show ?thesis by (simp add: unsaved [OF inv] None)
next
  case (Some chk)
  have o: "owner m h = Some (ck_path chk)" using csm_invD(4) [OF inv, of h] Some by (simp add: getChunk_def)
  obtain c where "c \<in> set (SerializeChunks m)" "sc_Path c = ck_path chk" "saved m h \<in> set (sc_Info c)" by (rule in_saved [OF inv o])
  moreover have "restored now (ck_path chk) (saved m h) = chk\<lparr>expire := now, primary := '''', locations := []\<rparr>"
    using Some by (simp add: getChunk_def restored_def saved_def)
  ultimately have "(h, chk\<lparr>expire := now, primary := '''', locations := []\<rparr>) \<in> set (saved_records now (SerializeChunks m))"
    by (auto simp: saved_records_def intro!: bexI [of _ c] image_eqI [of _ _ "saved m h"])
  then show ?thesis unfolding Some option.map by (rule map_of_is_SomeI [OF saved_distinct(2) [OF inv]])
qed

lemma restart_restores_inv:
  fixes now :: time
  assumes inv: "csm_inv m"
  defines "m' \<equiv> DeserializeChunks now (SerializeChunks m) NewChunkServerManager"
  shows "handles_of m' = handles_of m" and "owner m' = owner m"
    and "getChunk h m' = map_option (\<lambda>c. c\<lparr>expire := now, primary := '''', locations := []\<rparr>) (getChunk h m)"
    and "numberOfCreatedChunkHandle m' = int (card (dom (owner m)))"
proof -
  let ?cs = "SerializeChunks m"
  have dp: "distinct (map sc_Path ?cs)" using csm_invD(2) [OF inv] by (simp add: SerializeChunks_saved o_def)
  have dh: "distinct (saved_handles ?cs)" by (rule distinct_saved_handles [OF inv])
  have st: "map_of (files m') = map_of (map (\<lambda>c. (sc_Path c, \<lparr>handles = map pc_Handle (sc_Info c)\<rparr>)) ?cs)"
    "owner m' = map_of (saved_owners ?cs)" "map_of (chunks m') = map_of (saved_records now ?cs)"
    "numberOfCreatedChunkHandle m' = int (length (saved_handles ?cs))"
    using DeserializeChunks_state [OF dp dh, of now NewChunkServerManager, folded m'_def]
    by (simp_all add: NewChunkServerManager_def saved_owners_def saved_records_def)
  have "map (\<lambda>c. (sc_Path c, \<lparr>handles = map pc_Handle (sc_Info c)\<rparr>)) ?cs = files m"
    by (auto simp: SerializeChunks_saved intro!: map_idI)
  then show "handles_of m' = handles_of m" using st(1) by (simp add: handles_of_def fun_eq_iff)
  show "owner m' = owner m" using st(2) saved_owners_of [OF inv] by simp
  show "getChunk h m' = map_option (\<lambda>c. c\<lparr>expire := now, primary := '''', locations := []\<rparr>) (getChunk h m)"
    using st(3) saved_records_of [OF inv] by (simp add: getChunk_def)
  show "numberOfCreatedChunkHandle m' = int (card (dom (owner m)))"
    using distinct_card [OF dh] set_saved_handles [OF inv] st(4) by simp
qed

text \<open>
  A restart from saved metadata restores every file with its handles in order, the reverse
  index, and each chunk's version, checksum, length and path; locations and leases start empty.
  The allocation counter becomes the number of handles in use.
\<close>

theorem restart_restores:
  assumes "csm_reachable m"
  shows "\<exists>m'. m' = DeserializeChunks now (SerializeChunks m) NewChunkServerManager \<and>
    handles_of m' = handles_of m \<and> owner m' = owner m \<and>
    (\<forall>h. getChunk h m' = map_option (\<lambda>c. c\<lparr>expire := now, primary := '''', locations := []\<rparr>) (getChunk h m)) \<and>
    numberOfCreatedChunkHandle m' = int (card (dom (owner m)))"
  using restart_restores_inv [OF csm_inv_reachable [OF assms]] by blast

theorem restart_restores_witness:
  "handles_of (DeserializeChunks 5 (SerializeChunks (snd (createChunk 0 (\<lambda>_. None) ''/f'' [''s1''] NewChunkServerManager)))
     NewChunkServerManager) ''/f'' = [0]"
proof -
  let ?m = "snd (createChunk 0 (\<lambda>_. None) ''/f'' [''s1''] NewChunkServerManager)"
  have "csm_reachable ?m" by (rule csm_reachable_step [OF csm_reachable_New s_create])
  moreover have "handles_of ?m ''/f'' = [0]"
    by (simp add: createChunk_def Let_def NewChunkServerManager_def handles_of_def List.map_filter_simps)
  ultimately show ?thesis using restart_restores [of ?m 5] by simp
qed

text \<open>
  C25. Because the counter restarts at the number of handles in use and not above the largest
  one, a handle can be given out twice: when some file owns the handle equal to that number (as
  happens once an older chunk has been deleted), the first chunk created after the restart gets
  it, takes over its index entry and replaces its chunk record, while the old file still lists
  it.
\<close>

theorem restart_reuses_live_handle:
  assumes "csm_reachable m" and "owner m (int (card (dom (owner m)))) = Some q" and "p \<noteq> q"
    and "createChunk now' rpc p addrs (DeserializeChunks now (SerializeChunks m) NewChunkServerManager) = ((h, success, err), m')"
  shows "h \<in> set (handles_of m q) \<and> h \<in> set (handles_of m' q) \<and> h \<in> set (handles_of m' p) \<and> owner m' h = Some p \<and>
    \<not> csm_inv m'"
proof -
  have inv: "csm_inv m" using assms(1) by (rule csm_inv_reachable)
  let ?r = "DeserializeChunks now (SerializeChunks m) NewChunkServerManager"
  have r: "handles_of ?r = handles_of m" "numberOfCreatedChunkHandle ?r = int (card (dom (owner m)))"
    using restart_restores [OF assms(1), of now] by auto
  note st = createChunk_state [OF assms(4)]
  have h: "h \<in> set (handles_of m q)" using csm_invD(3) [OF inv] assms(2) st(1) r(2) by simp
  then have "h \<in> set (handles_of m' q)" "h \<in> set (handles_of m' p)" "owner m' h = Some p"
    using assms(3) r(1) st(3,4) by auto
  moreover from this have "\<not> csm_inv m'" using csm_invD(3) [of m' h q] assms(3) by auto
  ultimately show ?thesis using h by blast
qed

definition two_then_delete :: csm where
  "two_then_delete = deleteChunk 0 (snd (createChunk 0 (\<lambda>_. None) ''/f'' []
     (snd (createChunk 0 (\<lambda>_. None) ''/f'' [] NewChunkServerManager))))"

theorem restart_reuses_live_handle_witness:
  "\<exists>h success err m'. createChunk 9 (\<lambda>_. None) ''/g'' [] (DeserializeChunks 5 (SerializeChunks two_then_delete)
      NewChunkServerManager) = ((h, success, err), m') \<and> h \<in> set (handles_of two_then_delete ''/f'') \<and> owner m' h = Some ''/g''"
proof -
  let ?m = "two_then_delete"
  have r: "csm_reachable ?m"
    unfolding two_then_delete_def
    by (rule csm_reachable_step [OF csm_reachable_step [OF csm_reachable_step [OF csm_reachable_New s_create] s_create] s_delete])
  have "handleToPathMapping ?m = [(1, ''/f'')]"
    by (simp add: two_then_delete_def createChunk_def Let_def NewChunkServerManager_def deleteChunk_def List.map_filter_simps)
  then have o: "owner ?m (int (card (dom (owner ?m)))) = Some ''/f''" by simp
  obtain h success err m' where c: "createChunk 9 (\<lambda>_. None) ''/g'' [] (DeserializeChunks 5 (SerializeChunks ?m)
      NewChunkServerManager) = ((h, success, err), m')"
    by (metis prod.exhaust)
  from restart_reuses_live_handle [OF r o _ c] c show ?thesis by (intro exI conjI) (assumption, simp_all)
qed

end
