(* ===== verification/Master_Server.thy ===== *)
theory Master_Server
  imports Ns_Properties Ns_Serialize Ns_List Csm_Leases
begin

text \<open>
  The master server, \<^verbatim>\<open>src/master_server/master_server.go\<close>: its RPC handlers and its
  background work, composed of the operations of the namespace manager and of the chunk server
  manager. The results of remote calls, the clock and the random permutation are parameters.
  Logging, the listener and the failure detector's bookkeeping are left out.
\<close>

section \<open>State and plumbing\<close>

record master_server =
  namespaceManager :: namespace_manager
  chunkServerManager :: csm

type_synonym 'a ms_result = "'a outcome \<times> master_server"

definition NewMasterServer :: master_server where
  "NewMasterServer = \<lparr>namespaceManager = NewNameSpaceManager, chunkServerManager = NewChunkServerManager\<rparr>"

definition on_ns :: "(namespace_manager \<Rightarrow> 'a nm_result) \<Rightarrow> master_server \<Rightarrow> 'a ms_result" where
  "on_ns f ma = (case f (namespaceManager ma) of (r, nm) \<Rightarrow> (r, ma\<lparr>namespaceManager := nm\<rparr>))"

definition on_csm :: "(csm \<Rightarrow> 'a outcome \<times> csm) \<Rightarrow> master_server \<Rightarrow> 'a ms_result" where
  "on_csm f ma = (case f (chunkServerManager ma) of (r, m) \<Rightarrow> (r, ma\<lparr>chunkServerManager := m\<rparr>))"

definition update_csm :: "(csm \<Rightarrow> csm) \<Rightarrow> master_server \<Rightarrow> master_server" where
  "update_csm f ma = ma\<lparr>chunkServerManager := f (chunkServerManager ma)\<rparr>"

text \<open>An error that is logged and handled; a panic or a block is not caught.\<close>

definition catch_error :: "'a outcome \<times> 's \<Rightarrow> ('a outcome \<Rightarrow> 's \<Rightarrow> 'b outcome \<times> 's) \<Rightarrow> 'b outcome \<times> 's" where
  "catch_error res f = (case res of (r, s) \<Rightarrow> (case r of
     Panic \<Rightarrow> (Panic, s) | Deadlock \<Rightarrow> (Deadlock, s) | OutOfFuel \<Rightarrow> (OutOfFuel, s) | _ \<Rightarrow> f r s))"

text \<open>A section under the write lock of the node at an address, with the deferred release.\<close>

definition with_node :: "string list \<Rightarrow> (ns_tree \<Rightarrow> master_server \<Rightarrow> 'a ms_result) \<Rightarrow> master_server \<Rightarrow> 'a ms_result" where
  "with_node a body ma =
     bind_st (on_ns (on_locks (Lock a)) ma) (\<lambda>_ ma.
       (case walk (ns_root (namespaceManager ma)) a of
          None \<Rightarrow> (Panic, ma)
        | Some node \<Rightarrow> (case body node ma of
            (Deadlock, ma') \<Rightarrow> (Deadlock, ma')
          | (r, ma') \<Rightarrow> bind_st (on_ns (on_locks (Unlock a)) ma') (\<lambda>_ ma'. (r, ma')))))"

definition update_node :: "string list \<Rightarrow> (ns_tree \<Rightarrow> ns_tree) \<Rightarrow> master_server \<Rightarrow> master_server" where
  "update_node a f ma = ma\<lparr>namespaceManager :=
     (namespaceManager ma)\<lparr>ns_root := update_at a f (ns_root (namespaceManager ma))\<rparr>\<rparr>"

section \<open>Namespace handlers\<close>

definition RPCListHandler :: "path \<Rightarrow> master_server \<Rightarrow> path_info list ms_result" where
  "RPCListHandler p = on_ns (List p)"

definition RPCMkdirHandler :: "path \<Rightarrow> master_server \<Rightarrow> unit ms_result" where
  "RPCMkdirHandler p = on_ns (MkDirAll p)"

definition RPCCreateFileHandler :: "path \<Rightarrow> master_server \<Rightarrow> unit ms_result" where
  "RPCCreateFileHandler p = on_ns (Create p)"

definition RPCRemoveDirHandler :: "path \<Rightarrow> master_server \<Rightarrow> unit ms_result" where
  "RPCRemoveDirHandler p = on_ns (RemoveDir p)"

definition RPCUpdateFileMetadataHandler :: "path \<Rightarrow> int \<Rightarrow> int \<Rightarrow> master_server \<Rightarrow> unit ms_result" where
  "RPCUpdateFileMetadataHandler p len n = on_ns (UpdateFileMetadata p len n)"

definition RPCRenameHandler :: "path \<Rightarrow> path \<Rightarrow> master_server \<Rightarrow> unit ms_result" where
  "RPCRenameHandler source target ma =
     bind_st (on_ns (Rename source target) ma) (\<lambda>_ ma. (Return (), update_csm (UpdateFilePath source target) ma))"

text \<open>The reply holds the number of chunks, the kind and the length.\<close>

definition RPCGetFileInfoHandler :: "path \<Rightarrow> master_server \<Rightarrow> (int \<times> bool \<times> int) ms_result" where
  "RPCGetFileInfoHandler p ma =
     bind_st (on_ns (Get p) ma) (\<lambda>a. with_node a (\<lambda>file ma. (Return (ns_Chunks file, IsDir file, ns_Length file), ma)))"

definition delete_handle :: "chunk_handle \<Rightarrow> csm \<Rightarrow> csm" where
  "delete_handle h m =
     (let m = (case getReplicas h m of
          Return replicas \<Rightarrow> ForEachInSlice replicas (\<lambda>addr. addGarbage addr h) m
        | _ \<Rightarrow> m)
      in deleteChunk h m)"

definition RPCDeleteFileHandler :: "path \<Rightarrow> bool \<Rightarrow> master_server \<Rightarrow> unit ms_result" where
  "RPCDeleteFileHandler p deleteHandle ma =
     bind_st (on_ns (Namespace_Manager.Delete p) ma) (\<lambda>_ ma.
       if deleteHandle
       then bind_st (on_csm (\<lambda>m. (GetChunkHandles p m, m)) ma) (\<lambda>hs ma.
              (Return (), update_csm (ForEachInSlice hs delete_handle) ma))
       else (Return (), ma))"

section \<open>Chunk handlers\<close>

definition RPCGetReplicasHandler :: "chunk_handle \<Rightarrow> master_server \<Rightarrow> server_addr list ms_result" where
  "RPCGetReplicasHandler h = on_csm (\<lambda>m. (getReplicas h m, m))"

definition RPCGetPrimaryAndSecondaryServersInfoHandler :: "time \<Rightarrow> time \<Rightarrow> (server_addr \<times> bool) list \<Rightarrow>
    chunk_handle \<Rightarrow> master_server \<Rightarrow> lease ms_result" where
  "RPCGetPrimaryAndSecondaryServersInfoHandler now1 now2 probes h ma =
     bind_st (on_csm (getLeaseHolder now1 now2 probes h) ma) (\<lambda>(ls, stale) ma.
       (Return ls, update_csm (ForEachInSlice stale (\<lambda>v. addGarbage v h)) ma))"

definition new_chunk :: "time \<Rightarrow> nat list \<Rightarrow> (server_addr \<Rightarrow> go_error option) \<Rightarrow> path \<Rightarrow> string list \<Rightarrow>
    master_server \<Rightarrow> chunk_handle ms_result" where
  "new_chunk now perm rpc p a ma =
     bind_st (on_csm (\<lambda>m. (chooseServers perm (int MinimumReplicationFactor + 1) m, m)) ma) (\<lambda>addrs ma.
       let addrs = FilterSlice addrs (\<lambda>x. x \<noteq> '''');
           ((h, success, err), m) = createChunk now rpc p addrs (chunkServerManager ma);
           ma = update_node a (\<lambda>t. set_size (ns_Length t) (ns_Chunks t + 1) t) (ma\<lparr>chunkServerManager := m\<rparr>)
       in (case err of
             Some e \<Rightarrow> (Fail e, ma)
           | None \<Rightarrow> (Return h, update_csm (addChunk success h) ma)))"

definition RPCGetChunkHandleHandler :: "time \<Rightarrow> nat list \<Rightarrow> (server_addr \<Rightarrow> go_error option) \<Rightarrow> path \<Rightarrow> int \<Rightarrow>
    master_server \<Rightarrow> chunk_handle ms_result" where
  "RPCGetChunkHandleHandler now perm rpc p idx ma =
     bind_st (fail_if (ValidateFilename (Base p) p) ma) (\<lambda>_ ma.
     bind_st (on_ns (MkDirAll p) ma) (\<lambda>_ ma.
     bind_st (on_ns (Create p) ma) (\<lambda>_ ma.
     bind_st (on_ns (Get p) ma) (\<lambda>a.
     with_node a (\<lambda>file ma.
       if idx = ns_Chunks file then new_chunk now perm rpc p a ma
       else (getChunkHandle p idx (chunkServerManager ma), ma))))))"

section \<open>Heartbeats from chunk servers\<close>

text \<open>
  The synchronisation of the namespace with one reported chunk: the file is recreated when it is
  missing, and its length is raised to what the chunk's index and length imply. Errors end the
  handling of this chunk.
\<close>

definition index_of :: "chunk_handle \<Rightarrow> chunk_handle list \<Rightarrow> int" where
  "index_of h hs = (let i = length (takeWhile (\<lambda>x. x \<noteq> h) hs) in if i < length hs then int i else -1)"

definition sync_namespace :: "path \<Rightarrow> persisted_chunk_info \<Rightarrow> master_server \<Rightarrow> unit ms_result" where
  "sync_namespace p ci ma =
     bind_st (catch_error (on_ns (Get p) ma) (\<lambda>r ma. (case r of
        Return a \<Rightarrow> (Return a, ma)
      | _ \<Rightarrow> bind_st (on_ns (MkDirAll p) ma) (\<lambda>_ ma.
             bind_st (on_ns (Create p) ma) (\<lambda>_ ma. on_ns (Get p) ma)))))
     (\<lambda>a ma. bind_st (with_node a (\<lambda>file ma. (Return (ns_Length file), ma)) ma) (\<lambda>currentLength ma.
       bind_st (on_csm (\<lambda>m. (GetChunkHandles p m, m)) ma) (\<lambda>hs ma.
         let i = index_of (pc_Handle ci) hs;
             minLength = i * ChunkMaxSizeInByte + pc_Length ci
         in if i \<ge> 0 \<and> minLength > currentLength
            then on_ns (UpdateFileMetadata p minLength (int (length hs))) ma
            else (Return (), ma))))"

text \<open>
  One entry of the system report. \<open>check\<close> is the primary's answer to the version check (\<open>None\<close>:
  the call failed, otherwise whether it calls the version stale). The result is the reply's
  garbage list.
\<close>

definition heartbeat_chunk :: "server_addr \<Rightarrow> (persisted_chunk_info \<Rightarrow> bool option) \<Rightarrow> persisted_chunk_info \<Rightarrow>
    chunk_handle list \<Rightarrow> master_server \<Rightarrow> chunk_handle list ms_result" where
  "heartbeat_chunk addr check ci garbage ma =
     (case getChunk (pc_Handle ci) (chunkServerManager ma) of
        None \<Rightarrow> (Return (garbage @ [pc_Handle ci]), ma)
      | Some chk \<Rightarrow>
          let ma = update_csm (set_chunk (pc_Handle ci) (\<lambda>c. c\<lparr>ck_checksum := pc_Checksum ci, ck_length := pc_Length ci\<rparr>)) ma
          in if version chk \<noteq> pc_Version ci \<and> primary chk \<noteq> ''''
             then (case check ci of
                 None \<Rightarrow> (Return garbage, ma)
               | Some stale \<Rightarrow> (Return (if stale then garbage @ [pc_Handle ci] else garbage), ma))
             else if version chk \<noteq> pc_Version ci \<and> locations chk = []
             then (Return (garbage @ [pc_Handle ci]), ma)
             else let ma = update_csm (\<lambda>m. addChunk [addr] (pc_Handle ci) (snd (registerReplicas (pc_Handle ci) addr m))) ma
                  in if ck_path chk \<noteq> '''' \<and> pc_Length ci > 0
                     then catch_error (sync_namespace (ck_path chk) ci ma) (\<lambda>_ ma. (Return garbage, ma))
                     else (Return garbage, ma))"

fun heartbeat_chunks :: "server_addr \<Rightarrow> (persisted_chunk_info \<Rightarrow> bool option) \<Rightarrow> persisted_chunk_info list \<Rightarrow>
    chunk_handle list \<Rightarrow> master_server \<Rightarrow> chunk_handle list ms_result" where
  "heartbeat_chunks addr check [] garbage ma = (Return garbage, ma)"
| "heartbeat_chunks addr check (ci # cs) garbage ma =
     bind_st (heartbeat_chunk addr check ci garbage ma) (\<lambda>garbage. heartbeat_chunks addr check cs garbage)"

text \<open>
  The lease extensions: the loop runs over the leases found in the reply, not over the ones the
  chunk server sent; a reply that comes from the RPC library starts without any.
\<close>

fun extend_leases :: "time \<Rightarrow> lease list \<Rightarrow> csm \<Rightarrow> lease list \<times> csm" where
  "extend_leases now [] m = ([], m)"
| "extend_leases now (ls # rest) m =
     (case extendLease now (l_Handle ls) (l_Primary ls) m of
        (Return chk, m') \<Rightarrow> (case extend_leases now rest m' of
           (out, m'') \<Rightarrow> (\<lparr>l_Expire = expire chk, l_Primary = l_Primary ls, l_Secondaries = l_Secondaries ls,
                          l_Handle = l_Handle ls, l_InUse = False\<rparr> # out, m''))
      | (_, m') \<Rightarrow> extend_leases now rest m')"

definition RPCHeartBeatHandler :: "time \<Rightarrow> server_addr \<Rightarrow> machine_info \<Rightarrow> bool \<Rightarrow> lease list \<Rightarrow>
    persisted_chunk_info list outcome \<Rightarrow> (persisted_chunk_info \<Rightarrow> bool option) \<Rightarrow> master_server \<Rightarrow>
    (chunk_handle list \<times> lease list) ms_result" where
  "RPCHeartBeatHandler now addr mi wantLeases replyLeases report check ma =
     (case HeartBeat now addr mi (chunkServerManager ma) of ((first, garbage), m) \<Rightarrow>
        (case (if wantLeases then extend_leases now replyLeases m else (replyLeases, m)) of (leases, m) \<Rightarrow>
           let ma = ma\<lparr>chunkServerManager := m\<rparr> in
           if first then (Return (garbage, leases), ma)
           else bind_st (report, ma) (\<lambda>cs ma.
                bind_st (heartbeat_chunks addr check cs garbage ma) (\<lambda>garbage ma. (Return (garbage, leases), ma)))))"

section \<open>Replication and health checks\<close>

text \<open>A system report: the chunks, a server without the method, or another error.\<close>

datatype sys_report = Report "persisted_chunk_info list" | NoSuchMethod | ReportError go_error

record replication_calls =
  rc_create :: "go_error option"
  rc_from :: sys_report
  rc_snapshot :: "go_error option"
  rc_to :: sys_report

definition find_report :: "chunk_handle \<Rightarrow> persisted_chunk_info list \<Rightarrow> persisted_chunk_info option" where
  "find_report h cs = find (\<lambda>c. pc_Handle c = h) cs"

definition performReplication :: "time \<Rightarrow> (server_addr \<Rightarrow> server_addr \<Rightarrow> replication_calls) \<Rightarrow> chunk_handle \<Rightarrow>
    csm \<Rightarrow> unit outcome \<times> csm" where
  "performReplication now calls h m =
     bind_st (chooseReplicationServer now h m, m) (\<lambda>(from, to) m.
       let c = calls from to;
           giveUp = (\<lambda>e m. (Fail e, addGarbage to h m));
           register = (\<lambda>m. (case registerReplicas h to m of
               (Return _, m) \<Rightarrow> (Return (), addChunk [to] h m)
             | (Fail e, m) \<Rightarrow> giveUp e m
             | (r, m) \<Rightarrow> (r, m)));
           copy = (\<lambda>src m. (case rc_snapshot c of
               Some e \<Rightarrow> giveUp e m
             | None \<Rightarrow> (case src of
                 None \<Rightarrow> register m
               | Some s \<Rightarrow> (case rc_to c of
                   ReportError e \<Rightarrow> giveUp e m
                 | NoSuchMethod \<Rightarrow> register m
                 | Report cs \<Rightarrow> (case find_report h cs of
                     None \<Rightarrow> giveUp (NotReported to h) m
                   | Some d \<Rightarrow>
                       if pc_Version d \<noteq> pc_Version s \<or> pc_Length d \<noteq> pc_Length s \<or> pc_Checksum d \<noteq> pc_Checksum s
                       then giveUp (HandleErr VerifyFailed h) m else register m)))))
       in case rc_create c of
            Some e \<Rightarrow> (Fail e, m)
          | None \<Rightarrow> (case rc_from c of
              ReportError e \<Rightarrow> giveUp e m
            | NoSuchMethod \<Rightarrow> copy None m
            | Report cs \<Rightarrow>
                if cs = [] then copy None m
                else (case find_report h cs of
                    None \<Rightarrow> giveUp (NotReported from h) m
                  | Some s \<Rightarrow> copy (Some s) m)))"

fun remove_dead :: "time \<Rightarrow> server_addr list \<Rightarrow> csm \<Rightarrow> unit outcome \<times> csm" where
  "remove_dead now [] m = (Return (), m)"
| "remove_dead now (addr # rest) m =
     (case removeServer addr m of (r1, m) \<Rightarrow>
        (case removeChunks now (case r1 of Return hs \<Rightarrow> hs | _ \<Rightarrow> []) addr m of (r2, m) \<Rightarrow>
           (case (r1, r2) of
              (Return _, Return _) \<Rightarrow> remove_dead now rest m
            | (Fail e, Fail e') \<Rightarrow> (Fail (Errors [e, e']), m)
            | (Fail e, _) \<Rightarrow> (Fail (Errors [e]), m)
            | (_, Fail e) \<Rightarrow> (Fail (Errors [e]), m)
            | _ \<Rightarrow> (Panic, m))))"

fun probe_servers :: "time \<Rightarrow> (server_addr \<Rightarrow> go_error option) \<Rightarrow> server_addr list \<Rightarrow> csm \<Rightarrow> go_error list \<times> csm" where
  "probe_servers now rpc [] m = ([], m)"
| "probe_servers now rpc (addr # rest) m =
     (case rpc addr of
        Some e \<Rightarrow> (case probe_servers now rpc rest m of (errs, m) \<Rightarrow> (e # errs, m))
      | None \<Rightarrow> probe_servers now rpc rest (markServerLive addr now m))"

definition replicate_step :: "time \<Rightarrow> (chunk_handle \<Rightarrow> server_addr \<Rightarrow> server_addr \<Rightarrow> replication_calls) \<Rightarrow>
    chunk_handle \<Rightarrow> csm \<Rightarrow> csm" where
  "replicate_step now calls h m =
     (case getChunk h m of
        None \<Rightarrow> m
      | Some _ \<Rightarrow> (case TryStartReplication now h m of
          (False, m) \<Rightarrow> m
        | (True, m) \<Rightarrow> (case performReplication now (calls h) h m of
            (Return _, m) \<Rightarrow> FinishReplication h m
          | (_, m) \<Rightarrow> FinishReplication h (queueReplication h m))))"

definition serverHeartBeat :: "time \<Rightarrow> (server_addr \<Rightarrow> go_error option) \<Rightarrow>
    (chunk_handle \<Rightarrow> server_addr \<Rightarrow> server_addr \<Rightarrow> replication_calls) \<Rightarrow> csm \<Rightarrow> unit outcome \<times> csm" where
  "serverHeartBeat now rpc calls m =
     bind_st (remove_dead now (detectDeadServer now m) m) (\<lambda>_ m.
       let live = TransformSlice (GetLiveServers now m) id in
       if live = [] then (Return (), m)
       else case probe_servers now rpc live m of (errs, m) \<Rightarrow>
         if errs \<noteq> [] then (Fail (Errors errs), m)
         else case replicationMigration m of (hs, m) \<Rightarrow>
           (Return (), ForEachInSlice hs (replicate_step now calls) m))"

section \<open>Persistence\<close>

text \<open>The saved metadata; \<^verbatim>\<open>gob\<close> and the file are not modelled, a decoding error leaves both managers alone.\<close>

definition persistMetaData :: "master_server \<Rightarrow> (serialized_node list \<times> serial_chunk_info list) \<times> master_server" where
  "persistMetaData ma = (case Serialize (namespaceManager ma) of (nodes, nm) \<Rightarrow>
     ((nodes, SerializeChunks (chunkServerManager ma)), ma\<lparr>namespaceManager := nm\<rparr>))"

definition loadMetadata :: "time \<Rightarrow> (serialized_node list \<times> serial_chunk_info list) option \<Rightarrow> master_server \<Rightarrow>
    unit ms_result" where
  "loadMetadata now meta ma = (case meta of
     None \<Rightarrow> (Return (), ma)
   | Some (nodes, cs) \<Rightarrow>
       bind_st (if nodes \<noteq> [] then bind_st (on_ns (Deserialize nodes) ma) (\<lambda>_ ma. (Return (), ma)) else (Return (), ma))
         (\<lambda>_ ma. (Return (), if cs \<noteq> [] then update_csm (DeserializeChunks now cs) ma else ma)))"

end
