(* ===== verification/Master_Properties.thy ===== *)
theory Master_Properties
  imports Master_Server
begin

text \<open>
  Properties of the master server that span the namespace and the chunk records.
\<close>

section \<open>Invariant and locking\<close>

definition ms_inv :: "master_server \<Rightarrow> bool" where
  "ms_inv ma \<longleftrightarrow> nm_inv (namespaceManager ma) \<and> csm_inv (chunkServerManager ma)"

abbreviation ns_view :: "master_server \<Rightarrow> abs_ns" where
  "ns_view ma \<equiv> view (ns_root (namespaceManager ma))"

lemma with_node_eq:
  assumes "nm_inv (namespaceManager ma)" and "walk (ns_root (namespaceManager ma)) a = Some node"
    and "body node (ma\<lparr>namespaceManager := (namespaceManager ma)\<lparr>ns_locks := no_locks(a := Writer)\<rparr>\<rparr>) = (r, ma')"
    and "r \<noteq> Deadlock" and "ns_locks (namespaceManager ma') = no_locks(a := Writer)"
  shows "with_node a body ma = (r, ma'\<lparr>namespaceManager := (namespaceManager ma')\<lparr>ns_locks := no_locks\<rparr>\<rparr>)"
proof -
  have "on_ns (on_locks (Lock a)) ma =
      (Return (), ma\<lparr>namespaceManager := (namespaceManager ma)\<lparr>ns_locks := no_locks(a := Writer)\<rparr>\<rparr>)"
    using nm_invD(3) [OF assms(1)] by (simp add: on_ns_def on_locks_def)
  moreover have "on_ns (on_locks (Unlock a)) ma' =
      (Return (), ma'\<lparr>namespaceManager := (namespaceManager ma')\<lparr>ns_locks := no_locks\<rparr>\<rparr>)"
    using assms(5) Unlock_writer [of no_locks a] by (simp add: on_ns_def on_locks_def)
  ultimately show ?thesis
    using assms(2-4) by (cases r) (simp_all add: with_node_def)
qed

lemma nm_inv_relock:
  "nm_inv nm \<Longrightarrow> wf_tree t \<Longrightarrow> IsDir t \<Longrightarrow> nm_inv (nm\<lparr>ns_root := t, ns_locks := no_locks\<rparr>)"
  by (simp add: nm_inv_def)

text \<open>The namespace steps that precede the chunk lookup leave an existing file alone.\<close>

lemma prepare_existing:
  assumes "ms_inv ma" and val: "list_all valid_comp d" and name: "ValidateFilename b (abs_path (d @ [b])) = None"
    and bound: "ns_view ma (d @ [b]) \<noteq> None"
  obtains ma1 where
    "\<And>k. bind_st (on_ns (MkDirAll (abs_path (d @ [b]))) ma) (\<lambda>_ ma. bind_st (on_ns (Create (abs_path (d @ [b]))) ma)
        (\<lambda>_ ma. bind_st (on_ns (Get (abs_path (d @ [b]))) ma) k)) = k (d @ [b]) ma1"
    and "ms_inv ma1" and "ns_view ma1 = ns_view ma" and "chunkServerManager ma1 = chunkServerManager ma"
proof -
  let ?p = "abs_path (d @ [b])"
  note inv = assms(1) [unfolded ms_inv_def, THEN conjunct1]
  have vb: "valid_comp b" using name by (rule valid_name)
  have parts: "Dir ?p = abs_path d" "Base ?p = b" "path_parts (abs_path d) = d"
    using val vb by (simp_all add: go_path list_all_iff)
  have pref: "ns_view ma q \<noteq> None" if "prefix q (d @ [b])" for q using view_prefix_closed [OF bound that] .
  obtain nm1 where 1: "MkDirAll ?p (namespaceManager ma) = (Return (), nm1)" "view (ns_root nm1) = ns_view ma" "nm_inv nm1"
  proof -
    have "abs_mkdir_all ?p (ns_view ma) = (Return (), ns_view ma)"
      using val vb pref by (intro abs_mkdir_all_existing) (auto simp: list_all_iff)
    then show thesis
      using MkDirAll_refines [OF inv, of ?p] nm_inv_MkDirAll [OF inv, of ?p] that
      by (cases "MkDirAll ?p (namespaceManager ma)") auto
  qed
  obtain nm2 where 2: "Create ?p nm1 = (Return (), nm2)" "view (ns_root nm2) = ns_view ma" "nm_inv nm2"
  proof -
    have "abs_create ?p (ns_view ma) = (Return (), ns_view ma)"
      using bound name pref [of d] by (simp add: abs_create_def parts in_parent_def abs_add_def)
    then show thesis
      using Create_refines [OF 1(3), of ?p] nm_inv_Create [OF 1(3), of ?p] 1(2) that
      by (cases "Create ?p nm1") auto
  qed
  have 3: "Get ?p nm2 = (Return (d @ [b]), nm2)"
    using nsm.lookup_Return_iff [OF 2(3), of ?p] bound pref [of d] by (simp add: parts 2(2))
  show thesis
  proof (rule that)
    show "ms_inv (ma\<lparr>namespaceManager := nm2\<rparr>)" using assms(1) 2(3) by (simp add: ms_inv_def)
  qed (simp_all add: on_ns_def 1(1) 2 3)
qed

text \<open>Making directories that exist already does not touch the tree at all.\<close>

lemma MkDir_existing:
  assumes "nm_inv nm" and "view (ns_root nm) (parent_parts p) \<noteq> None" and "view (ns_root nm) (full_parts p) \<noteq> None"
  shows "MkDir p nm = (Return (), nm)"
  using assms(2,3) by (auto simp: MkDir_eq nm_invD [OF assms(1)] add_node_def child_at_def view_None_iff split: option.splits)

lemma mkdir_loop_existing:
  assumes "nm_inv nm" and "\<And>s. s \<in> set (cur @ segs) \<Longrightarrow> valid_comp s"
    and "\<And>q. prefix q (cur @ segs) \<Longrightarrow> view (ns_root nm) q \<noteq> None"
  shows "mkdir_loop (abs_path cur) segs nm = (Return (), nm)"
  using assms(2,3)
proof (induction segs arbitrary: cur)
  case (Cons seg segs)
  have "MkDir (abs_path (cur @ [seg])) nm = (Return (), nm)"
    using Cons.prems by (intro MkDir_existing [OF assms(1)]) (simp_all add: go_path)
  with Cons.IH [of "cur @ [seg]"] Cons.prems show ?case by (simp add: Join_abs_path valid_compD(1))
qed simp

lemma MkDirAll_existing:
  assumes "nm_inv nm" and "\<And>s. s \<in> set ps \<Longrightarrow> valid_comp s" and "\<And>q. prefix q ps \<Longrightarrow> view (ns_root nm) q \<noteq> None"
  shows "MkDirAll (abs_path ps) nm = (Return (), nm)"
proof (cases ps rule: rev_cases)
  case Nil
  then show ?thesis by (simp add: MkDirAll_def abs_path_root)
next
  case (snoc qs b)
  have parts: "Dir (abs_path (qs @ [b])) = abs_path qs" using assms(2) by (simp add: snoc go_path)
  have split: "mkdir_loop ''/'' (split_on sep (abs_path xs)) nm = mkdir_loop (abs_path []) xs nm"
    if "\<And>s. s \<in> set xs \<Longrightarrow> valid_comp s" for xs
    using split_on_abs_path [of xs] that by (simp add: abs_path_root)
  have "mkdir_loop (abs_path []) (qs @ [b]) nm = (Return (), nm)" "mkdir_loop (abs_path []) qs nm = (Return (), nm)"
    using assms(2,3) by (intro mkdir_loop_existing [OF assms(1)]; simp add: snoc)+
  then show ?thesis
    using assms(2) split [of qs] split [of "qs @ [b]"]
    by (auto simp: snoc MkDirAll_def RetrievePartitionFromPath_def parts Let_def)
qed

section \<open>Chunk handles\<close>

lemma new_chunk_spec:
  assumes "csm_inv (chunkServerManager ma)" and "wf_tree (ns_root (namespaceManager ma))"
    and "walk (ns_root (namespaceManager ma)) a = Some node"
    and "new_chunk now perm rpc p a ma = (Return h, ma')"
  shows "csm_inv (chunkServerManager ma')" "owner (chunkServerManager ma) h = None"
    "handles_of (chunkServerManager ma') = (handles_of (chunkServerManager ma))(p := handles_of (chunkServerManager ma) p @ [h])"
    "namespaceManager ma' = (namespaceManager ma)\<lparr>ns_root :=
       update_at a (\<lambda>t. set_size (ns_Length t) (ns_Chunks t + 1) t) (ns_root (namespaceManager ma))\<rparr>"
proof -
  obtain addrs success m1 where
    c: "createChunk now rpc p addrs (chunkServerManager ma) = ((h, success, None), m1)" and
    ma': "ma' = update_csm (addChunk success h) (update_node a (\<lambda>t. set_size (ns_Length t) (ns_Chunks t + 1) t)
      (ma\<lparr>chunkServerManager := m1\<rparr>))"
    using assms(4)
    by (auto simp: new_chunk_def on_csm_def Let_def bind_st_def split: outcome.splits prod.splits option.splits)
  note st = createChunk_state [OF c]
  have inv1: "csm_inv m1" using csm_inv_createChunk [OF assms(1), of now rpc p addrs] c by simp
  have add: "handles_of (addChunk xs k m) = handles_of m" for xs k m
    by (induction xs k m rule: addChunk.induct) (simp_all add: handles_of_def fun_eq_iff)
  show "csm_inv (chunkServerManager ma')"
    using inv1 by (simp add: ma' update_csm_def update_node_def csm_inv_addChunk)
  show "owner (chunkServerManager ma) h = None" using fresh_handle [OF assms(1)] st(1) by simp
  show "handles_of (chunkServerManager ma') = (handles_of (chunkServerManager ma))(p := handles_of (chunkServerManager ma) p @ [h])"
    by (simp add: ma' update_csm_def update_node_def add st(3))
  show "namespaceManager ma' = (namespaceManager ma)\<lparr>ns_root :=
       update_at a (\<lambda>t. set_size (ns_Length t) (ns_Chunks t + 1) t) (ns_root (namespaceManager ma))\<rparr>"
    by (simp add: ma' update_csm_def update_node_def)
qed

lemma view_bump_chunks:
  assumes "walk t a = Some x"
  shows "view (update_at a (\<lambda>t. set_size (ns_Length t) (ns_Chunks t + 1) t) t) =
    (view t)(a \<mapsto> (info x)\<lparr>a_chunks := ns_Chunks x + 1\<rparr>)"
proof -
  have "view (update_at a (\<lambda>t. set_size (ns_Length t) (ns_Chunks t + 1) t) t) =
      view (update_at a (set_size (ns_Length x) (ns_Chunks x + 1)) t)"
    by (rule ext) (simp add: view_update_at [OF assms])
  also have "\<dots> = (view t)(a \<mapsto> (info x)\<lparr>a_chunks := ns_Chunks x + 1\<rparr>)"
    by (simp add: view_set_size [OF assms] info_def)
  finally show ?thesis .
qed

lemma new_chunk_neutral:
  "fst (new_chunk now perm rpc p a ma) \<noteq> Deadlock"
  "ns_locks (namespaceManager (snd (new_chunk now perm rpc p a ma))) = ns_locks (namespaceManager ma)"
proof -
  have d: "chooseServers perm n m \<noteq> Deadlock" for n m
    by (auto simp: chooseServers_def Let_def Sample_def)
  show "fst (new_chunk now perm rpc p a ma) \<noteq> Deadlock"
    using d by (auto simp: new_chunk_def on_csm_def Let_def bind_st_def split: outcome.splits prod.splits option.splits)
  show "ns_locks (namespaceManager (snd (new_chunk now perm rpc p a ma))) = ns_locks (namespaceManager ma)"
    by (auto simp: new_chunk_def on_csm_def Let_def bind_st_def update_csm_def update_node_def
        split: outcome.splits prod.splits option.splits)
qed

text \<open>The handler on an existing file, with the namespace steps done.\<close>

text \<open>A node that is only read is locked and released again.\<close>

lemma with_node_read:
  assumes "ms_inv ma" and "ns_view ma a = Some att"
    and "\<And>node ma1. info node = att \<Longrightarrow> chunkServerManager ma1 = chunkServerManager ma \<Longrightarrow> body node ma1 = (r, ma1)" and "r \<noteq> Deadlock"
  shows "with_node a body ma = (r, ma)"
proof -
  obtain node where node: "walk (ns_root (namespaceManager ma)) a = Some node" "att = info node" using view_SomeD assms(2) by blast
  have nm: "nm_inv (namespaceManager ma)" using assms(1) by (simp add: ms_inv_def)
  let ?locked = "ma\<lparr>namespaceManager := (namespaceManager ma)\<lparr>ns_locks := no_locks(a := Writer)\<rparr>\<rparr>"
  have "body node ?locked = (r, ?locked)" by (rule assms(3)) (simp_all add: node(2))
  then have "with_node a body ma = (r, ?locked\<lparr>namespaceManager := (namespaceManager ?locked)\<lparr>ns_locks := no_locks\<rparr>\<rparr>)"
    using with_node_eq [where body = body, OF nm node(1)] assms(4) by simp
  then show ?thesis using nm_invD(3) [OF nm] by simp
qed

lemma GetChunkHandle_known:
  assumes inv: "ms_inv ma" and val: "list_all valid_comp d" and name: "ValidateFilename b (abs_path (d @ [b])) = None"
    and att: "ns_view ma (d @ [b]) = Some att" and "idx \<noteq> a_chunks att"
  shows "\<exists>ma'. RPCGetChunkHandleHandler now perm rpc (abs_path (d @ [b])) idx ma =
      (getChunkHandle (abs_path (d @ [b])) idx (chunkServerManager ma), ma') \<and>
    ms_inv ma' \<and> ns_view ma' = ns_view ma \<and> chunkServerManager ma' = chunkServerManager ma"
proof -
  let ?p = "abs_path (d @ [b])" and ?a = "d @ [b]"
  have base: "Base ?p = b" using valid_name [OF name] by (simp add: go_path)
  have bound: "ns_view ma ?a \<noteq> None" using att by simp
  obtain ma1 where prep: "\<And>k :: string list \<Rightarrow> master_server \<Rightarrow> chunk_handle ms_result.
        bind_st (on_ns (MkDirAll ?p) ma) (\<lambda>_ ma. bind_st (on_ns (Create ?p) ma)
        (\<lambda>_ ma. bind_st (on_ns (Get ?p) ma) k)) = k ?a ma1"
    and 1: "ms_inv ma1" "ns_view ma1 = ns_view ma" "chunkServerManager ma1 = chunkServerManager ma"
    using prepare_existing [OF inv val name bound] by blast
  have nodead: "getChunkHandle ?p i m \<noteq> Deadlock" for i m by (simp add: getChunkHandle_def split: option.splits)
  have "RPCGetChunkHandleHandler now perm rpc ?p idx ma = with_node ?a (\<lambda>file ma. if idx = ns_Chunks file then new_chunk now perm rpc ?p ?a ma
        else (getChunkHandle ?p idx (chunkServerManager ma), ma)) ma1"
    using name by (simp add: RPCGetChunkHandleHandler_def base prep)
  also have "\<dots> = (getChunkHandle ?p idx (chunkServerManager ma), ma1)"
    by (rule with_node_read [OF 1(1)]) (use assms(4,5) 1(2,3) nodead in \<open>auto simp: info_def\<close>)
  finally show ?thesis using 1 by blast
qed

lemma GetFileInfo_known:
  assumes inv: "ms_inv ma" and "list_all valid_comp (d @ [b])" and att: "ns_view ma (d @ [b]) = Some att"
  shows "RPCGetFileInfoHandler (abs_path (d @ [b])) ma = (Return (a_chunks att, a_isdir att, a_length att), ma)"
proof -
  have nm: "nm_inv (namespaceManager ma)" using inv by (simp add: ms_inv_def)
  have parts: "parent_parts (abs_path (d @ [b])) = d" "full_parts (abs_path (d @ [b])) = d @ [b]"
    using assms(2) by (simp_all add: go_path list_all_iff)
  have "walk (ns_root (namespaceManager ma)) (d @ [b]) \<noteq> None" using att by (auto simp: view_def)
  moreover have "walk (ns_root (namespaceManager ma)) d \<noteq> None" using view_prefix_closed [of _ "d @ [b]" d] att by (auto simp: view_def)
  ultimately have "on_ns (Get (abs_path (d @ [b]))) ma = (Return (d @ [b]), ma)"
    using Get_eq [OF nm_invD(3) [OF nm]] parts by (auto simp: on_ns_def split: option.splits)
  moreover have "with_node (d @ [b]) (\<lambda>file ma. (Return (ns_Chunks file, IsDir file, ns_Length file), ma)) ma =
      (Return (a_chunks att, a_isdir att, a_length att), ma)"
    by (rule with_node_read [OF inv att]) (auto simp: info_def)
  ultimately show ?thesis by (simp add: RPCGetFileInfoHandler_def)
qed

lemma GetChunkHandle_existing:
  assumes inv: "ms_inv ma" and val: "list_all valid_comp d" and name: "ValidateFilename b (abs_path (d @ [b])) = None"
    and att: "ns_view ma (d @ [b]) = Some att"
  shows "RPCGetChunkHandleHandler now perm rpc (abs_path (d @ [b])) (a_chunks att) ma = (Return h, ma') \<Longrightarrow>
      ms_inv ma' \<and> owner (chunkServerManager ma) h = None \<and>
      handles_of (chunkServerManager ma') = (handles_of (chunkServerManager ma))
        (abs_path (d @ [b]) := handles_of (chunkServerManager ma) (abs_path (d @ [b])) @ [h]) \<and>
      ns_view ma' = (ns_view ma)(d @ [b] \<mapsto> att\<lparr>a_chunks := a_chunks att + 1\<rparr>)"
    "chooseServers perm (int MinimumReplicationFactor + 1) (chunkServerManager ma) = Return addrs \<Longrightarrow> rpc = (\<lambda>_. None) \<Longrightarrow>
      fst (RPCGetChunkHandleHandler now perm rpc (abs_path (d @ [b])) (a_chunks att) ma) =
        Return (numberOfCreatedChunkHandle (chunkServerManager ma))"
proof -
  let ?p = "abs_path (d @ [b])" and ?a = "d @ [b]"
  have base: "Base ?p = b" using valid_name [OF name] by (simp add: go_path)
  have bound: "ns_view ma ?a \<noteq> None" using att by simp
  obtain ma1 where prep: "\<And>k :: string list \<Rightarrow> master_server \<Rightarrow> chunk_handle ms_result.
        bind_st (on_ns (MkDirAll ?p) ma) (\<lambda>_ ma. bind_st (on_ns (Create ?p) ma)
        (\<lambda>_ ma. bind_st (on_ns (Get ?p) ma) k)) = k ?a ma1"
    and 1: "ms_inv ma1" "ns_view ma1 = ns_view ma" "chunkServerManager ma1 = chunkServerManager ma"
    using prepare_existing [OF inv val name bound] by blast
  define body where "body idx = (\<lambda>file ma. if idx = ns_Chunks file then new_chunk now perm rpc ?p ?a ma
      else (getChunkHandle ?p idx (chunkServerManager ma), ma))" for idx
  have handler: "RPCGetChunkHandleHandler now perm rpc ?p idx ma = with_node ?a (body idx) ma1" for idx
    using name prep [of "\<lambda>a. with_node a (\<lambda>file ma. if idx = ns_Chunks file then new_chunk now perm rpc ?p a ma
        else (getChunkHandle ?p idx (chunkServerManager ma), ma))"]
    by (simp add: RPCGetChunkHandleHandler_def base body_def)
  obtain node where node: "walk (ns_root (namespaceManager ma1)) ?a = Some node" "att = info node"
    using view_SomeD [of _ ?a att] att 1(2) by metis
  have chunks: "a_chunks att = ns_Chunks node" by (simp add: node(2) info_def)
  note nm = 1(1) [unfolded ms_inv_def, THEN conjunct1] and csm = 1(1) [unfolded ms_inv_def, THEN conjunct2]
  let ?locked = "ma1\<lparr>namespaceManager := (namespaceManager ma1)\<lparr>ns_locks := no_locks(?a := Writer)\<rparr>\<rparr>"

  obtain r ma2 where b: "body (a_chunks att) node ?locked = (r, ma2)" by fastforce
  then have nc: "new_chunk now perm rpc ?p ?a ?locked = (r, ma2)" by (simp add: body_def chunks)
  have neutral: "r \<noteq> Deadlock" "ns_locks (namespaceManager ma2) = no_locks(?a := Writer)"
    using new_chunk_neutral [of now perm rpc ?p ?a ?locked] nc by simp_all
  note run = with_node_eq [where body = "body (a_chunks att)", OF nm node(1) b neutral]
  show "fst (RPCGetChunkHandleHandler now perm rpc ?p (a_chunks att) ma) = Return (numberOfCreatedChunkHandle (chunkServerManager ma))"
    if "chooseServers perm (int MinimumReplicationFactor + 1) (chunkServerManager ma) = Return addrs" "rpc = (\<lambda>_. None)"
  proof -
    have "r = Return (numberOfCreatedChunkHandle (chunkServerManager ma))"
      using that nc 1(3) by (auto simp: new_chunk_def on_csm_def createChunk_def Let_def List.map_filter_def)
    then show ?thesis using run by (simp add: handler)
  qed
  assume "RPCGetChunkHandleHandler now perm rpc ?p (a_chunks att) ma = (Return h, ma')"
  then have res: "with_node ?a (body (a_chunks att)) ma1 = (Return h, ma')" by (simp add: handler)
  show "ms_inv ma' \<and> owner (chunkServerManager ma) h = None \<and>
      handles_of (chunkServerManager ma') = (handles_of (chunkServerManager ma))(?p := handles_of (chunkServerManager ma) ?p @ [h]) \<and>
      ns_view ma' = (ns_view ma)(?a \<mapsto> att\<lparr>a_chunks := a_chunks att + 1\<rparr>)"
  proof -
    from run res have r: "r = Return h" and ma': "ma' = ma2\<lparr>namespaceManager := (namespaceManager ma2)\<lparr>ns_locks := no_locks\<rparr>\<rparr>" by auto
    have wf: "wf_tree (ns_root (namespaceManager ?locked))" "walk (ns_root (namespaceManager ?locked)) ?a = Some node"
      "csm_inv (chunkServerManager ?locked)" using nm_invD(1) [OF nm] node(1) csm by simp_all
    note spec = new_chunk_spec [OF wf(3,1,2) nc [unfolded r]]
    let ?t = "update_at ?a (\<lambda>t. set_size (ns_Length t) (ns_Chunks t + 1) t) (ns_root (namespaceManager ma1))"
    have "namespaceManager ma' = (namespaceManager ma1)\<lparr>ns_root := ?t, ns_locks := no_locks\<rparr>"
      using spec(4) by (simp add: ma')
    moreover have "wf_tree ?t" "IsDir ?t"
      using nm_invD(1,2) [OF nm] by (auto intro!: inv_intros simp: IsDir_update_at)
    ultimately have "nm_inv (namespaceManager ma')" "ns_view ma' = view ?t"
      using nm by (simp_all add: nm_inv_relock)
    moreover have "view ?t = (ns_view ma)(?a \<mapsto> att\<lparr>a_chunks := a_chunks att + 1\<rparr>)"
      using view_bump_chunks [OF node(1)] 1(2) node(2) chunks by simp
    ultimately show ?thesis using spec(1-3) 1(3) by (simp add: ms_inv_def ma')
  qed
qed

lemma a_chunks_bump: "a_chunks att \<noteq> a_chunks (att\<lparr>a_chunks := a_chunks att + 1\<rparr>)"
  by simp

section \<open>Properties\<close>

text \<open>
  C26. Asking for the chunk after the last one of an existing file, whose chunk count agrees with
  the master's handle list, allocates: on success the handle was not in use, it is appended to
  the file's handles, the file's chunk count goes up by one so the two still agree, nothing else
  in the namespace changes, and asking for the same index again returns the same handle without
  allocating.
\<close>

theorem GetChunkHandle_allocates_once:
  assumes "ms_inv ma" and "list_all valid_comp d" and "ValidateFilename b (abs_path (d @ [b])) = None"
    and "ns_view ma (d @ [b]) = Some att"
    and "a_chunks att = int (length (handles_of (chunkServerManager ma) (abs_path (d @ [b]))))"
    and "RPCGetChunkHandleHandler now perm rpc (abs_path (d @ [b])) (a_chunks att) ma = (Return h, ma')"
  shows "ms_inv ma' \<and> owner (chunkServerManager ma) h = None \<and>
    handles_of (chunkServerManager ma') (abs_path (d @ [b])) = handles_of (chunkServerManager ma) (abs_path (d @ [b])) @ [h] \<and>
    ns_view ma' = (ns_view ma)(d @ [b] \<mapsto> att\<lparr>a_chunks :=
      int (length (handles_of (chunkServerManager ma') (abs_path (d @ [b]))))\<rparr>) \<and>
    (\<forall>now' perm' rpc'. fst (RPCGetChunkHandleHandler now' perm' rpc' (abs_path (d @ [b])) (a_chunks att) ma') = Return h)"
proof -
  let ?p = "abs_path (d @ [b])"
  note alloc = GetChunkHandle_existing(1) [OF assms(1-4,6)]
  let ?att = "att\<lparr>a_chunks := a_chunks att + 1\<rparr>"
  have hs: "handles_of (chunkServerManager ma') ?p = handles_of (chunkServerManager ma) ?p @ [h]" using alloc by simp
  have "ms_inv ma'" "ns_view ma' (d @ [b]) = Some ?att" using alloc by simp_all
  from GetChunkHandle_known [OF this(1) assms(2,3) this(2), of "a_chunks att"]
  have "fst (RPCGetChunkHandleHandler now' perm' rpc' ?p (a_chunks att) ma') =
      getChunkHandle ?p (a_chunks att) (chunkServerManager ma')" for now' perm' rpc' by (metis fst_conv a_chunks_bump)
  moreover have "getChunkHandle ?p (a_chunks att) (chunkServerManager ma') = Return h"
    using hs assms(5) by (cases "map_of (files (chunkServerManager ma')) ?p") (auto simp: getChunkHandle_def handles_of_def)
  ultimately show ?thesis using alloc assms(5) by (simp add: add.commute)
qed

definition four_servers :: "namespace_manager \<Rightarrow> master_server" where
  "four_servers nm = \<lparr>namespaceManager = nm, chunkServerManager = NewChunkServerManager\<lparr>servers :=
     map (\<lambda>a. (a, \<lparr>lastHeartBeat = Some 0, sv_chunks = [], garbages = [],
       serverInfo = \<lparr>Hostname = a, RoundTripProximityTime = 1\<rparr>\<rparr>)) [''a'', ''b'', ''c'', ''d'']\<rparr>\<rparr>"

lemma four_servers_inv: "ms_inv (four_servers nm) \<longleftrightarrow> nm_inv nm"
  by (simp add: ms_inv_def four_servers_def csm_inv_def NewChunkServerManager_def handles_of_def)

lemma four_servers_choose:
  "chooseServers [0, 1, 2, 3] (int MinimumReplicationFactor + 1) (chunkServerManager (four_servers nm)) =
     Return [''a'', ''b'', ''c'', ''d'']"
  by (simp add: chooseServers_def four_servers_def MinimumReplicationFactor_def Sample_def Let_def numeral_eq_Suc)

lemma four_servers_simps [simp]:
  "namespaceManager (four_servers nm) = nm"
  "numberOfCreatedChunkHandle (chunkServerManager (four_servers nm)) = 0"
  "handles_of (chunkServerManager (four_servers nm)) p = []"
  by (simp_all add: four_servers_def NewChunkServerManager_def handles_of_def)

definition one_file :: namespace_manager where
  "one_file = NewNameSpaceManager\<lparr>ns_root := NsTree ''*'' 0 0 True (Some [(''f.txt'', file_node ''/f.txt'')])\<rparr>"

theorem GetChunkHandle_allocates_once_witness:
  "\<exists>ma'. RPCGetChunkHandleHandler 0 [0, 1, 2, 3] (\<lambda>_. None) ''/f.txt'' 0 (four_servers one_file) = (Return 0, ma') \<and>
     fst (RPCGetChunkHandleHandler 9 [] (\<lambda>_. None) ''/f.txt'' 0 ma') = Return 0"
proof -
  let ?ma = "four_servers one_file"
  have p: "abs_path [''f.txt''] = ''/f.txt''" by (simp add: abs_path_def)
  have inv: "ms_inv ?ma" by (simp add: four_servers_inv nm_inv_def one_file_def NewNameSpaceManager_def)
  have name: "ValidateFilename ''f.txt'' (abs_path ([] @ [''f.txt''])) = None" by (simp add: ValidateFilename_def)
  have att: "ns_view ?ma ([] @ [''f.txt'']) = Some (new_attrs ''/f.txt'' False)"
    by (simp add: one_file_def view_Cons child_def kids_def)
  have zero: "a_chunks (new_attrs ''/f.txt'' False) = 0" by (simp add: new_attrs_def)
  have "fst (RPCGetChunkHandleHandler 0 [0, 1, 2, 3] (\<lambda>_. None) (abs_path ([] @ [''f.txt''])) 0 ?ma) = Return 0"
    using GetChunkHandle_existing(2) [OF inv _ name att four_servers_choose refl] zero by simp
  then obtain ma' where r: "RPCGetChunkHandleHandler 0 [0, 1, 2, 3] (\<lambda>_. None) (abs_path ([] @ [''f.txt'']))
      (a_chunks (new_attrs ''/f.txt'' False)) ?ma = (Return 0, ma')"
    unfolding zero by (metis prod.collapse)
  from GetChunkHandle_allocates_once [OF inv _ name att _ r] r show ?thesis by (auto simp: zero p)
qed

text \<open>On an unbound path without a dot in its last name the handler first makes the directory.\<close>

lemma GetChunkHandle_unbound:
  assumes "ms_inv ma" and "list_all valid_comp d" and "ValidateFilename b (abs_path (d @ [b])) = None"
    and "CHR ''.'' \<notin> set b" and "ns_view ma (d @ [b]) = None"
    and "\<And>q att. strict_prefix q (d @ [b]) \<Longrightarrow> ns_view ma q = Some att \<Longrightarrow> a_isdir att"
  obtains nm1 where
    "\<And>now perm rpc. RPCGetChunkHandleHandler now perm rpc (abs_path (d @ [b])) 0 ma =
       RPCGetChunkHandleHandler now perm rpc (abs_path (d @ [b])) 0 (ma\<lparr>namespaceManager := nm1\<rparr>)"
    and "ms_inv (ma\<lparr>namespaceManager := nm1\<rparr>)"
    and "view (ns_root nm1) (d @ [b]) = Some (new_attrs (abs_path (d @ [b])) True)"
proof -
  let ?p = "abs_path (d @ [b])" and ?a = "d @ [b]"
  note inv = assms(1) [unfolded ms_inv_def, THEN conjunct1]
  have vb: "valid_comp b" using assms(3) by (rule valid_name)
  have val: "list_all valid_comp ?a" using assms(2) vb by simp
  have base: "Base ?p = b" using vb by (simp add: go_path)
  obtain nm1 where mk: "MkDirAll ?p (namespaceManager ma) = (Return (), nm1)"
    and V1: "view (ns_root nm1) ?a = Some (new_attrs ?p True)"
    using MkDirAll_makes_path [OF inv _ val _ assms(6)] assms(4,5)
    by (cases "MkDirAll ?p (namespaceManager ma)") (auto simp: fun_eq_iff)
  have inv1: "ms_inv (ma\<lparr>namespaceManager := nm1\<rparr>)"
    using nm_inv_MkDirAll [OF inv, of ?p] mk assms(1) by (simp add: ms_inv_def)
  have "MkDirAll ?p nm1 = (Return (), nm1)"
    using val V1 inv1 view_prefix_closed [of "ns_root nm1" ?a]
    by (intro MkDirAll_existing) (auto simp: ms_inv_def list_all_iff)
  then have "RPCGetChunkHandleHandler now perm rpc ?p 0 ma =
      RPCGetChunkHandleHandler now perm rpc ?p 0 (ma\<lparr>namespaceManager := nm1\<rparr>)" for now perm rpc
    using mk assms(3) by (simp add: RPCGetChunkHandleHandler_def base on_ns_def)
  with inv1 V1 that show thesis by blast
qed

text \<open>
  A path whose last name has no dot is made a directory: asking for a chunk handle of an
  unbound path \<^verbatim>\<open>/.../name\<close> first runs \<^verbatim>\<open>MkDirAll\<close> on the whole path, so the node that then
  carries the chunk count is a directory, and recording the file's length afterwards is refused.
\<close>

theorem GetChunkHandle_makes_directory:
  assumes "ms_inv ma" and "list_all valid_comp d" and "ValidateFilename b (abs_path (d @ [b])) = None"
    and "CHR ''.'' \<notin> set b" and "ns_view ma (d @ [b]) = None"
    and "\<And>q att. strict_prefix q (d @ [b]) \<Longrightarrow> ns_view ma q = Some att \<Longrightarrow> a_isdir att"
    and "RPCGetChunkHandleHandler now perm rpc (abs_path (d @ [b])) 0 ma = (Return h, ma')"
  shows "\<exists>att. ns_view ma' (d @ [b]) = Some att \<and> a_isdir att \<and>
    fst (RPCUpdateFileMetadataHandler (abs_path (d @ [b])) len n ma') = Fail (NsErr IsADirectory (abs_path (d @ [b])))"
proof -
  let ?p = "abs_path (d @ [b])" and ?a = "d @ [b]"
  obtain nm1 where same: "\<And>now perm rpc. RPCGetChunkHandleHandler now perm rpc ?p 0 ma =
      RPCGetChunkHandleHandler now perm rpc ?p 0 (ma\<lparr>namespaceManager := nm1\<rparr>)"
    and inv1: "ms_inv (ma\<lparr>namespaceManager := nm1\<rparr>)" and V1: "view (ns_root nm1) ?a = Some (new_attrs ?p True)"
    by (rule GetChunkHandle_unbound [OF assms(1-5)]) (use assms(6) in blast)+
  let ?ma = "ma\<lparr>namespaceManager := nm1\<rparr>"
  have base: "Base ?p = b" "Dir ?p = abs_path d" "path_parts (abs_path d) = d"
    using valid_name [OF assms(3)] assms(2) by (simp_all add: go_path list_all_iff)
  have att: "ns_view ?ma ?a = Some (new_attrs ?p True)" using V1 by simp
  have "RPCGetChunkHandleHandler now perm rpc ?p 0 ma = RPCGetChunkHandleHandler now perm rpc ?p 0 ?ma" by (rule same)
  moreover have "a_chunks (new_attrs ?p True) = 0" by (simp add: new_attrs_def)
  ultimately have alloc: "ms_inv ma' \<and> ns_view ma' = (ns_view ?ma)(?a \<mapsto> (new_attrs ?p True)\<lparr>a_chunks := 1\<rparr>)"
    using GetChunkHandle_existing(1) [OF inv1 assms(2,3) att, of now perm rpc h ma'] assms(7) by auto
  have "ns_view ma' d \<noteq> None"
    using alloc view_prefix_closed [of "ns_root (namespaceManager ma')" ?a d] by simp
  then have "fst (abs_update ?p len n (ns_view ma')) = Fail (NsErr IsADirectory ?p)"
    using alloc by (simp add: abs_update_def base in_parent_def new_attrs_def)
  moreover have "abs_res (UpdateFileMetadata ?p len n (namespaceManager ma')) = abs_update ?p len n (ns_view ma')"
    using alloc by (intro UpdateFileMetadata_refines) (simp add: ms_inv_def)
  ultimately have "fst (UpdateFileMetadata ?p len n (namespaceManager ma')) = Fail (NsErr IsADirectory ?p)"
    by (metis abs_res_def fst_apsnd)
  then show ?thesis
    using alloc by (auto simp: RPCUpdateFileMetadataHandler_def on_ns_def new_attrs_def split: prod.splits)
qed

theorem GetChunkHandle_makes_directory_witness:
  "\<exists>h ma'. RPCGetChunkHandleHandler 0 [0, 1, 2, 3] (\<lambda>_. None) ''/f'' 0 (four_servers NewNameSpaceManager) = (Return h, ma') \<and>
     (\<exists>att. ns_view ma' [''f''] = Some att \<and> a_isdir att)"
proof -
  let ?ma = "four_servers NewNameSpaceManager"
  have p: "abs_path [''f''] = ''/f''" by (simp add: abs_path_def)
  have inv: "ms_inv ?ma" by (simp add: four_servers_inv NewNameSpaceManager_inv)
  have name: "ValidateFilename ''f'' (abs_path ([] @ [''f''])) = None" "CHR ''.'' \<notin> set ''f''"
    by (simp_all add: ValidateFilename_def)
  have free: "ns_view ?ma ([] @ [''f'']) = None"
    by (simp add: four_servers_def NewNameSpaceManager_def view_Cons child_def kids_def)
  have dirs: "a_isdir att" if "strict_prefix q ([] @ [''f''])" "ns_view ?ma q = Some att" for q att
    using that by (cases q) (auto simp: four_servers_def NewNameSpaceManager_def view_Cons child_def kids_def new_attrs_def)
  obtain nm1 where same: "\<And>now perm rpc. RPCGetChunkHandleHandler now perm rpc (abs_path ([] @ [''f''])) 0 ?ma =
      RPCGetChunkHandleHandler now perm rpc (abs_path ([] @ [''f''])) 0 (?ma\<lparr>namespaceManager := nm1\<rparr>)"
    and inv1: "ms_inv (?ma\<lparr>namespaceManager := nm1\<rparr>)"
    and V1: "view (ns_root nm1) ([] @ [''f'']) = Some (new_attrs (abs_path ([] @ [''f''])) True)"
    by (rule GetChunkHandle_unbound [OF inv _ name free]) (use dirs in auto)
  have "fst (RPCGetChunkHandleHandler 0 [0, 1, 2, 3] (\<lambda>_. None) (abs_path ([] @ [''f''])) 0 ?ma) = Return 0"
    using GetChunkHandle_existing(2) [OF inv1 _ name(1), where att = "new_attrs (abs_path ([] @ [''f''])) True"
        and perm = "[0, 1, 2, 3]" and now = 0 and rpc = "\<lambda>_. None"]
      V1 four_servers_choose unfolding same by (simp add: new_attrs_def four_servers_choose)
  then obtain ma' where r: "RPCGetChunkHandleHandler 0 [0, 1, 2, 3] (\<lambda>_. None) (abs_path ([] @ [''f''])) 0 ?ma = (Return 0, ma')"
    by (metis prod.collapse)
  have "\<exists>att. ns_view ma' ([] @ [''f'']) = Some att \<and> a_isdir att \<and>
      fst (RPCUpdateFileMetadataHandler (abs_path ([] @ [''f''])) 0 0 ma') = Fail (NsErr IsADirectory (abs_path ([] @ [''f''])))"
    by (rule GetChunkHandle_makes_directory [OF inv _ name free _ r]) (use dirs in simp_all)
  with r show ?thesis by (auto simp: p)
qed

end
