(* ===== verification/File_System.thy ===== *)
theory File_System
  imports Go_Path
begin

text \<open>
  The rooted file system of \<^verbatim>\<open>src/file_system/file_system.go\<close>. The disk of the machine maps the
  list of components of an absolute path to a regular file or a directory; the functions of Go's
  \<^verbatim>\<open>os\<close> package that the code calls are defined on it with the error the kernel reports. The disk
  has no symbolic links, permissions and devices, and it does not fail, so \<^verbatim>\<open>EvalSymlinks\<close> is the
  identity on what exists. The mutex of a \<^verbatim>\<open>FileSystem\<close> makes every operation atomic.
\<close>

section \<open>The disk and the os package\<close>

datatype os_entry = OsFile "byte list" | OsDir

type_synonym disk = "string list \<Rightarrow> os_entry option"

text \<open>Path resolution: every proper prefix has to be a directory.\<close>

fun resolve :: "string list \<Rightarrow> string list \<Rightarrow> disk \<Rightarrow> os_entry outcome" where
  "resolve pre [] d = (case d pre of None \<Rightarrow> Fail (Os ENOENT) | Some e \<Rightarrow> Return e)"
| "resolve pre (c # cs) d = (case d pre of
     None \<Rightarrow> Fail (Os ENOENT)
   | Some (OsFile _) \<Rightarrow> Fail (Os ENOTDIR)
   | Some OsDir \<Rightarrow> resolve (pre @ [c]) cs d)"

definition os_Stat :: "path \<Rightarrow> disk \<Rightarrow> os_entry outcome" where
  "os_Stat p d = resolve [] (path_parts p) d"

definition os_MkdirAll :: "path \<Rightarrow> disk \<Rightarrow> unit outcome \<times> disk" where
  "os_MkdirAll p d =
     (let cs = path_parts p in
      if list_ex (\<lambda>q. case d q of Some (OsFile _) \<Rightarrow> True | _ \<Rightarrow> False) (prefixes cs) then (Fail (Os ENOTDIR), d)
      else (Return (), \<lambda>q. if prefix q cs then Some OsDir else d q))"

definition os_RemoveAll :: "path \<Rightarrow> disk \<Rightarrow> disk" where
  "os_RemoveAll p d = (\<lambda>q. if prefix (path_parts p) q then None else d q)"

definition os_Remove :: "path \<Rightarrow> disk \<Rightarrow> disk" where
  "os_Remove p d = d(path_parts p := None)"

text \<open>
  Opening with \<^verbatim>\<open>O_CREATE|O_TRUNC\<close>. The parent of the disk's root is the root itself, which is a
  directory.
\<close>

definition os_Create :: "path \<Rightarrow> disk \<Rightarrow> unit outcome \<times> disk" where
  "os_Create p d =
     (let cs = path_parts p in
      if cs = [] then (Fail (Os EISDIR), d)
      else case resolve [] (butlast cs) d of
        Return OsDir \<Rightarrow> (case d cs of
            Some OsDir \<Rightarrow> (Fail (Os EISDIR), d)
          | _ \<Rightarrow> (Return (), d(cs \<mapsto> OsFile [])))
      | Return (OsFile _) \<Rightarrow> (Fail (Os ENOTDIR), d)
      | Fail e \<Rightarrow> (Fail e, d)
      | _ \<Rightarrow> (Panic, d))"

text \<open>
  \<^verbatim>\<open>os.Rename\<close> refuses an existing directory as the target; the kernel refuses to put a directory
  below itself or in the place of a file, and replaces a file.
\<close>

definition os_Rename :: "path \<Rightarrow> path \<Rightarrow> disk \<Rightarrow> unit outcome \<times> disk" where
  "os_Rename old new d =
     (let os = path_parts old; ns = path_parts new in
      case os_Stat old d of
        Fail e \<Rightarrow> (Fail e, d)
      | Return src \<Rightarrow>
          if d ns = Some OsDir then (Fail (Os EEXIST), d)
          else if ns = [] then (Fail (Os EEXIST), d)
          else (case resolve [] (butlast ns) d of
            Fail e \<Rightarrow> (Fail e, d)
          | Return (OsFile _) \<Rightarrow> (Fail (Os ENOTDIR), d)
          | Return OsDir \<Rightarrow>
              if src = OsDir \<and> d ns \<noteq> None then (Fail (Os ENOTDIR), d)
              else if strict_prefix os ns then (Fail (Os EINVAL), d)
              else (Return (), \<lambda>q. if prefix ns q then d (os @ drop (length ns) q)
                     else if prefix os q then None else d q)
          | _ \<Rightarrow> (Panic, d))
      | _ \<Rightarrow> (Panic, d))"

section \<open>The rooted file system\<close>

record file_system =
  fs_root :: path
  fs_disk :: disk

definition NewFileSystem :: "path \<Rightarrow> disk \<Rightarrow> file_system" where
  "NewFileSystem r d = \<lparr>fs_root = r, fs_disk = d\<rparr>"

text \<open>
  The path is cleaned as if it were absolute, so that no \<^verbatim>\<open>..\<close> is left, and joined to the root. A
  path whose resolution fails other than by being absent is refused.
\<close>

definition restrictToRoot :: "path \<Rightarrow> file_system \<Rightarrow> path outcome" where
  "restrictToRoot p fs =
     (let fullPath = Join [fs_root fs, Clean (sep # p)] in
      case os_Stat fullPath (fs_disk fs) of
        Fail e \<Rightarrow> if e = (Os ENOENT) then Return fullPath else Fail e
      | _ \<Rightarrow> Return fullPath)"

definition on_disk :: "(disk \<Rightarrow> 'a outcome \<times> disk) \<Rightarrow> file_system \<Rightarrow> 'a outcome \<times> file_system" where
  "on_disk f fs = (case f (fs_disk fs) of (r, d) \<Rightarrow> (r, fs\<lparr>fs_disk := d\<rparr>))"

definition MkDir :: "path \<Rightarrow> file_system \<Rightarrow> unit outcome \<times> file_system" where
  "MkDir p fs = (case restrictToRoot p fs of
     Return path \<Rightarrow> on_disk (os_MkdirAll path) fs
   | Fail e \<Rightarrow> (Fail e, fs)
   | _ \<Rightarrow> (Panic, fs))"

definition getFileInfo :: "path \<Rightarrow> file_system \<Rightarrow> os_entry outcome" where
  "getFileInfo p fs = os_Stat p (fs_disk fs)"

definition RemoveDir :: "path \<Rightarrow> file_system \<Rightarrow> unit outcome \<times> file_system" where
  "RemoveDir p fs = (case restrictToRoot p fs of
     Return path \<Rightarrow> (case getFileInfo path fs of
         Return OsDir \<Rightarrow> (Return (), fs\<lparr>fs_disk := os_RemoveAll path (fs_disk fs)\<rparr>)
       | Return (OsFile _) \<Rightarrow> (Fail (PathErr ProvidedPathNotADirectory path), fs)
       | Fail e \<Rightarrow> (Fail e, fs)
       | _ \<Rightarrow> (Panic, fs))
   | Fail e \<Rightarrow> (Fail e, fs)
   | _ \<Rightarrow> (Panic, fs))"

definition GetStat :: "path \<Rightarrow> file_system \<Rightarrow> os_entry outcome" where
  "GetStat p fs = bind_outcome (restrictToRoot p fs) (\<lambda>path. os_Stat path (fs_disk fs))"

text \<open>
  The loop over the two steps looks at the old path both times: the first step returns when it is
  absent, and \<^verbatim>\<open>Stat\<close> never fails because a path exists, so the second step never returns.
\<close>

definition is_not_exist :: "go_error \<Rightarrow> bool" where
  "is_not_exist e \<longleftrightarrow> e = (Os ENOENT)"

definition is_exist :: "go_error \<Rightarrow> bool" where
  "is_exist e \<longleftrightarrow> e = (Os EEXIST)"

fun rename_steps :: "((go_error \<Rightarrow> bool) \<times> go_error) list \<Rightarrow> path \<Rightarrow> file_system \<Rightarrow> go_error option" where
  "rename_steps [] old fs = None"
| "rename_steps ((fn, err) # steps) old fs = (case getFileInfo old fs of
     Fail e \<Rightarrow> if fn e then Some err else rename_steps steps old fs
   | _ \<Rightarrow> rename_steps steps old fs)"

definition Rename :: "path \<Rightarrow> path \<Rightarrow> file_system \<Rightarrow> unit outcome \<times> file_system" where
  "Rename oldPath newPath fs =
     (case bind_outcome (restrictToRoot oldPath fs) (\<lambda>old. bind_outcome (restrictToRoot newPath fs) (\<lambda>new. Return (old, new))) of
        Return (old, new) \<Rightarrow>
          (case rename_steps [(is_not_exist, PathErr OldPathDoesNotExist old), (is_exist, PathErr PathAlreadyExists old)] old fs of
             Some e \<Rightarrow> (Fail e, fs)
           | None \<Rightarrow> on_disk (os_Rename old new) fs)
      | Fail e \<Rightarrow> (Fail e, fs)
      | _ \<Rightarrow> (Panic, fs))"

definition CreateFile :: "path \<Rightarrow> file_system \<Rightarrow> unit outcome \<times> file_system" where
  "CreateFile p fs = (case restrictToRoot p fs of
     Return path \<Rightarrow> (case getFileInfo path fs of
         Fail e \<Rightarrow> if is_exist e then (Fail (PathErr PathAlreadyExists path), fs) else on_disk (os_Create path) fs
       | Return (OsFile _) \<Rightarrow> (Fail (PathErr PathAlreadyExists path), fs)
       | Return OsDir \<Rightarrow> on_disk (os_Create path) fs
       | _ \<Rightarrow> (Panic, fs))
   | Fail e \<Rightarrow> (Fail e, fs)
   | _ \<Rightarrow> (Panic, fs))"

text \<open>
  An open file is its path. The flags do not matter here: the file is known to exist, so
  \<^verbatim>\<open>O_CREATE\<close> has no effect, and \<^verbatim>\<open>O_TRUNC\<close> is the argument \<open>trunc\<close>.
\<close>

definition GetFile :: "path \<Rightarrow> bool \<Rightarrow> file_system \<Rightarrow> path outcome \<times> file_system" where
  "GetFile p trunc fs = (case restrictToRoot p fs of
     Return path \<Rightarrow> (case getFileInfo path fs of
         Return OsDir \<Rightarrow> (Fail (PathErr NotAFile path), fs)
       | Return (OsFile _) \<Rightarrow> (Return path, if trunc then fs\<lparr>fs_disk := (fs_disk fs)(path_parts path \<mapsto> OsFile [])\<rparr> else fs)
       | Fail e \<Rightarrow> (Fail e, fs)
       | _ \<Rightarrow> (Panic, fs))
   | Fail e \<Rightarrow> (Fail e, fs)
   | _ \<Rightarrow> (Panic, fs))"

definition RemoveFile :: "path \<Rightarrow> file_system \<Rightarrow> unit outcome \<times> file_system" where
  "RemoveFile p fs = (case restrictToRoot p fs of
     Return path \<Rightarrow> (case getFileInfo path fs of
         Return (OsFile _) \<Rightarrow> (Return (), fs\<lparr>fs_disk := os_Remove path (fs_disk fs)\<rparr>)
       | Return OsDir \<Rightarrow> (Fail (PathErr NotARegularFile path), fs)
       | Fail e \<Rightarrow> (Fail e, fs)
       | _ \<Rightarrow> (Panic, fs))
   | Fail e \<Rightarrow> (Fail e, fs)
   | _ \<Rightarrow> (Panic, fs))"

section \<open>Reading and writing an open file\<close>

definition file_bytes :: "path \<Rightarrow> file_system \<Rightarrow> byte list" where
  "file_bytes f fs = (case fs_disk fs (path_parts f) of Some (OsFile bs) \<Rightarrow> bs | _ \<Rightarrow> [])"

definition set_file :: "path \<Rightarrow> byte list \<Rightarrow> file_system \<Rightarrow> file_system" where
  "set_file f bs fs = fs\<lparr>fs_disk := (fs_disk fs)(path_parts f \<mapsto> OsFile bs)\<rparr>"

text \<open>Writing beyond the end fills the gap with zero bytes; writing nothing changes nothing.\<close>

definition write_at :: "nat \<Rightarrow> byte list \<Rightarrow> byte list \<Rightarrow> byte list" where
  "write_at off ws bs =
     (if ws = [] then bs else take off (bs @ replicate (off - length bs) 0) @ ws @ drop (off + length ws) bs)"

definition WriteAt :: "path \<Rightarrow> byte list \<Rightarrow> offset \<Rightarrow> file_system \<Rightarrow> unit outcome \<times> file_system" where
  "WriteAt f ws off fs =
     (if off < 0 then (Fail (Os EINVAL), fs) else (Return (), set_file f (write_at (nat off) ws (file_bytes f fs)) fs))"

definition append_end :: "path \<Rightarrow> byte list \<Rightarrow> file_system \<Rightarrow> file_system" where
  "append_end f ws fs = set_file f (file_bytes f fs @ ws) fs"

text \<open>The bytes read; fewer than asked for come with \<^verbatim>\<open>io.EOF\<close>.\<close>

definition ReadAt :: "path \<Rightarrow> nat \<Rightarrow> offset \<Rightarrow> file_system \<Rightarrow> byte list \<times> go_error option" where
  "ReadAt f n off fs =
     (if off < 0 then ([], Some (Os EINVAL))
      else let got = take n (drop (nat off) (file_bytes f fs))
           in (got, if length got < n then Some (Os EOF) else None))"

end
