(* ===== verification/File_System_Properties.thy ===== *)
theory File_System_Properties
  imports File_System
begin

text \<open>
  What the rooted file system promises: the disk stays a tree, no operation touches anything
  outside the root whatever the path it is given, and, for the flat directories in which the
  servers keep their files, the laws of a store of named byte strings (the locale \<open>flat_store\<close>).
\<close>

section \<open>Paths below the root\<close>

definition fs_parts :: "file_system \<Rightarrow> string list" where
  "fs_parts fs = path_parts (fs_root fs)"

definition rel_parts :: "path \<Rightarrow> string list" where
  "rel_parts p = path_parts (Clean (sep # p))"

definition canonical_root :: "file_system \<Rightarrow> bool" where
  "canonical_root fs \<longleftrightarrow> fs_root fs = abs_path (fs_parts fs) \<and> list_all valid_comp (fs_parts fs) \<and> fs_parts fs \<noteq> []"

definition disk_ok :: "disk \<Rightarrow> bool" where
  "disk_ok d \<longleftrightarrow> d [] = Some OsDir \<and> (\<forall>q c. d (q @ [c]) \<noteq> None \<longrightarrow> d q = Some OsDir)"

definition fs_inv :: "file_system \<Rightarrow> bool" where
  "fs_inv fs \<longleftrightarrow> canonical_root fs \<and> disk_ok (fs_disk fs)"

lemma clean_elems_filter: "clean_elems r out (filter (\<lambda>s. s \<noteq> []) ss) = clean_elems r out ss"
  by (induction r out ss rule: clean_elems.induct) (auto split: list.splits)

lemma rel_parts_valid: "list_all valid_comp (rel_parts p)" and Clean_sep: "Clean (sep # p) = abs_path (rel_parts p)"
proof -
  have "rooted (sep # p)" by (simp add: rooted_def)
  then obtain ps where "Clean (sep # p) = abs_path ps" and "\<And>s. s \<in> set ps \<Longrightarrow> valid_comp s"
    using Clean_rooted by blast
  then show "list_all valid_comp (rel_parts p)" "Clean (sep # p) = abs_path (rel_parts p)"
    by (simp_all add: rel_parts_def path_parts_abs_path list_all_iff)
qed

lemma rel_parts_simple: "valid_comp n \<Longrightarrow> rel_parts n = [n]"
  using Clean_abs_path [of "[n]"] path_parts_abs_path [of "[n]"] by (simp add: rel_parts_def abs_path_def)

lemma path_parts_append_abs:
  "list_all valid_comp rs \<Longrightarrow> list_all valid_comp ps \<Longrightarrow> path_parts (abs_path rs @ [sep] @ abs_path ps) = rs @ ps"
  using path_parts_abs_path [of rs] path_parts_abs_path [of ps]
  by (simp add: path_parts_def split_on_append list_all_iff)

lemma fullPath:
  assumes "canonical_root fs"
  shows "Join [fs_root fs, Clean (sep # p)] = abs_path (fs_parts fs @ rel_parts p)"
proof -
  let ?s = "abs_path (fs_parts fs) @ [sep] @ abs_path (rel_parts p)"
  have v: "list_all valid_comp (fs_parts fs)" "list_all valid_comp (rel_parts p)"
    using assms rel_parts_valid by (auto simp: canonical_root_def)
  have "clean_elems True [] (split_on sep ?s) = clean_elems True [] (fs_parts fs @ rel_parts p)"
    using path_parts_append_abs [OF v] clean_elems_filter [of True "[]" "split_on sep ?s"] by (simp add: path_parts_def)
  also have "\<dots> = fs_parts fs @ rel_parts p"
    using v by (subst clean_elems_valid) (auto simp: list_all_iff)
  finally have "Clean ?s = abs_path (fs_parts fs @ rel_parts p)"
    by (simp add: Clean_def rooted_def abs_path_def)
  moreover have "fs_root fs = abs_path (fs_parts fs)" using assms by (simp add: canonical_root_def)
  ultimately show ?thesis
    by (simp add: Join_def Clean_sep abs_path_def)
qed

lemma path_parts_full [simp]:
  "canonical_root fs \<Longrightarrow> path_parts (abs_path (fs_parts fs @ rel_parts p)) = fs_parts fs @ rel_parts p"
  using rel_parts_valid [of p] by (intro path_parts_abs_path) (auto simp: canonical_root_def list_all_iff)

section \<open>Resolution on a tree\<close>

lemma disk_ok_parent: "disk_ok d \<Longrightarrow> d (q @ [c]) \<noteq> None \<Longrightarrow> d q = Some OsDir"
  unfolding disk_ok_def by blast

lemma disk_ok_prefix: "disk_ok d \<Longrightarrow> d q \<noteq> None \<Longrightarrow> strict_prefix p q \<Longrightarrow> d p = Some OsDir"
proof (induction q rule: rev_induct)
  case (snoc c q)
  then have "d q = Some OsDir" using disk_ok_parent by blast
  with snoc show ?case by (cases "p = q") (auto simp: strict_prefix_def)
qed simp

lemma resolve_ok: "disk_ok d \<Longrightarrow> d (pre @ cs) = Some e \<Longrightarrow> resolve pre cs d = Return e"
proof (induction cs arbitrary: pre)
  case (Cons c cs)
  then have "d pre = Some OsDir" by (intro disk_ok_prefix [of d "pre @ c # cs"]) (auto simp: strict_prefix_def)
  with Cons show ?case by simp
qed simp

lemma resolve_Return: "resolve pre cs d = Return e \<Longrightarrow> d (pre @ cs) = Some e"
  by (induction cs arbitrary: pre) (fastforce split: option.splits os_entry.splits)+

lemma resolve_outcome: "(\<exists>e. resolve pre cs d = Return e) \<or> resolve pre cs d = Fail (Os ENOENT) \<or> resolve pre cs d = Fail (Os ENOTDIR)"
  by (induction cs arbitrary: pre) (auto split: option.splits os_entry.splits)

lemma resolve_iff: "disk_ok d \<Longrightarrow> resolve [] cs d = Return e \<longleftrightarrow> d cs = Some e"
  using resolve_ok [of d "[]" cs e] resolve_Return [of "[]" cs d e] by auto

lemma resolve_missing:
  "d (pre @ [c]) = None \<Longrightarrow> d pre = Some OsDir \<Longrightarrow> resolve pre [c] d = Fail (Os ENOENT)"
  by simp

lemma resolve_append: "d p = Some OsDir \<Longrightarrow> disk_ok d \<Longrightarrow> p = pre @ cs \<Longrightarrow> resolve pre (cs @ ds) d = resolve p ds d"
proof (induction cs arbitrary: pre)
  case (Cons c cs)
  then have "d pre = Some OsDir" by (intro disk_ok_prefix [of d "pre @ c # cs"]) (auto simp: strict_prefix_def)
  with Cons show ?case by simp
qed simp

section \<open>The operations, seen on components\<close>

definition full :: "file_system \<Rightarrow> path \<Rightarrow> string list" where
  "full fs p = fs_parts fs @ rel_parts p"

lemma restrictToRoot_eq:
  assumes "fs_inv fs"
  shows "restrictToRoot p fs =
    (if resolve [] (full fs p) (fs_disk fs) = Fail (Os ENOTDIR) then Fail (Os ENOTDIR) else Return (abs_path (full fs p)))"
proof -
  have "canonical_root fs" using assms by (simp add: fs_inv_def)
  then show ?thesis
    using resolve_outcome [of "[]" "full fs p" "fs_disk fs"]
    by (auto simp: restrictToRoot_def fullPath os_Stat_def full_def Let_def)
qed

lemma path_parts_fullp [simp]: "fs_inv fs \<Longrightarrow> path_parts (abs_path (full fs p)) = full fs p"
  by (simp add: full_def fs_inv_def)

lemma full_neq_Nil [simp]: "fs_inv fs \<Longrightarrow> full fs p \<noteq> []"
  by (simp add: full_def fs_inv_def canonical_root_def)

lemma prefix_full [simp]: "prefix (fs_parts fs) (full fs p)"
  by (simp add: full_def)

lemma stat_full: "fs_inv fs \<Longrightarrow> getFileInfo (abs_path (full fs p)) fs = resolve [] (full fs p) (fs_disk fs)"
  by (simp add: getFileInfo_def os_Stat_def)

lemma fs_parts_disk [simp]: "fs_parts (fs\<lparr>fs_disk := d\<rparr>) = fs_parts fs"
  by (simp add: fs_parts_def)

lemma fs_inv_disk: "fs_inv fs \<Longrightarrow> disk_ok d \<Longrightarrow> fs_inv (fs\<lparr>fs_disk := d\<rparr>)"
  by (simp add: fs_inv_def canonical_root_def)

text \<open>A change of the disk that keeps it a tree and stays below the root, apart from making the root's missing ancestors.\<close>

definition confined :: "string list \<Rightarrow> disk \<Rightarrow> disk \<Rightarrow> bool" where
  "confined r d d' \<longleftrightarrow> (\<forall>q. prefix r q \<or> d' q = d q \<or> strict_prefix q r \<and> d q = None \<and> d' q = Some OsDir)"

definition fs_change :: "file_system \<Rightarrow> file_system \<Rightarrow> bool" where
  "fs_change fs fs' \<longleftrightarrow> (\<exists>d. fs' = fs\<lparr>fs_disk := d\<rparr> \<and> disk_ok d \<and> confined (fs_parts fs) (fs_disk fs) d)"

lemma fs_change_refl: "fs_inv fs \<Longrightarrow> fs_change fs fs"
  unfolding fs_change_def by (rule exI [of _ "fs_disk fs"]) (simp add: fs_inv_def confined_def)

lemma fs_changeI: "disk_ok d \<Longrightarrow> confined (fs_parts fs) (fs_disk fs) d \<Longrightarrow> fs_change fs (fs\<lparr>fs_disk := d\<rparr>)"
  unfolding fs_change_def by blast

lemma disk_ok_mkdir:
  assumes "disk_ok d" and "\<And>q. prefix q cs \<Longrightarrow> d q = None \<or> d q = Some OsDir"
  shows "disk_ok (\<lambda>q. if prefix q cs then Some OsDir else d q)"
proof -
  have "d q = Some OsDir" if "d (q @ [c]) \<noteq> None" for q c using that assms(1) disk_ok_parent by blast
  moreover have "prefix q cs" if "prefix (q @ [c]) cs" for q c using that append_prefixD by blast
  ultimately show ?thesis unfolding disk_ok_def by auto
qed

lemma os_MkdirAll_Return:
  assumes "fst (os_MkdirAll p d) = Return ()" and "prefix q (path_parts p)"
  shows "d q = None \<or> d q = Some OsDir"
proof (rule ccontr)
  assume "\<not> ?thesis"
  then obtain bs where "d q = Some (OsFile bs)" by (metis os_entry.exhaust option.exhaust)
  with assms show False by (auto simp: os_MkdirAll_def Let_def list_ex_iff split: if_splits dest!: bspec [of _ _ q])
qed

lemma confined_mkdir:
  assumes "prefix r cs" and "\<And>q. prefix q cs \<Longrightarrow> d q = None \<or> d q = Some OsDir"
  shows "confined r d (\<lambda>q. if prefix q cs then Some OsDir else d q)"
  unfolding confined_def
proof (intro allI)
  fix q
  show "prefix r q \<or> (if prefix q cs then Some OsDir else d q) = d q \<or>
      strict_prefix q r \<and> d q = None \<and> (if prefix q cs then Some OsDir else d q) = Some OsDir"
  proof (cases "prefix q cs \<and> \<not> prefix r q")
    case True
    with assms(1) have "strict_prefix q r" using prefix_same_cases [of q cs r] by (auto simp: strict_prefix_def)
    with True assms(2) [of q] show ?thesis by auto
  qed auto
qed

lemma MkDir_change: "fs_inv fs \<Longrightarrow> fs_change fs (snd (MkDir p fs))"
proof -
  assume inv: "fs_inv fs"
  let ?d = "fs_disk fs" and ?cs = "full fs p"
  show ?thesis
  proof (cases "fst (os_MkdirAll (abs_path ?cs) ?d) = Return ()")
    case True
    then have dirs: "?d q = None \<or> ?d q = Some OsDir" if "prefix q ?cs" for q
      using that inv os_MkdirAll_Return by simp
    have "disk_ok ?d" using inv by (simp add: fs_inv_def)
    then have "fs_change fs (fs\<lparr>fs_disk := \<lambda>q. if prefix q ?cs then Some OsDir else ?d q\<rparr>)"
      using dirs by (intro fs_changeI disk_ok_mkdir confined_mkdir) auto
    then show ?thesis using inv True fs_change_refl [OF inv]
      by (auto simp: MkDir_def restrictToRoot_eq on_disk_def os_MkdirAll_def Let_def split: if_splits)
  next
    case False
    then show ?thesis using inv fs_change_refl [OF inv]
      by (auto simp: MkDir_def restrictToRoot_eq on_disk_def os_MkdirAll_def Let_def split: if_splits)
  qed
qed

lemma RemoveDir_change: "fs_inv fs \<Longrightarrow> fs_change fs (snd (RemoveDir p fs))"
proof -
  assume inv: "fs_inv fs"
  let ?d = "fs_disk fs" and ?cs = "full fs p"
  have "disk_ok (\<lambda>q. if prefix ?cs q then None else ?d q)"
    using inv by (auto simp: disk_ok_def fs_inv_def)
  then have "fs_change fs (fs\<lparr>fs_disk := \<lambda>q. if prefix ?cs q then None else ?d q\<rparr>)"
    using prefix_order.trans [OF prefix_full [of fs p]] by (intro fs_changeI) (auto simp: confined_def)
  with inv fs_change_refl [OF inv] show ?thesis
    by (auto simp: RemoveDir_def restrictToRoot_eq os_RemoveAll_def split: outcome.splits os_entry.splits if_splits)
qed

lemma disk_ok_upd:
  assumes "disk_ok d" and "d cs \<noteq> Some OsDir" and "cs \<noteq> []" and "d (butlast cs) = Some OsDir"
  shows "disk_ok (d(cs := e))"
proof -
  have "d (cs @ [c]) = None" for c using assms(1,2) disk_ok_parent by blast
  moreover have "butlast (q @ [c]) = q" for q and c :: string by simp
  ultimately show ?thesis using assms unfolding disk_ok_def by (metis fun_upd_apply)
qed

lemma upd_change:
  assumes inv: "fs_inv fs" and "fs_disk fs (full fs p) \<noteq> Some OsDir" and "fs_disk fs (butlast (full fs p)) = Some OsDir"
  shows "fs_change fs (fs\<lparr>fs_disk := (fs_disk fs)(full fs p := e)\<rparr>)"
  using assms by (intro fs_changeI disk_ok_upd) (auto simp: confined_def fs_inv_def full_def canonical_root_def)

lemma file_parent: "fs_inv fs \<Longrightarrow> fs_disk fs (full fs p) \<noteq> None \<Longrightarrow> fs_disk fs (butlast (full fs p)) = Some OsDir"
  using disk_ok_parent [of "fs_disk fs" "butlast (full fs p)" "last (full fs p)"] by (simp add: fs_inv_def)

lemma os_Create_change: "fs_inv fs \<Longrightarrow> fs_change fs (snd (on_disk (os_Create (abs_path (full fs p))) fs))"
  using fs_change_refl [of fs] upd_change [of fs p "Some (OsFile [])"] resolve_Return [of "[]" "butlast (full fs p)" "fs_disk fs"]
  by (auto simp: on_disk_def os_Create_def Let_def split: outcome.split os_entry.split option.split)

lemma CreateFile_change: "fs_inv fs \<Longrightarrow> fs_change fs (snd (CreateFile p fs))"
  using fs_change_refl [of fs] os_Create_change [of fs p]
  by (auto simp: CreateFile_def restrictToRoot_eq split: outcome.split os_entry.split)

lemma file_upd_change:
  assumes "fs_inv fs" and "resolve [] (full fs p) (fs_disk fs) = Return (OsFile bs)"
  shows "fs_change fs (fs\<lparr>fs_disk := (fs_disk fs)(full fs p := e)\<rparr>)"
proof -
  have "fs_disk fs (full fs p) = Some (OsFile bs)" using resolve_Return [OF assms(2)] by simp
  with assms(1) show ?thesis by (intro upd_change file_parent) auto
qed

lemma GetFile_change: "fs_inv fs \<Longrightarrow> fs_change fs (snd (GetFile p trunc fs))"
  using fs_change_refl [of fs] file_upd_change [of fs p]
  by (auto simp: GetFile_def restrictToRoot_eq stat_full split: outcome.split os_entry.split)

lemma RemoveFile_change: "fs_inv fs \<Longrightarrow> fs_change fs (snd (RemoveFile p fs))"
  using fs_change_refl [of fs] file_upd_change [of fs p]
  by (auto simp: RemoveFile_def restrictToRoot_eq stat_full os_Remove_def split: outcome.split os_entry.split)

lemma disk_ok_move:
  assumes ok: "disk_ok d" and "ns \<noteq> []" and "d (butlast ns) = Some OsDir" and "\<not> strict_prefix os ns" and "d os \<noteq> None"
  shows "disk_ok (\<lambda>q. if prefix ns q then d (os @ drop (length ns) q) else if prefix os q then None else d q)"
    (is "disk_ok ?d'")
proof -
  have "os \<noteq> []" using assms(2,4) by (auto simp: strict_prefix_def)
  moreover have "?d' q = Some OsDir" if e: "?d' (q @ [c]) \<noteq> None" for q c
  proof (cases "prefix ns (q @ [c])")
    case True
    show ?thesis
    proof (cases "ns = q @ [c]")
      case True
      then have "butlast ns = q" by simp
      then have "\<not> prefix os q" "\<not> prefix ns q" using assms(4) True by (auto simp: strict_prefix_def prefix_def)
      with \<open>butlast ns = q\<close> assms(3) show ?thesis by simp
    next
      case False
      then have "prefix ns q" using \<open>prefix ns (q @ [c])\<close> by simp
      with e have "d (os @ drop (length ns) q @ [c]) \<noteq> None" by (auto simp: prefix_def)
      then have "d (os @ drop (length ns) q) = Some OsDir" using disk_ok_parent [OF ok] by (metis append.assoc)
      with \<open>prefix ns q\<close> show ?thesis by simp
    qed
  next
    case False
    with e have "\<not> prefix os (q @ [c])" "d (q @ [c]) \<noteq> None" by (auto split: if_splits)
    with False show ?thesis using disk_ok_parent [OF ok] by auto
  qed
  ultimately show ?thesis using ok assms(2) by (auto simp: disk_ok_def)
qed

lemma Rename_change:
  assumes inv: "fs_inv fs"
  shows "fs_change fs (snd (Rename p1 p2 fs))"
proof -
  let ?d = "fs_disk fs" and ?os = "full fs p1" and ?ns = "full fs p2"
  have "fs_change fs (snd (on_disk (os_Rename (abs_path ?os) (abs_path ?ns)) fs))"
  proof (cases "fst (os_Rename (abs_path ?os) (abs_path ?ns) ?d) = Return ()")
    case True
    let ?d' = "\<lambda>q. if prefix ?ns q then ?d (?os @ drop (length ?ns) q) else if prefix ?os q then None else ?d q"
    from True inv have r: "snd (os_Rename (abs_path ?os) (abs_path ?ns) ?d) = ?d'" "\<not> strict_prefix ?os ?ns"
      "resolve [] (butlast ?ns) ?d = Return OsDir" "\<exists>e. resolve [] ?os ?d = Return e"
      by (auto simp: os_Rename_def os_Stat_def Let_def split: outcome.splits os_entry.splits if_splits)
    then have "disk_ok ?d'"
      using inv resolve_Return [of "[]" "butlast ?ns" ?d] resolve_Return [of "[]" ?os ?d]
      by (intro disk_ok_move) (auto simp: fs_inv_def canonical_root_def full_def)
    moreover have "confined (fs_parts fs) ?d ?d'"
      using prefix_order.trans [OF prefix_full [of fs p1]] prefix_order.trans [OF prefix_full [of fs p2]]
      by (auto simp: confined_def)
    ultimately show ?thesis using r(1) by (auto simp: on_disk_def fs_changeI split: prod.splits)
  next
    case False
    then have "snd (os_Rename (abs_path ?os) (abs_path ?ns) ?d) = ?d"
      by (auto simp: os_Rename_def Let_def split: outcome.splits os_entry.splits if_splits)
    then show ?thesis using fs_change_refl [OF inv] by (auto simp: on_disk_def split: prod.splits)
  qed
  with inv fs_change_refl [OF inv] show ?thesis
    by (auto simp: Rename_def restrictToRoot_eq split: option.splits)
qed

section \<open>Confinement\<close>

datatype fs_op =
    FsMkDir path | FsRemoveDir path | FsRename path path | FsCreateFile path | FsRemoveFile path
  | FsGetFile path bool

fun run_fs_op :: "fs_op \<Rightarrow> file_system \<Rightarrow> file_system" where
  "run_fs_op (FsMkDir p) fs = snd (MkDir p fs)"
| "run_fs_op (FsRemoveDir p) fs = snd (RemoveDir p fs)"
| "run_fs_op (FsRename p q) fs = snd (Rename p q fs)"
| "run_fs_op (FsCreateFile p) fs = snd (CreateFile p fs)"
| "run_fs_op (FsRemoveFile p) fs = snd (RemoveFile p fs)"
| "run_fs_op (FsGetFile p trunc) fs = snd (GetFile p trunc fs)"

definition run_fs :: "fs_op list \<Rightarrow> file_system \<Rightarrow> file_system" where
  "run_fs ops fs = fold run_fs_op ops fs"

lemma run_fs_op_change: "fs_inv fs \<Longrightarrow> fs_change fs (run_fs_op op fs)"
  by (cases op) (auto intro: MkDir_change RemoveDir_change Rename_change CreateFile_change RemoveFile_change GetFile_change)

lemma fs_change_inv: "fs_inv fs \<Longrightarrow> fs_change fs fs' \<Longrightarrow> fs_inv fs' \<and> fs_parts fs' = fs_parts fs"
  by (auto simp: fs_change_def fs_inv_disk)

lemma confined_trans: "confined r d1 d2 \<Longrightarrow> confined r d2 d3 \<Longrightarrow> confined r d1 d3"
  unfolding confined_def by (metis option.distinct(1))


definition empty_disk :: disk where
  "empty_disk = [[] \<mapsto> OsDir]"

definition data_fs :: file_system where
  "data_fs = NewFileSystem ''/data'' (empty_disk([''data''] \<mapsto> OsDir))"

lemma data_fs_parts: "fs_parts data_fs = [''data'']"
  by (simp add: data_fs_def NewFileSystem_def fs_parts_def path_parts_def)

lemma data_fs_inv: "fs_inv data_fs"
  unfolding fs_inv_def canonical_root_def data_fs_parts
  by (auto simp: data_fs_def NewFileSystem_def abs_path_def valid_comp_def disk_ok_def empty_disk_def)


section \<open>A flat directory of files\<close>

text \<open>
  The servers keep their files directly below the root. Such a directory is a store of named byte
  strings; the locale states the laws on which the archiver and the chunk server rely.
\<close>

locale flat_store =
  fixes inv :: "'s \<Rightarrow> bool"
    and content :: "'s \<Rightarrow> string \<Rightarrow> byte list option"
    and create :: "string \<Rightarrow> 's \<Rightarrow> unit outcome \<times> 's"
    and remove :: "string \<Rightarrow> 's \<Rightarrow> unit outcome \<times> 's"
    and getf :: "string \<Rightarrow> bool \<Rightarrow> 's \<Rightarrow> 'f outcome \<times> 's"
    and bytes :: "'f \<Rightarrow> 's \<Rightarrow> byte list"
    and put :: "'f \<Rightarrow> byte list \<Rightarrow> 's \<Rightarrow> 's"
  assumes create_new: "inv s \<Longrightarrow> valid_comp n \<Longrightarrow> content s n = None \<Longrightarrow>
      \<exists>s'. create n s = (Return (), s') \<and> inv s' \<and> content s' = (content s)(n \<mapsto> [])"
    and create_old: "inv s \<Longrightarrow> valid_comp n \<Longrightarrow> content s n \<noteq> None \<Longrightarrow> \<exists>e. create n s = (Fail e, s)"
    and remove_old: "inv s \<Longrightarrow> valid_comp n \<Longrightarrow> content s n \<noteq> None \<Longrightarrow>
      \<exists>s'. remove n s = (Return (), s') \<and> inv s' \<and> content s' = (content s)(n := None)"
    and remove_missing: "inv s \<Longrightarrow> valid_comp n \<Longrightarrow> content s n = None \<Longrightarrow> remove n s = (Fail (Os ENOENT), s)"
    and open_missing: "inv s \<Longrightarrow> valid_comp n \<Longrightarrow> content s n = None \<Longrightarrow> getf n t s = (Fail (Os ENOENT), s)"
    and open_old: "inv s \<Longrightarrow> valid_comp n \<Longrightarrow> content s n = Some bs \<Longrightarrow>
      \<exists>f s'. getf n t s = (Return f, s') \<and> inv s' \<and> content s' = (content s)(n \<mapsto> if t then [] else bs) \<and>
        bytes f s' = (if t then [] else bs) \<and> (\<forall>ws. inv (put f ws s') \<and> content (put f ws s') = (content s)(n \<mapsto> ws))"
begin

lemma create_outcome:
  assumes "inv s" and "valid_comp n"
  shows "inv (snd (create n s))" and "n' \<noteq> n \<Longrightarrow> content (snd (create n s)) n' = content s n'"
  using create_new [OF assms] create_old [OF assms] assms(1) by (cases "content s n", auto)+

lemma remove_outcome:
  assumes "inv s" and "valid_comp n"
  shows "inv (snd (remove n s))" and "content (snd (remove n s)) = (content s)(n := None)"
  using remove_missing [OF assms] remove_old [OF assms] assms(1) by (cases "content s n", auto simp: fun_eq_iff)+

text \<open>Rewriting a file: read all of it, then replace it by a function of what was read.\<close>

lemma rewrite_file:
  assumes "inv s" and "valid_comp n" and "content s n = Some bs"
  shows "\<exists>f s'. getf n False s = (Return f, s') \<and> bytes f s' = bs \<and> inv (put f (g bs) s') \<and>
    content (put f (g bs) s') = (content s)(n \<mapsto> g bs)"
  using open_old [OF assms, of False] by auto

end

definition stored :: "file_system \<Rightarrow> string \<Rightarrow> byte list option" where
  "stored fs n = (case fs_disk fs (fs_parts fs @ [n]) of Some (OsFile bs) \<Rightarrow> Some bs | _ \<Rightarrow> None)"

definition flat_inv :: "file_system \<Rightarrow> bool" where
  "flat_inv fs \<longleftrightarrow> fs_inv fs \<and> fs_disk fs (fs_parts fs) = Some OsDir \<and> (\<forall>n. fs_disk fs (fs_parts fs @ [n]) \<noteq> Some OsDir)"

lemma full_simple: "valid_comp n \<Longrightarrow> full fs n = fs_parts fs @ [n]"
  by (simp add: full_def rel_parts_simple)

lemma flat_resolve:
  assumes "flat_inv fs" and "valid_comp n"
  shows "resolve [] (full fs n) (fs_disk fs) = (case stored fs n of None \<Rightarrow> Fail (Os ENOENT) | Some bs \<Rightarrow> Return (OsFile bs))"
proof -
  have "resolve [] (fs_parts fs @ [n]) (fs_disk fs) = resolve (fs_parts fs) [n] (fs_disk fs)"
    using assms(1) by (intro resolve_append) (auto simp: flat_inv_def fs_inv_def)
  with assms show ?thesis
    by (auto simp: full_simple stored_def flat_inv_def split: option.splits os_entry.splits)
qed

lemma flat_upd:
  assumes "flat_inv fs" and "valid_comp n" and "e \<noteq> Some OsDir"
  shows "flat_inv (fs\<lparr>fs_disk := (fs_disk fs)(full fs n := e)\<rparr>)"
    and "stored (fs\<lparr>fs_disk := (fs_disk fs)(full fs n := e)\<rparr>) = (stored fs)(n := case e of Some (OsFile bs) \<Rightarrow> Some bs | _ \<Rightarrow> None)"
proof -
  have "disk_ok ((fs_disk fs)(full fs n := e))"
    using assms by (intro disk_ok_upd) (auto simp: flat_inv_def fs_inv_def full_simple)
  then show "flat_inv (fs\<lparr>fs_disk := (fs_disk fs)(full fs n := e)\<rparr>)"
    using assms fs_inv_disk [of fs] by (auto simp: flat_inv_def full_simple)
  show "stored (fs\<lparr>fs_disk := (fs_disk fs)(full fs n := e)\<rparr>) = (stored fs)(n := case e of Some (OsFile bs) \<Rightarrow> Some bs | _ \<Rightarrow> None)"
    using assms(2) by (auto simp: stored_def full_simple fun_eq_iff)
qed

lemmas flat_simps = flat_resolve restrictToRoot_eq stat_full flat_upd

interpretation fstore: flat_store flat_inv stored CreateFile RemoveFile GetFile file_bytes set_file
proof (unfold_locales, goal_cases)
  case (1 fs n)
  then have inv: "fs_inv fs" by (simp add: flat_inv_def)
  have "resolve [] (butlast (full fs n)) (fs_disk fs) = Return OsDir"
    using 1 inv by (simp add: full_simple flat_inv_def resolve_iff fs_inv_def)
  moreover have "fs_disk fs (full fs n) = None"
    using 1 by (auto simp: full_simple stored_def flat_inv_def split: option.splits os_entry.splits)
  ultimately have "CreateFile n fs = (Return (), fs\<lparr>fs_disk := (fs_disk fs)(full fs n \<mapsto> OsFile [])\<rparr>)"
    using 1 inv by (simp add: CreateFile_def flat_simps on_disk_def os_Create_def is_exist_def Let_def)
  then show ?case using flat_upd [OF 1(1,2), of "Some (OsFile [])"] by simp
next
  case (2 fs n)
  then show ?case by (auto simp: CreateFile_def flat_simps flat_inv_def)
next
  case (3 fs n)
  then have "RemoveFile n fs = (Return (), fs\<lparr>fs_disk := (fs_disk fs)(full fs n := None)\<rparr>)"
    by (auto simp: RemoveFile_def flat_simps os_Remove_def flat_inv_def)
  then show ?case using flat_upd [OF 3(1,2), of None] by simp
next
  case (4 fs n)
  then show ?case by (auto simp: RemoveFile_def flat_simps flat_inv_def)
next
  case (5 fs n t)
  then show ?case by (auto simp: GetFile_def flat_simps flat_inv_def)
next
  case (6 fs n bs t)
  let ?f = "abs_path (full fs n)" and ?fs = "if t then fs\<lparr>fs_disk := (fs_disk fs)(full fs n \<mapsto> OsFile [])\<rparr> else fs"
  from 6 have inv: "fs_inv fs" by (simp add: flat_inv_def)
  have pp: "path_parts ?f = full fs n" using inv by simp
  have "GetFile n t fs = (Return ?f, ?fs)" using 6 inv by (simp add: GetFile_def flat_simps)
  moreover have "set_file ?f ws ?fs = fs\<lparr>fs_disk := (fs_disk fs)(full fs n \<mapsto> OsFile ws)\<rparr>" for ws
    by (simp add: set_file_def pp)
  moreover have "file_bytes ?f ?fs = (if t then [] else bs)"
  proof -
    have "fs_disk fs (full fs n) = Some (OsFile bs)"
      using 6 by (auto simp: stored_def full_simple split: option.splits os_entry.splits)
    then show ?thesis by (simp add: file_bytes_def pp)
  qed
  moreover have "flat_inv ?fs \<and> stored ?fs = (stored fs)(n \<mapsto> if t then [] else bs)"
    using flat_upd [OF 6(1,2), of "Some (OsFile [])"] 6 by (auto simp: fun_upd_idem)
  ultimately show ?case using flat_upd [OF 6(1,2)] by (intro exI [of _ ?f] exI [of _ ?fs]) auto
qed

lemma data_fs_flat: "flat_inv data_fs"
  unfolding flat_inv_def using data_fs_inv
  by (auto simp: data_fs_parts) (auto simp: data_fs_def NewFileSystem_def empty_disk_def)

section \<open>Renaming, writing and reading\<close>

text \<open>
  Renaming a file onto an existing one succeeds and replaces it: the guard meant to refuse an
  existing target looks at the old path a second time.
\<close>

theorem fs_Rename_overwrites:
  assumes "flat_inv fs" and "valid_comp a" and "valid_comp b" and "a \<noteq> b"
    and "stored fs a = Some xs" and "stored fs b = Some ys"
  shows "\<exists>fs'. Rename a b fs = (Return (), fs') \<and> flat_inv fs' \<and> stored fs' = (stored fs)(b \<mapsto> xs, a := None)"
proof -
  let ?d = "fs_disk fs" and ?r = "fs_parts fs"
  let ?d' = "\<lambda>q. if prefix (?r @ [b]) q then ?d ((?r @ [a]) @ drop (Suc (length ?r)) q)
    else if prefix (?r @ [a]) q then None else ?d q"
  have inv: "fs_inv fs" "?d ?r = Some OsDir" using assms(1) by (simp_all add: flat_inv_def)
  then have par: "resolve [] ?r ?d = Return OsDir" by (simp add: resolve_iff fs_inv_def)
  have ab: "?d (?r @ [a]) = Some (OsFile xs)" "?d (?r @ [b]) = Some (OsFile ys)"
    using assms(5,6) by (auto simp: stored_def split: option.splits os_entry.splits)
  have step: "Rename a b fs = (Return (), fs\<lparr>fs_disk := ?d'\<rparr>)"
    using assms inv ab par flat_resolve [OF assms(1,2)] flat_resolve [OF assms(1,3)] path_parts_fullp [OF inv(1), of a]
      path_parts_fullp [OF inv(1), of b]
    by (simp add: Rename_def flat_simps on_disk_def os_Rename_def os_Stat_def getFileInfo_def full_simple strict_prefix_def Let_def cong: if_cong)
  have "fs_change fs (snd (Rename a b fs))" using inv(1) by (rule Rename_change)
  then have "fs_inv (fs\<lparr>fs_disk := ?d'\<rparr>)" using step fs_change_inv [OF inv(1)] by auto
  moreover have at: "?d' (?r @ [n]) = (if n = b then ?d (?r @ [a]) else if n = a then None else ?d (?r @ [n]))" for n by auto
  moreover have "?d' ?r = Some OsDir" using inv(2) by auto
  ultimately have "flat_inv (fs\<lparr>fs_disk := ?d'\<rparr>)" using assms(1) ab unfolding flat_inv_def by auto
  moreover have "stored (fs\<lparr>fs_disk := ?d'\<rparr>) = (stored fs)(b \<mapsto> xs, a := None)"
    using at assms(4) ab by (auto simp: stored_def fun_eq_iff)
  ultimately show ?thesis using step by blast
qed

definition two_files :: file_system where
  "two_files = NewFileSystem ''/data'' (empty_disk([''data''] \<mapsto> OsDir, [''data'', ''a''] \<mapsto> OsFile [1], [''data'', ''b''] \<mapsto> OsFile [2, 3]))"

lemma two_files_parts: "fs_parts two_files = [''data'']"
  by (simp add: two_files_def NewFileSystem_def fs_parts_def path_parts_def)

lemma two_files_flat: "flat_inv two_files"
  unfolding flat_inv_def fs_inv_def canonical_root_def two_files_parts
  by (auto simp: two_files_def NewFileSystem_def abs_path_def valid_comp_def disk_ok_def empty_disk_def append_eq_Cons_conv)

theorem fs_Rename_overwrites_witness: "stored (snd (Rename ''a'' ''b'' two_files)) ''b'' = Some [1]"
proof -
  have "stored two_files ''a'' = Some [1]" "stored two_files ''b'' = Some [2, 3]"
    unfolding stored_def two_files_parts by (simp_all add: two_files_def NewFileSystem_def)
  from fs_Rename_overwrites [OF two_files_flat _ _ _ this] show ?thesis by (auto simp: valid_comp_def)
qed

lemma length_write_at: "length (write_at off ws bs) = (if ws = [] then length bs else max (length bs) (off + length ws))"
  by (auto simp: write_at_def)

lemma nth_write_at:
  "i < length (write_at off ws bs) \<Longrightarrow> write_at off ws bs ! i =
     (if off \<le> i \<and> i < off + length ws then ws ! (i - off) else if i < length bs then bs ! i else 0)"
  by (auto simp: write_at_def nth_append min_def not_less)

lemma write_at_idem: "write_at off ws (write_at off ws bs) = write_at off ws bs"
  by (rule nth_equalityI) (auto simp: length_write_at nth_write_at)

lemma write_at_read: "take (length ws) (drop off (write_at off ws bs)) = ws"
  by (simp add: write_at_def)

lemma write_at_end: "write_at (length bs) ws bs = bs @ ws"
  by (simp add: write_at_def)

text \<open>Making the root directory when it is there already changes nothing.\<close>

lemma MkDir_root:
  assumes "flat_inv fs"
  shows "MkDir ''.'' fs = (Return (), fs)"
proof -
  let ?r = "fs_parts fs" and ?d = "fs_disk fs"
  have inv: "fs_inv fs" and dir: "?d ?r = Some OsDir" using assms by (simp_all add: flat_inv_def)
  have "rel_parts ''.'' = []" by code_simp
  then have full: "full fs ''.'' = ?r" by (simp add: full_def)
  have dirs: "?d q = Some OsDir" if "prefix q ?r" for q
    using disk_ok_prefix [of ?d ?r q] inv dir that by (cases "q = ?r") (auto simp: fs_inv_def strict_prefix_def)
  have "restrictToRoot ''.'' fs = Return (abs_path ?r)"
    using restrictToRoot_eq [OF inv, of "''.''"] full resolve_iff [of ?d ?r OsDir] inv dir by (auto simp: fs_inv_def)
  moreover have "os_MkdirAll (abs_path ?r) ?d = (Return (), ?d)"
    using path_parts_fullp [OF inv, of "''.''"] full dirs by (auto simp: os_MkdirAll_def list_ex_iff fun_eq_iff Let_def)
  ultimately show ?thesis by (simp add: MkDir_def on_disk_def)
qed

end
