(* ===== verification/Archive.thy ===== *)
theory Archive
  imports File_System_Properties "HOL-Library.Multiset"
begin

text \<open>
  The archiver of \<^verbatim>\<open>src/archive/archiver_manager.go\<close>: compressing a file to \<^verbatim>\<open>.gz\<close> and back, and
  the two pipelines of buffered channels with their workers. The gzip format is a parameter: what
  the writer produces for a byte string, whether a reader accepts the header, and what it reads.
\<close>

section \<open>Compressing and decompressing a file\<close>

record gzip_codec =
  gz_write :: "byte list \<Rightarrow> byte list"
  gz_header :: "byte list \<Rightarrow> bool"
  gz_read :: "byte list \<Rightarrow> byte list option"

definition zipExt :: string where
  "zipExt = ''.gz''"

definition has_suffix :: "string \<Rightarrow> string \<Rightarrow> bool" where
  "has_suffix s suf \<longleftrightarrow> length suf \<le> length s \<and> drop (length s - length suf) s = suf"

definition trim_suffix :: "string \<Rightarrow> string \<Rightarrow> string" where
  "trim_suffix s suf = (if has_suffix s suf then take (length s - length suf) s else s)"

definition removeGzipExtension :: "path \<Rightarrow> path outcome" where
  "removeGzipExtension p = (if has_suffix p zipExt then Return (trim_suffix p zipExt) else Fail (PathErr NoGzExtension p))"

type_synonym 'a fs_result = "'a outcome \<times> file_system"

text \<open>An error is wrapped into a message, after an optional clean-up.\<close>

definition or_fail :: "'a fs_result \<Rightarrow> string \<Rightarrow> (file_system \<Rightarrow> file_system) \<Rightarrow> ('a \<Rightarrow> file_system \<Rightarrow> 'b fs_result) \<Rightarrow> 'b fs_result" where
  "or_fail res msg cleanup k = (case res of
     (Return x, fs) \<Rightarrow> k x fs
   | (Fail e, fs) \<Rightarrow> (Fail (Wrapped msg e), cleanup fs)
   | (Panic, fs) \<Rightarrow> (Panic, fs) | (Deadlock, fs) \<Rightarrow> (Deadlock, fs) | (OutOfFuel, fs) \<Rightarrow> (OutOfFuel, fs))"

definition decompress :: "gzip_codec \<Rightarrow> path \<Rightarrow> file_system \<Rightarrow> path fs_result" where
  "decompress gz p fs =
     (if \<not> has_suffix p zipExt then (Fail (PathErr NoGzExtension p), fs)
      else or_fail (GetFile p False fs) ''failed to open compressed file'' id (\<lambda>source fs.
        if \<not> gz_header gz (file_bytes source fs) then (Fail (Wrapped ''failed to create gzip reader'' (Os GzipError)), fs)
        else or_fail (removeGzipExtension p, fs) ''failed to determine output path'' id (\<lambda>out fs.
          let discard = (\<lambda>fs. snd (RemoveFile out fs)) in
          or_fail (CreateFile out fs) ''failed to create decompressed file'' id (\<lambda>_ fs.
          or_fail (GetFile out True fs) ''failed to open decompressed file'' discard (\<lambda>dest fs.
            case gz_read gz (file_bytes source fs) of
              None \<Rightarrow> (Fail (Wrapped ''failed to decompress data'' (Os GzipError)), discard fs)
            | Some bs \<Rightarrow>
                let fs = set_file dest bs fs in
                if length (file_bytes dest fs) = 0 then (Fail (PathErr EmptyFile out), discard fs)
                else (Return out, snd (RemoveFile p fs)))))))"

definition compress :: "gzip_codec \<Rightarrow> path \<Rightarrow> file_system \<Rightarrow> path fs_result" where
  "compress gz p fs =
     or_fail (GetFile p False fs) ''failed to open source file'' id (\<lambda>source fs.
       let dest = p @ zipExt; discard = (\<lambda>fs. snd (RemoveFile dest fs));
           write = (\<lambda>_ fs. or_fail (GetFile dest True fs) ''failed to open compressed file'' discard (\<lambda>out fs.
             let fs = set_file out (gz_write gz (file_bytes source fs)) fs in
             if length (file_bytes out fs) = 0 then (Fail (PathErr EmptyFile dest), discard fs)
             else (Return dest, snd (RemoveFile p fs))))
       in case GetStat dest fs of
            Fail e \<Rightarrow> if is_not_exist e then or_fail (CreateFile dest fs) ''failed to create compressed file'' id write
              else (Fail (Wrapped ''failed to stat destination file'' e), fs)
          | _ \<Rightarrow> write () fs)"

section \<open>Pipelines and workers\<close>

record result_info =
  ri_Err :: "go_error option"
  ri_Path :: path

text \<open>One pipeline: its two channels and the results its workers hold but could not deliver yet.\<close>

record pipeline =
  Task :: "path list"
  working :: "result_info list"
  Result :: "result_info list"

record archiver_manager =
  ar_fs :: file_system
  CompressPipeline :: pipeline
  DecompressPipeline :: pipeline
  compressWorkers :: nat
  decompressWorkers :: nat
  isClosed :: bool

definition defaultChannelBuffer :: nat where
  "defaultChannelBuffer = 10"

definition startWorkers :: "nat \<Rightarrow> nat \<times> nat" where
  "startWorkers numWorkers = (let c = max 1 (numWorkers div 2) in (c, max 1 (numWorkers - c)))"

definition NewArchiver :: "file_system \<Rightarrow> nat \<Rightarrow> archiver_manager" where
  "NewArchiver fs numWorkers =
     (let n = (if numWorkers < 2 then 2 else numWorkers); (c, d) = startWorkers n; pl = \<lparr>Task = [], working = [], Result = []\<rparr>
      in \<lparr>ar_fs = fs, CompressPipeline = pl, DecompressPipeline = pl, compressWorkers = c, decompressWorkers = d,
          isClosed = False\<rparr>)"

text \<open>A full task channel makes the submission time out.\<close>

definition submit :: "path \<Rightarrow> bool \<Rightarrow> pipeline \<Rightarrow> unit outcome \<times> pipeline" where
  "submit p closed pl =
     (if closed then (Fail (Os ArchiverClosed), pl)
      else if length (Task pl) < defaultChannelBuffer then (Return (), pl\<lparr>Task := Task pl @ [p]\<rparr>)
      else (Fail (PathErr SubmitTimeout p), pl))"

definition SubmitCompress :: "path \<Rightarrow> archiver_manager \<Rightarrow> unit outcome \<times> archiver_manager" where
  "SubmitCompress p ac = (case submit p (isClosed ac) (CompressPipeline ac) of (r, pl) \<Rightarrow> (r, ac\<lparr>CompressPipeline := pl\<rparr>))"

definition SubmitDecompress :: "path \<Rightarrow> archiver_manager \<Rightarrow> unit outcome \<times> archiver_manager" where
  "SubmitDecompress p ac = (case submit p (isClosed ac) (DecompressPipeline ac) of (r, pl) \<Rightarrow> (r, ac\<lparr>DecompressPipeline := pl\<rparr>))"

text \<open>The result of a failed job has the empty path.\<close>

definition result_of :: "path outcome \<Rightarrow> result_info" where
  "result_of r = (case r of
     Return np \<Rightarrow> \<lparr>ri_Err = None, ri_Path = np\<rparr>
   | Fail e \<Rightarrow> \<lparr>ri_Err = Some e, ri_Path = ''''\<rparr>
   | _ \<Rightarrow> \<lparr>ri_Err = Some (Os GzipError), ri_Path = ''''\<rparr>)"

text \<open>A worker takes a task and runs it; it then delivers the result when the channel has room.\<close>

definition worker_take :: "(path \<Rightarrow> file_system \<Rightarrow> path fs_result) \<Rightarrow> nat \<Rightarrow> pipeline \<Rightarrow> file_system \<Rightarrow>
    (pipeline \<times> file_system) option" where
  "worker_take job workers pl fs = (case Task pl of
     [] \<Rightarrow> None
   | p # ps \<Rightarrow> if length (working pl) < workers
       then (case job p fs of (r, fs') \<Rightarrow> Some (pl\<lparr>Task := ps, working := working pl @ [result_of r]\<rparr>, fs'))
       else None)"

definition worker_post :: "nat \<Rightarrow> pipeline \<Rightarrow> pipeline option" where
  "worker_post i pl =
     (if i < length (working pl) \<and> length (Result pl) < defaultChannelBuffer
      then Some (pl\<lparr>working := take i (working pl) @ drop (Suc i) (working pl), Result := Result pl @ [working pl ! i]\<rparr>)
      else None)"

definition receive :: "pipeline \<Rightarrow> (result_info \<times> pipeline) option" where
  "receive pl = (case Result pl of [] \<Rightarrow> None | r # rs \<Rightarrow> Some (r, pl\<lparr>Result := rs\<rparr>))"

text \<open>
  Closing cancels the workers' context: they leave without looking at the tasks still queued, and
  a result not yet delivered is dropped.
\<close>

definition Close :: "archiver_manager \<Rightarrow> archiver_manager" where
  "Close ac =
     (if isClosed ac then ac
      else ac\<lparr>isClosed := True, compressWorkers := 0, decompressWorkers := 0,
         CompressPipeline := (CompressPipeline ac)\<lparr>working := []\<rparr>,
         DecompressPipeline := (DecompressPipeline ac)\<lparr>working := []\<rparr>\<rparr>)"

section \<open>Round trip\<close>

lemma zip_valid: "valid_comp n \<Longrightarrow> valid_comp (n @ zipExt)"
  by (auto simp: valid_comp_def zipExt_def)

lemma zip_neq [simp]: "n @ zipExt \<noteq> n" "n \<noteq> n @ zipExt"
  by (auto simp: zipExt_def)

lemma zipExt_neq_Nil [simp]: "zipExt \<noteq> []"
  by (simp add: zipExt_def)

lemma zip_suffix [simp]: "has_suffix (n @ zipExt) zipExt" "removeGzipExtension (n @ zipExt) = Return n"
  by (simp_all add: has_suffix_def removeGzipExtension_def trim_suffix_def)

lemma GetStat_flat:
  "flat_inv fs \<Longrightarrow> valid_comp n \<Longrightarrow> GetStat n fs = (case stored fs n of None \<Rightarrow> Fail (Os ENOENT) | Some bs \<Rightarrow> Return (OsFile bs))"
  by (auto simp: GetStat_def restrictToRoot_eq flat_inv_def os_Stat_def flat_resolve [unfolded flat_inv_def] split: option.splits)

text \<open>Opening a stored file for reading changes nothing, and its bytes are what the store holds.\<close>

lemma open_read:
  assumes "flat_inv fs" and "valid_comp n" and "stored fs n = Some bs"
  shows "GetFile n False fs = (Return (abs_path (full fs n)), fs)"
  using assms by (simp add: GetFile_def restrictToRoot_eq flat_inv_def stat_full flat_resolve [unfolded flat_inv_def])

lemma open_trunc:
  assumes "flat_inv fs" and "valid_comp n" and "stored fs n = Some bs"
  shows "GetFile n True fs = (Return (abs_path (full fs n)), set_file (abs_path (full fs n)) [] fs)"
  using assms
  by (simp add: GetFile_def restrictToRoot_eq flat_inv_def stat_full flat_resolve [unfolded flat_inv_def] set_file_def)

lemma full_set_file [simp]: "full (set_file f bs fs) n = full fs n"
  by (simp add: full_def set_file_def)

lemma file_bytes_flat:
  "flat_inv fs \<Longrightarrow> valid_comp n \<Longrightarrow> file_bytes (abs_path (full fs n)) fs = (case stored fs n of None \<Rightarrow> [] | Some bs \<Rightarrow> bs)"
  by (auto simp: file_bytes_def flat_inv_def stored_def full_simple [symmetric] split: option.splits os_entry.splits)

lemma set_file_flat:
  assumes "flat_inv fs" and "valid_comp n"
  shows "flat_inv (set_file (abs_path (full fs n)) bs fs)"
    and "stored (set_file (abs_path (full fs n)) bs fs) = (stored fs)(n \<mapsto> bs)"
  using flat_upd [OF assms, of "Some (OsFile bs)"] assms by (simp_all add: set_file_def flat_inv_def)

lemma file_bytes_set_file [simp]: "file_bytes f (set_file f bs fs) = bs"
  by (simp add: file_bytes_def set_file_def)

lemmas flat_store_simps = open_read open_trunc GetStat_flat file_bytes_flat set_file_flat fstore.remove_outcome zip_valid

lemma create_flat:
  assumes "flat_inv fs" and "valid_comp n" and "stored fs n = None"
  shows "CreateFile n fs = (Return (), set_file (abs_path (full fs n)) [] fs)"
proof -
  have inv: "fs_inv fs" using assms(1) by (simp add: flat_inv_def)
  have "resolve [] (butlast (full fs n)) (fs_disk fs) = Return OsDir"
    using assms inv by (simp add: full_simple flat_inv_def resolve_iff fs_inv_def)
  moreover have "fs_disk fs (full fs n) = None"
    using assms by (auto simp: full_simple stored_def flat_inv_def split: option.splits os_entry.splits)
  ultimately show ?thesis
    using assms inv by (simp add: CreateFile_def flat_simps on_disk_def os_Create_def is_exist_def set_file_def Let_def)
qed

lemma compress_flat:
  assumes "flat_inv fs" and "valid_comp n" and "stored fs n = Some bs" and "gz_write gz bs \<noteq> []"
  obtains fs' where "compress gz n fs = (Return (n @ zipExt), fs')" and "flat_inv fs'"
    and "stored fs' = (stored fs)(n @ zipExt \<mapsto> gz_write gz bs, n := None)"
proof -
  let ?z = "n @ zipExt"
  define fs1 where "fs1 = set_file (abs_path (full fs ?z)) [] fs"
  have f1: "flat_inv fs1" "stored fs1 = (stored fs)(?z \<mapsto> [])" "full fs1 = full fs"
    using assms by (simp_all add: fs1_def flat_store_simps fun_eq_iff)
  define fs2 where "fs2 = set_file (abs_path (full fs ?z)) (gz_write gz bs) fs1"
  have f2: "flat_inv fs2" "stored fs2 = (stored fs)(?z \<mapsto> gz_write gz bs)"
    using f1 assms set_file_flat [OF f1(1), of ?z] by (simp_all add: fs2_def zip_valid)
  have src: "file_bytes (abs_path (full fs n)) fs1 = bs"
    using file_bytes_flat [OF f1(1) assms(2)] f1 assms(3) by simp
  have trunc: "set_file (abs_path (full fs ?z)) [] fs1 = fs1" by (simp add: fs1_def set_file_def)
  have "GetFile ?z True fs1 = (Return (abs_path (full fs ?z)), fs1)"
    using open_trunc [OF f1(1) zip_valid [OF assms(2)]] f1 trunc by simp
  moreover have "GetFile ?z True fs = (Return (abs_path (full fs ?z)), fs1)" if "stored fs ?z \<noteq> None"
    using that open_trunc [OF assms(1) zip_valid [OF assms(2)]] by (auto simp: fs1_def)
  moreover have "CreateFile ?z fs = (Return (), fs1)" if "stored fs ?z = None"
    using that create_flat assms zip_valid by (simp add: fs1_def)
  ultimately have "compress gz n fs = (Return ?z, snd (RemoveFile n fs2))"
    using assms src
    by (cases "stored fs ?z")
      (simp_all add: compress_def or_fail_def flat_store_simps Let_def is_not_exist_def fs2_def [symmetric])
  moreover have "flat_inv (snd (RemoveFile n fs2))" "stored (snd (RemoveFile n fs2)) = (stored fs2)(n := None)"
    using fstore.remove_outcome [OF f2(1) assms(2)] by auto
  ultimately show thesis using that f2 by simp
qed

lemma decompress_flat:
  assumes "flat_inv fs" and "valid_comp n" and "stored fs (n @ zipExt) = Some zs" and "stored fs n = None"
    and "gz_header gz zs" and "gz_read gz zs = Some bs"
  shows "bs \<noteq> [] \<Longrightarrow> \<exists>fs'. decompress gz (n @ zipExt) fs = (Return n, fs') \<and> flat_inv fs' \<and>
      stored fs' = (stored fs)(n \<mapsto> bs, n @ zipExt := None)"
    and "bs = [] \<Longrightarrow> \<exists>fs'. decompress gz (n @ zipExt) fs = (Fail (PathErr EmptyFile n), fs') \<and> flat_inv fs' \<and> stored fs' = stored fs"
proof -
  let ?z = "n @ zipExt"
  define fs1 where "fs1 = set_file (abs_path (full fs n)) [] fs"
  have f1: "flat_inv fs1" "stored fs1 = (stored fs)(n \<mapsto> [])" "full fs1 = full fs"
    using assms by (simp_all add: fs1_def flat_store_simps fun_eq_iff)
  have opn: "GetFile n True fs1 = (Return (abs_path (full fs n)), fs1)"
    using open_trunc [OF f1(1) assms(2)] f1 by (simp add: fs1_def set_file_def)
  have src: "file_bytes (abs_path (full fs ?z)) fs1 = zs" "file_bytes (abs_path (full fs ?z)) fs = zs"
    using file_bytes_flat [OF f1(1) zip_valid [OF assms(2)]] file_bytes_flat [OF assms(1) zip_valid [OF assms(2)]] f1 assms(3)
    by simp_all
  have crt: "CreateFile n fs = (Return (), fs1)" using create_flat assms by (simp add: fs1_def)
  define fs2 where "fs2 = set_file (abs_path (full fs n)) bs fs1"
  have f2: "flat_inv fs2" "stored fs2 = (stored fs)(n \<mapsto> bs)"
    using f1 set_file_flat [OF f1(1) assms(2)] by (simp_all add: fs2_def)
  have run: "decompress gz ?z fs = (if bs = [] then (Fail (PathErr EmptyFile n), snd (RemoveFile n fs2)) else (Return n, snd (RemoveFile ?z fs2)))"
    using assms src opn crt by (simp add: decompress_def or_fail_def flat_store_simps Let_def fs2_def)
  show "\<exists>fs'. decompress gz ?z fs = (Return n, fs') \<and> flat_inv fs' \<and> stored fs' = (stored fs)(n \<mapsto> bs, ?z := None)" if "bs \<noteq> []"
    using that run fstore.remove_outcome [OF f2(1) zip_valid [OF assms(2)]] f2 by simp
  show "\<exists>fs'. decompress gz ?z fs = (Fail (PathErr EmptyFile n), fs') \<and> flat_inv fs' \<and> stored fs' = stored fs" if "bs = []"
    using that run fstore.remove_outcome [OF f2(1) assms(2)] f2 assms(4) by (simp add: fun_upd_idem)
qed

text \<open>
  C30. Archiving a file that is not empty and restoring it gives the file back byte for byte; the
  compressed copy is gone and no other file has changed. The gzip reader is assumed to read what
  the writer wrote.
\<close>

theorem archive_roundtrip:
  assumes "flat_inv fs" and "valid_comp n" and "stored fs n = Some bs" and "bs \<noteq> []"
    and gzip: "gz_write gz bs \<noteq> []" "gz_header gz (gz_write gz bs)" "gz_read gz (gz_write gz bs) = Some bs"
  shows "\<exists>fs1 fs2. compress gz n fs = (Return (n @ zipExt), fs1) \<and> stored fs1 n = None \<and>
    decompress gz (n @ zipExt) fs1 = (Return n, fs2) \<and> flat_inv fs2 \<and> stored fs2 = (stored fs)(n @ zipExt := None)"
proof -
  obtain fs1 where c: "compress gz n fs = (Return (n @ zipExt), fs1)" "flat_inv fs1"
    "stored fs1 = (stored fs)(n @ zipExt \<mapsto> gz_write gz bs, n := None)"
    by (rule compress_flat [OF assms(1-3) gzip(1)])
  then obtain fs2 where "decompress gz (n @ zipExt) fs1 = (Return n, fs2)" "flat_inv fs2"
    "stored fs2 = (stored fs1)(n \<mapsto> bs, n @ zipExt := None)"
    using decompress_flat(1) [OF c(2) assms(2) _ _ gzip(2,3) assms(4)] by auto
  with c assms(3) show ?thesis by (auto simp: fun_eq_iff)
qed

definition toy_gzip :: gzip_codec where
  "toy_gzip = \<lparr>gz_write = (\<lambda>bs. 31 # 139 # bs), gz_header = (\<lambda>zs. take 2 zs = [31, 139]), gz_read = (\<lambda>zs. Some (drop 2 zs))\<rparr>"

theorem archive_roundtrip_witness:
  "\<exists>fs1 fs2. compress toy_gzip ''b'' two_files = (Return ''b.gz'', fs1) \<and>
     decompress toy_gzip ''b.gz'' fs1 = (Return ''b'', fs2) \<and> stored fs2 ''b'' = Some [2, 3]"
proof -
  have s: "stored two_files ''b'' = Some [2, 3]"
    unfolding stored_def two_files_parts by (simp add: two_files_def NewFileSystem_def)
  from archive_roundtrip [OF two_files_flat _ s, of toy_gzip] s show ?thesis
    by (auto simp: valid_comp_def toy_gzip_def zipExt_def)
qed

text \<open>
  An empty file does not come back: archiving it succeeds, but restoring it fails because the
  result is empty, however often it is tried, and the file stays absent.
\<close>

theorem archive_empty_is_lost:
  assumes "flat_inv fs" and "valid_comp n" and "stored fs n = Some []"
    and gzip: "gz_write gz [] \<noteq> []" "gz_header gz (gz_write gz [])" "gz_read gz (gz_write gz []) = Some []"
  shows "\<exists>fs1. compress gz n fs = (Return (n @ zipExt), fs1) \<and> stored fs1 n = None \<and>
    (\<forall>k. stored (((\<lambda>s. snd (decompress gz (n @ zipExt) s)) ^^ k) fs1) n = None \<and>
         fst (decompress gz (n @ zipExt) (((\<lambda>s. snd (decompress gz (n @ zipExt) s)) ^^ k) fs1)) = Fail (PathErr EmptyFile n))"
proof -
  let ?step = "\<lambda>s. snd (decompress gz (n @ zipExt) s)"
  obtain fs1 where c: "compress gz n fs = (Return (n @ zipExt), fs1)" "flat_inv fs1"
    "stored fs1 = (stored fs)(n @ zipExt \<mapsto> gz_write gz [], n := None)"
    by (rule compress_flat [OF assms(1-3) gzip(1)])
  have one: "fst (decompress gz (n @ zipExt) s) = Fail (PathErr EmptyFile n) \<and> flat_inv (?step s) \<and> stored (?step s) = stored s"
    if "flat_inv s" "stored s = stored fs1" for s
    using decompress_flat(2) [OF that(1) assms(2) _ _ gzip(2,3)] that c by auto
  have "flat_inv ((?step ^^ k) fs1) \<and> stored ((?step ^^ k) fs1) = stored fs1" for k
    using c one by (induction k) auto
  with c one show ?thesis by auto
qed

theorem archive_empty_is_lost_witness:
  "\<exists>fs1. compress toy_gzip ''a'' (set_file ''/data/a'' [] two_files) = (Return ''a.gz'', fs1) \<and>
     fst (decompress toy_gzip ''a.gz'' fs1) = Fail (PathErr EmptyFile ''a'')"
proof -
  let ?fs = "set_file ''/data/a'' [] two_files"
  have v: "valid_comp ''a''" by (simp add: valid_comp_def)
  have f: "abs_path (full two_files ''a'') = ''/data/a''"
    using v by (simp add: full_simple two_files_parts abs_path_def)
  have "flat_inv ?fs" "stored ?fs ''a'' = Some []" using set_file_flat [OF two_files_flat v, of "[]"] f by simp_all
  from archive_empty_is_lost [OF this(1) v this(2), of toy_gzip] show ?thesis
    by (auto simp: toy_gzip_def zipExt_def dest!: spec [of _ 0])
qed

section \<open>Runs of a pipeline\<close>

text \<open>
  The events of one pipeline: an accepted submission, a worker running a task, a worker delivering,
  a client receiving, and a change of the files by others.
\<close>

datatype pipe_event = Submitted path | Ran path result_info | Posted | Received result_info | Elsewhere

inductive pipe_step :: "(path \<Rightarrow> file_system \<Rightarrow> path fs_result) \<Rightarrow> nat \<Rightarrow> pipeline \<times> file_system \<Rightarrow> pipe_event \<Rightarrow>
    pipeline \<times> file_system \<Rightarrow> bool" for job workers where
  step_submit: "submit p False pl = (Return (), pl') \<Longrightarrow> pipe_step job workers (pl, fs) (Submitted p) (pl', fs)"
| step_run: "worker_take job workers pl fs = Some (pl', fs') \<Longrightarrow>
    pipe_step job workers (pl, fs) (Ran (hd (Task pl)) (last (working pl'))) (pl', fs')"
| step_deliver: "worker_post i pl = Some pl' \<Longrightarrow> pipe_step job workers (pl, fs) Posted (pl', fs)"
| step_receive: "receive pl = Some (r, pl') \<Longrightarrow> pipe_step job workers (pl, fs) (Received r) (pl', fs)"
| step_elsewhere: "pipe_step job workers (pl, fs) Elsewhere (pl, fs')"

inductive_cases pipe_stepE: "pipe_step job workers s e s'"

inductive pipe_run :: "(path \<Rightarrow> file_system \<Rightarrow> path fs_result) \<Rightarrow> nat \<Rightarrow> file_system \<Rightarrow> pipe_event list \<Rightarrow>
    pipeline \<times> file_system \<Rightarrow> bool" for job workers fs0 where
  run_start: "pipe_run job workers fs0 [] (\<lparr>Task = [], working = [], Result = []\<rparr>, fs0)"
| run_step: "pipe_run job workers fs0 es s \<Longrightarrow> pipe_step job workers s e s' \<Longrightarrow> pipe_run job workers fs0 (es @ [e]) s'"

definition submissions :: "pipe_event list \<Rightarrow> path list" where
  "submissions es = List.map_filter (\<lambda>e. case e of Submitted p \<Rightarrow> Some p | _ \<Rightarrow> None) es"

definition runs :: "pipe_event list \<Rightarrow> (path \<times> result_info) list" where
  "runs es = List.map_filter (\<lambda>e. case e of Ran p r \<Rightarrow> Some (p, r) | _ \<Rightarrow> None) es"

definition receipts :: "pipe_event list \<Rightarrow> result_info list" where
  "receipts es = List.map_filter (\<lambda>e. case e of Received r \<Rightarrow> Some r | _ \<Rightarrow> None) es"

definition pipe_inv :: "nat \<Rightarrow> pipe_event list \<Rightarrow> pipeline \<Rightarrow> bool" where
  "pipe_inv workers es pl \<longleftrightarrow>
     length (Task pl) \<le> defaultChannelBuffer \<and> length (Result pl) \<le> defaultChannelBuffer \<and> length (working pl) \<le> workers \<and>
     submissions es = map fst (runs es) @ Task pl \<and>
     mset (map snd (runs es)) = mset (receipts es) + mset (Result pl) + mset (working pl) \<and>
     (workers = 1 \<longrightarrow> map snd (runs es) = receipts es @ Result pl @ working pl)"

lemma events_snoc [simp]:
  "submissions (es @ [e]) = submissions es @ (case e of Submitted p \<Rightarrow> [p] | _ \<Rightarrow> [])"
  "runs (es @ [e]) = runs es @ (case e of Ran p r \<Rightarrow> [(p, r)] | _ \<Rightarrow> [])"
  "receipts (es @ [e]) = receipts es @ (case e of Received r \<Rightarrow> [r] | _ \<Rightarrow> [])"
  by (cases e; simp add: submissions_def runs_def receipts_def map_filter_def)+

lemma mset_remove_nth: "i < length xs \<Longrightarrow> mset (take i xs) + mset (drop (Suc i) xs) + {#xs ! i#} = mset xs"
  by (metis add.assoc add.commute id_take_nth_drop mset.simps(2) mset_append union_mset_add_mset_right add_mset_add_single)

lemma pipe_step_inv:
  assumes "pipe_step job workers s e s'" and "pipe_inv workers es (fst s)"
  shows "pipe_inv workers (es @ [e]) (fst s')"
  using assms(1)
proof (cases rule: pipe_step.cases)
  case (step_submit p pl pl' fs)
  then show ?thesis using assms(2) by (auto simp: submit_def pipe_inv_def split: if_splits)
next
  case (step_run pl fs pl' fs')
  then show ?thesis using assms(2)
    by (auto simp: worker_take_def pipe_inv_def split: list.splits if_splits prod.splits)
next
  case (step_deliver i pl pl' fs)
  then have i: "i < length (working pl)" "length (Result pl) < defaultChannelBuffer"
    and pl': "pl' = pl\<lparr>working := take i (working pl) @ drop (Suc i) (working pl), Result := Result pl @ [working pl ! i]\<rparr>"
    by (auto simp: worker_post_def split: if_splits)
  have "workers = 1 \<Longrightarrow> working pl = [working pl ! i]"
    using i assms(2) step_deliver by (cases "working pl") (auto simp: pipe_inv_def)
  then show ?thesis
    using i pl' assms(2) step_deliver mset_remove_nth [OF i(1)]
    by (auto simp: pipe_inv_def add.assoc add.commute)
next
  case (step_receive pl r pl' fs)
  then show ?thesis using assms(2) by (auto simp: receive_def pipe_inv_def split: list.splits)
next
  case (step_elsewhere pl fs fs')
  then show ?thesis using assms(2) by (simp add: pipe_inv_def)
qed

lemma pipe_run_inv: "pipe_run job workers fs0 es s \<Longrightarrow> pipe_inv workers es (fst s)"
proof (induction rule: pipe_run.induct)
  case run_start
  then show ?case by (simp add: pipe_inv_def submissions_def runs_def receipts_def map_filter_simps)
qed (rule pipe_step_inv)

text \<open>
  However submissions, workers and clients interleave, both channels stay within their
  buffers, every accepted task is run exactly once in the order of submission and gives exactly
  one result, and with one worker (what the chunk server asks for per direction) the results are
  received in that order too.
\<close>

theorem pipeline_conserves:
  assumes "pipe_run job (fst (startWorkers n)) fs0 es (pl, fs)"
  shows "length (Task pl) \<le> defaultChannelBuffer \<and> length (Result pl) \<le> defaultChannelBuffer \<and>
    submissions es = map fst (runs es) @ Task pl \<and>
    length (submissions es) = length (receipts es) + length (Result pl) + length (working pl) + length (Task pl) \<and>
    (n < 4 \<longrightarrow> prefix (receipts es) (map snd (runs es)))"
proof -
  let ?w = "fst (startWorkers n)"
  have inv: "pipe_inv ?w es pl" using pipe_run_inv [OF assms] by simp
  then have "length (runs es) = length (receipts es) + length (Result pl) + length (working pl)"
    unfolding pipe_inv_def by (metis length_map size_mset size_union)
  moreover have "n < 4 \<Longrightarrow> ?w = 1" by (simp add: startWorkers_def Let_def)
  ultimately show ?thesis using inv unfolding pipe_inv_def by auto
qed

theorem pipeline_conserves_witness:
  "\<exists>pl fs r. pipe_run (compress toy_gzip) 1 two_files [Submitted ''b'', Ran ''b'' r] (pl, fs) \<and>
     submissions [Submitted ''b'', Ran ''b'' r] = [''b''] @ Task pl"
proof -
  let ?pl0 = "\<lparr>Task = [], working = [], Result = []\<rparr>" and ?pl1 = "\<lparr>Task = [''b''], working = [], Result = []\<rparr>"
  obtain res fs where c: "compress toy_gzip ''b'' two_files = (res, fs)" by fastforce
  let ?pl2 = "\<lparr>Task = [], working = [result_of res], Result = []\<rparr>"
  have "pipe_step (compress toy_gzip) 1 (?pl0, two_files) (Submitted ''b'') (?pl1, two_files)"
    by (rule step_submit) (simp add: submit_def defaultChannelBuffer_def)
  then have 1: "pipe_run (compress toy_gzip) 1 two_files ([] @ [Submitted ''b'']) (?pl1, two_files)"
    by (rule run_step [OF run_start])
  have "pipe_step (compress toy_gzip) 1 (?pl1, two_files) (Ran (hd (Task ?pl1)) (last (working ?pl2))) (?pl2, fs)"
    by (rule step_run) (simp add: worker_take_def c)
  then have r: "pipe_run (compress toy_gzip) 1 two_files [Submitted ''b'', Ran ''b'' (result_of res)] (?pl2, fs)"
    using run_step [OF 1] by simp
  then have "pipe_run (compress toy_gzip) (fst (startWorkers 2)) two_files [Submitted ''b'', Ran ''b'' (result_of res)] (?pl2, fs)"
    by (simp add: startWorkers_def Let_def)
  from pipeline_conserves [OF this] r show ?thesis
    by (intro exI [of _ ?pl2] exI [of _ fs] exI [of _ "result_of res"]) (auto simp: runs_def map_filter_simps)
qed

end
