(* ===== verification/Rpc.thy ===== *)
theory Rpc
  imports Complex_Main "HOL-Library.Multiset" Prelude
begin

text \<open>
  Remote calls with retries, \<^verbatim>\<open>src/shared/rpc.go\<close>. What the network does to each attempt is a
  parameter: the connection fails, the handler runs but its reply is lost (a timeout), or the
  reply arrives. A handler is a function of the state of the called side.
\<close>

record retry_config =
  MaxRetries :: int
  RetryDelay :: time
  MaxBackoff :: time
  JitterFrac :: rat

definition DefaultRetryConfig :: retry_config where
  "DefaultRetryConfig = \<lparr>MaxRetries = 3, RetryDelay = 500000000, MaxBackoff = 5 * Second, JitterFrac = 1 / 5\<rparr>"

text \<open>\<open>u\<close> is the number in \<open>[0, 1)\<close> that \<^verbatim>\<open>rand.Float64\<close> returns; floats are read as rationals.\<close>

definition calculateBackoff :: "rat \<Rightarrow> nat \<Rightarrow> retry_config \<Rightarrow> time" where
  "calculateBackoff u attempt cfg =
     (let delay = RetryDelay cfg * 2 ^ attempt;
          delay = (if MaxBackoff cfg > 0 \<and> delay > MaxBackoff cfg then MaxBackoff cfg else delay)
      in if JitterFrac cfg \<le> 0 then delay
         else let factor = 1 + (u * 2 - 1) * JitterFrac cfg;
                  jittered = (if of_int delay * factor \<ge> 0 then \<lfloor>of_int delay * factor\<rfloor> else - \<lfloor>- (of_int delay * factor)\<rfloor>)
              in if jittered < 0 then 0 else jittered)"

datatype fate = NoConnection | ReplyLost | Delivered

text \<open>The loop over the attempts; \<open>lastErr\<close> is the error of the attempt before.\<close>

fun unicast_loop :: "fate list \<Rightarrow> server_addr \<Rightarrow> ('w \<Rightarrow> 'r outcome \<times> 'w) \<Rightarrow> go_error \<Rightarrow> 'w \<Rightarrow> 'r outcome \<times> 'w" where
  "unicast_loop [] addr handler lastErr w = (Fail lastErr, w)"
| "unicast_loop (NoConnection # fs) addr handler lastErr w = unicast_loop fs addr handler (RpcErr DialFailed addr) w"
| "unicast_loop (ReplyLost # fs) addr handler lastErr w =
     (case handler w of (_, w') \<Rightarrow> unicast_loop fs addr handler (RpcErr ReplyTimedOut addr) w')"
| "unicast_loop (Delivered # fs) addr handler lastErr w =
     (case handler w of
        (Return x, w') \<Rightarrow> (Return x, w')
      | (Fail e, w') \<Rightarrow> unicast_loop fs addr handler (RpcCallFailed addr e) w'
      | (_, w') \<Rightarrow> unicast_loop fs addr handler (RpcErr ReplyTimedOut addr) w')"

definition UnicastToRPCServer :: "retry_config \<Rightarrow> fate list \<Rightarrow> server_addr \<Rightarrow> ('w \<Rightarrow> 'r outcome \<times> 'w) \<Rightarrow> 'w \<Rightarrow> 'r outcome \<times> 'w" where
  "UnicastToRPCServer cfg fates addr handler w =
     unicast_loop (take (nat (if MaxRetries cfg \<le> 0 then 1 else MaxRetries cfg)) fates) addr handler (RpcErr DialFailed addr) w"

section \<open>Retries\<close>

text \<open>
  How often the handler has run: once for every reply that was lost, for every reply that carried
  an error, and for the last one. The state is the handler iterated that often.
\<close>

definition iterate :: "('w \<Rightarrow> 'r outcome \<times> 'w) \<Rightarrow> nat \<Rightarrow> 'w \<Rightarrow> 'w" where
  "iterate handler k w = ((\<lambda>w. snd (handler w)) ^^ k) w"

lemma iterate_Suc: "iterate handler (Suc k) w = iterate handler k (snd (handler w))"
  by (simp add: iterate_def funpow_Suc_right del: funpow.simps)

lemma iterate_0 [simp]: "iterate handler 0 w = w"
  by (simp add: iterate_def)

lemma unicast_loop_iterates:
  "\<exists>k \<le> length fates. snd (unicast_loop fates addr handler e w) = iterate handler k w \<and>
     (\<forall>x. fst (unicast_loop fates addr handler e w) = Return x \<longrightarrow>
       k > 0 \<and> handler (iterate handler (k - 1) w) = (Return x, iterate handler k w))"
proof (induction fates arbitrary: e w)
  case Nil
  then show ?case by simp
next
  case (Cons f fates)
  have again: ?case if "unicast_loop (f # fates) addr handler e w = unicast_loop fates addr handler e' (snd (handler w))" for e'
  proof -
    obtain k where k: "k \<le> length fates" "snd (unicast_loop fates addr handler e' (snd (handler w))) = iterate handler k (snd (handler w))"
      "\<forall>x. fst (unicast_loop fates addr handler e' (snd (handler w))) = Return x \<longrightarrow>
        k > 0 \<and> handler (iterate handler (k - 1) (snd (handler w))) = (Return x, iterate handler k (snd (handler w)))"
      using Cons.IH by blast
    then have "\<forall>x. fst (unicast_loop (f # fates) addr handler e w) = Return x \<longrightarrow>
        handler (iterate handler (Suc k - 1) w) = (Return x, iterate handler (Suc k) w)"
      using that by (auto simp: iterate_Suc gr0_conv_Suc)
    with k that show ?thesis by (intro exI [of _ "Suc k"]) (auto simp: iterate_Suc)
  qed
  show ?case
  proof (cases f)
    case NoConnection
    with Cons.IH [of "RpcErr DialFailed addr" w] show ?thesis by (auto intro: le_SucI)
  next
    case ReplyLost
    then show ?thesis by (intro again [of "RpcErr ReplyTimedOut addr"]) (simp split: prod.splits)
  next
    case Delivered
    show ?thesis
    proof (cases "\<exists>x. fst (handler w) = Return x")
      case True
      then obtain x w' where "handler w = (Return x, w')" by (metis prod.collapse)
      with Delivered show ?thesis by (intro exI [of _ 1]) (simp add: iterate_def)
    next
      case False
      with Delivered obtain e' where "unicast_loop (f # fates) addr handler e w = unicast_loop fates addr handler e' (snd (handler w))"
        by (cases "handler w"; cases "fst (handler w)") auto
      then show ?thesis by (rule again)
    qed
  qed
qed





section \<open>Broadcasts\<close>

text \<open>
  \<^verbatim>\<open>BroadcastToRPCServers\<close> calls all addresses at once and waits for all of them. Each server
  has its own state, and \<open>order\<close> is the order in which the calls end, which is the order in which the
  errors are collected. Calls to different addresses act on different states, so running them one
  after the other in that order stands for every interleaving of them.
\<close>

record broadcast_error =
  be_Err :: go_error
  be_Addr :: server_addr
  be_Index :: nat

definition on_server :: "server_addr \<Rightarrow> ('w \<Rightarrow> 'r outcome \<times> 'w) \<Rightarrow> (server_addr \<Rightarrow> 'w) \<Rightarrow> 'r outcome \<times> (server_addr \<Rightarrow> 'w)" where
  "on_server addr handler st = (case handler (st addr) of (r, w) \<Rightarrow> (r, st(addr := w)))"

fun broadcast_loop :: "retry_config \<Rightarrow> (nat \<Rightarrow> fate list) \<Rightarrow> server_addr list \<Rightarrow> (server_addr \<Rightarrow> 'w \<Rightarrow> 'r outcome \<times> 'w) \<Rightarrow> nat list \<Rightarrow>
    broadcast_error list \<times> 'r option list \<times> (server_addr \<Rightarrow> 'w) \<Rightarrow> broadcast_error list \<times> 'r option list \<times> (server_addr \<Rightarrow> 'w)" where
  "broadcast_loop cfg fates addrs handler [] acc = acc"
| "broadcast_loop cfg fates addrs handler (i # order) (errs, replies, st) =
     broadcast_loop cfg fates addrs handler order
       (case UnicastToRPCServer cfg (fates i) (addrs ! i) (on_server (addrs ! i) (handler (addrs ! i))) st of
          (Return x, st') \<Rightarrow> (errs, replies[i := Some x], st')
        | (Fail e, st') \<Rightarrow> (errs @ [\<lparr>be_Err = e, be_Addr = addrs ! i, be_Index = i\<rparr>], replies, st')
        | (_, st') \<Rightarrow> (errs, replies, st'))"

definition BroadcastToRPCServers :: "retry_config \<Rightarrow> nat list \<Rightarrow> (nat \<Rightarrow> fate list) \<Rightarrow> server_addr list \<Rightarrow>
    (server_addr \<Rightarrow> 'w \<Rightarrow> 'r outcome \<times> 'w) \<Rightarrow> 'r option list \<Rightarrow> (server_addr \<Rightarrow> 'w) \<Rightarrow>
    go_error list \<times> 'r option list \<times> (server_addr \<Rightarrow> 'w)" where
  "BroadcastToRPCServers cfg order fates addrs handler replies st =
     (if addrs = [] then ([], replies, st)
      else if length replies \<noteq> length addrs then ([BadConfig RepliesLength ''''], replies, st)
      else case broadcast_loop cfg fates addrs handler order ([], replies, st) of
        (errs, replies', st') \<Rightarrow> (map be_Err errs, replies', st'))"

text \<open>What one call does on the state of its own server, and the errors among several results.\<close>

definition own_call :: "retry_config \<Rightarrow> (nat \<Rightarrow> fate list) \<Rightarrow> server_addr list \<Rightarrow> (server_addr \<Rightarrow> 'w \<Rightarrow> 'r outcome \<times> 'w) \<Rightarrow>
    (server_addr \<Rightarrow> 'w) \<Rightarrow> nat \<Rightarrow> 'r outcome \<times> 'w" where
  "own_call cfg fates addrs handler st i = UnicastToRPCServer cfg (fates i) (addrs ! i) (handler (addrs ! i)) (st (addrs ! i))"

lemma unicast_loop_on_server:
  "unicast_loop fs addr (on_server addr handler) e st =
     (case unicast_loop fs addr handler e (st addr) of (r, w) \<Rightarrow> (r, st(addr := w)))"
proof (induction fs arbitrary: e st)
  case (Cons f fs)
  obtain r w where "handler (st addr) = (r, w)" by force
  with Cons show ?case by (cases f; cases r) (auto simp: on_server_def split: prod.splits)
qed simp

lemma unicast_loop_value:
  "\<exists>x w'. unicast_loop fs addr handler e w = (Return x, w') \<or> (\<exists>e'. unicast_loop fs addr handler e w = (Fail e', w'))"
proof (induction fs arbitrary: e w)
  case (Cons f fs)
  obtain r w' where "handler w = (r, w')" by force
  with Cons show ?case by (cases f; cases r) auto
qed simp

text \<open>The part of the result that the calls in \<open>is\<close> contribute.\<close>

definition failures :: "('r outcome \<times> 'w) list \<Rightarrow> go_error list" where
  "failures rs = concat (map (\<lambda>r. case fst r of Fail e \<Rightarrow> [e] | _ \<Rightarrow> []) rs)"

definition reply_of :: "'r option \<Rightarrow> 'r outcome \<times> 'w \<Rightarrow> 'r option" where
  "reply_of old r = (case fst r of Return x \<Rightarrow> Some x | _ \<Rightarrow> old)"

lemma mset_failures:
  assumes "mset xs = mset ys"
  shows "mset (failures (map f xs)) = mset (failures (map f ys))"
proof -
  have *: "mset (failures (map f zs)) = (\<Sum>z\<in>#mset zs. mset (failures [f z]))" for zs
    by (induction zs) (auto simp: failures_def)
  show ?thesis unfolding * assms ..
qed

lemma own_call_value:
  obtains x w where "own_call cfg fates addrs handler st i = (Return x, w)"
  | e w where "own_call cfg fates addrs handler st i = (Fail e, w)"
  unfolding own_call_def UnicastToRPCServer_def using unicast_loop_value by metis

lemma unicast_own_call:
  "UnicastToRPCServer cfg (fates i) (addrs ! i) (on_server (addrs ! i) (handler (addrs ! i))) st =
     (case own_call cfg fates addrs handler st i of (r, w) \<Rightarrow> (r, st(addrs ! i := w)))"
  by (simp add: own_call_def UnicastToRPCServer_def unicast_loop_on_server)

lemma own_call_other:
  assumes "distinct addrs" "i < length addrs" "j < length addrs" "i \<noteq> j"
  shows "own_call cfg fates addrs handler (st(addrs ! i := w)) j = own_call cfg fates addrs handler st j"
  using assms by (simp add: own_call_def nth_eq_iff_index_eq)

lemma broadcast_loop_step:
  assumes "own_call cfg fates addrs handler st i = (r, w)" "i < length replies"
  obtains errs1 where
    "broadcast_loop cfg fates addrs handler (i # order) (errs, replies, st) =
       broadcast_loop cfg fates addrs handler order (errs1, replies[i := reply_of (replies ! i) (r, w)], st(addrs ! i := w))"
    "map be_Err errs1 = map be_Err errs @ failures [(r, w)]"
  using assms own_call_value [of cfg fates addrs handler st i]
  by (cases r) (force simp: unicast_own_call failures_def reply_of_def)+

lemma broadcast_loop_independent:
  assumes "distinct addrs" "distinct order" "set order \<subseteq> {..<length addrs}" "length replies = length addrs"
    and "broadcast_loop cfg fates addrs handler order (errs, replies, st) = (errs', replies', st')"
  shows "map be_Err errs' = map be_Err errs @ failures (map (own_call cfg fates addrs handler st) order) \<and>
    length replies' = length addrs \<and>
    (\<forall>j < length addrs. replies' ! j = (if j \<in> set order then reply_of (replies ! j) (own_call cfg fates addrs handler st j) else replies ! j) \<and>
       st' (addrs ! j) = (if j \<in> set order then snd (own_call cfg fates addrs handler st j) else st (addrs ! j))) \<and>
    (\<forall>a. a \<notin> set addrs \<longrightarrow> st' a = st a)"
  using assms
proof (induction order arbitrary: errs replies st)
  case Nil
  then show ?case by (auto simp: failures_def)
next
  case (Cons i order)
  let ?own = "own_call cfg fates addrs handler"
  from Cons.prems have i: "i < length addrs" "i \<notin> set order" by auto
  have later: "?own (st(addrs ! i := w)) j = ?own st j" if "j \<in> set order" for j w
    using that Cons.prems i by (intro own_call_other) auto
  have map_later: "map (?own (st(addrs ! i := w))) order = map (?own st) order" for w using later by simp
  have other: "addrs ! j \<noteq> addrs ! i" if "j < length addrs" "j \<noteq> i" for j
    using that i Cons.prems(1) by (simp add: nth_eq_iff_index_eq)
  obtain r w where rw: "?own st i = (r, w)" by force
  let ?replies = "replies[i := reply_of (replies ! i) (r, w)]" and ?st = "st(addrs ! i := w)"
  from i Cons.prems(4) obtain errs1 where step:
    "broadcast_loop cfg fates addrs handler (i # order) (errs, replies, st) =
       broadcast_loop cfg fates addrs handler order (errs1, ?replies, ?st)"
    "map be_Err errs1 = map be_Err errs @ failures [(r, w)]"
    using broadcast_loop_step [OF rw, of replies order errs] by auto
  have "map be_Err errs' = map be_Err errs1 @ failures (map (?own ?st) order) \<and> length replies' = length addrs \<and>
    (\<forall>j < length addrs. replies' ! j = (if j \<in> set order then reply_of (?replies ! j) (?own ?st j) else ?replies ! j) \<and>
       st' (addrs ! j) = (if j \<in> set order then snd (?own ?st j) else ?st (addrs ! j))) \<and>
    (\<forall>a. a \<notin> set addrs \<longrightarrow> st' a = ?st a)"
    using Cons.prems(1-4) Cons.prems(5) [unfolded step(1)] by (intro Cons.IH [of ?replies errs1 ?st]) (simp_all del: fun_upd_apply)
  moreover have "a \<noteq> addrs ! i" if "a \<notin> set addrs" for a using that i by auto
  ultimately show ?case using i rw step(2) Cons.prems(4)
    by (auto simp: map_later later other failures_def nth_list_update)
qed

text \<open>
  C34. A broadcast to different addresses is the same as the single calls, each on its own server, in
  whatever order they end: every server is left as its own call leaves it and no other server is
  touched, the replies are those of the calls that succeeded, and the errors are those of the
  calls that failed, as a multiset independent of the order. An empty list of addresses gives no
  error, and a list of replies of the wrong length gives one error and no call.
\<close>

theorem broadcast_is_unicasts:
  assumes "distinct addrs" and "distinct order" and "set order = {..<length addrs}" and "length replies = length addrs"
    and "BroadcastToRPCServers cfg order fates addrs handler replies st = (errs, replies', st')"
  shows "mset errs = mset (failures (map (own_call cfg fates addrs handler st) [0..<length addrs])) \<and>
    replies' = map (\<lambda>j. reply_of (replies ! j) (own_call cfg fates addrs handler st j)) [0..<length addrs] \<and>
    (\<forall>j < length addrs. st' (addrs ! j) = snd (own_call cfg fates addrs handler st j)) \<and>
    (\<forall>a. a \<notin> set addrs \<longrightarrow> st' a = st a) \<and>
    (\<forall>rs. length rs \<noteq> length addrs \<longrightarrow> addrs \<noteq> [] \<longrightarrow>
       BroadcastToRPCServers cfg order fates addrs handler rs st = ([BadConfig RepliesLength ''''], rs, st))"
proof -
  obtain errs' where l: "broadcast_loop cfg fates addrs handler order ([], replies, st) = (errs', replies', st')" "errs = map be_Err errs'"
  proof (cases "addrs = []")
    case True
    with assms(3) have "order = []" by simp
    with True assms(5) that [of "[]"] show ?thesis by (simp add: BroadcastToRPCServers_def)
  next
    case False
    obtain e r s where e: "broadcast_loop cfg fates addrs handler order ([], replies, st) = (e, r, s)" by (metis prod_cases3)
    with False assms(4,5) have "errs = map be_Err e \<and> replies' = r \<and> st' = s" by (simp add: BroadcastToRPCServers_def)
    with e that show ?thesis by blast
  qed
  have "mset order = mset [0..<length addrs]"
    using set_eq_iff_mset_eq_distinct [of order "[0..<length addrs]"] assms(2,3) by (simp add: atLeast0LessThan)
  note perm = mset_failures [OF this, of "own_call cfg fates addrs handler st"]
  note ind = broadcast_loop_independent [OF assms(1,2) equalityD1 [OF assms(3)] assms(4) l(1)]
  have all: "j \<in> set order" if "j < length addrs" for j using that assms(3) by blast
  have "map be_Err errs' = failures (map (own_call cfg fates addrs handler st) order)" using ind by simp
  with perm l(2) have "mset errs = mset (failures (map (own_call cfg fates addrs handler st) [0..<length addrs]))" by presburger
  moreover have "replies' = map (\<lambda>j. reply_of (replies ! j) (own_call cfg fates addrs handler st j)) [0..<length addrs]"
    using ind all by (intro nth_equalityI) simp_all
  moreover have "st' (addrs ! j) = snd (own_call cfg fates addrs handler st j)" if "j < length addrs" for j
    using ind all that by simp
  moreover have "\<forall>a. a \<notin> set addrs \<longrightarrow> st' a = st a" using ind by blast
  moreover have "\<forall>rs. length rs \<noteq> length addrs \<longrightarrow> addrs \<noteq> [] \<longrightarrow>
       BroadcastToRPCServers cfg order fates addrs handler rs st = ([BadConfig RepliesLength ''''], rs, st)"
    by (simp add: BroadcastToRPCServers_def)
  ultimately show ?thesis by blast
qed

theorem broadcast_is_unicasts_witness:
  "\<exists>errs replies st. BroadcastToRPCServers DefaultRetryConfig [1, 0] (\<lambda>i. if i = 0 then [Delivered] else [NoConnection])
      [''a'', ''b''] (\<lambda>_ w. (Return w, w + 1)) [None, None] (\<lambda>_. 0::nat) = (errs, replies, st) \<and>
     replies = [Some 0, None] \<and> st ''a'' = 1 \<and> length errs = 1"
proof -
  let ?b = "BroadcastToRPCServers DefaultRetryConfig [1, 0] (\<lambda>i. if i = 0 then [Delivered] else [NoConnection])
      [''a'', ''b''] (\<lambda>_ w. (Return w, w + 1)) [None, None] (\<lambda>_. 0::nat)"
  obtain errs replies st where b: "?b = (errs, replies, st)" by (rule prod_cases3)
  have "{..<Suc (Suc 0)} = {1, 0}" by auto
  then have "set [1, 0] = {..<length [''a'', ''b'']}" by simp
  note bc = broadcast_is_unicasts [OF _ _ this _ b]
  have two: "[0..<length [''a'', ''b'']] = [0, 1]" by (simp add: upt_rec)
  note evals = own_call_def UnicastToRPCServer_def DefaultRetryConfig_def failures_def reply_of_def numeral_3_eq_3
  from bc have "replies = [Some 0, None]" "mset errs = {#RpcErr DialFailed ''b''#}"
    unfolding two by (simp_all add: evals)
  moreover from bc have "\<forall>j < length [''a'', ''b'']. st ([''a'', ''b''] ! j) = snd (own_call DefaultRetryConfig
      (\<lambda>i. if i = 0 then [Delivered] else [NoConnection]) [''a'', ''b''] (\<lambda>_ w. (Return w, w + 1)) (\<lambda>_. 0::nat) j)" by simp
  from this [rule_format, of 0] have "st ''a'' = 1" by (simp add: evals)
  moreover from calculation(2) have "length errs = 1" by (metis size_mset size_single)
  ultimately show ?thesis using b by simp
qed

end
