(* ===== verification/Chunk_Server.thy ===== *)
theory Chunk_Server
  imports Common_Types Deque Download_Buffer Archive Rpc
begin

text \<open>
  The chunk server, \<^verbatim>\<open>src/chunkserver/chunkserver.go\<close>. Its state holds the chunk table, the files
  below its root, the staging buffer, the lease and garbage queues and the saved metadata. A
  handler that calls other servers works on the whole cluster, a map from addresses to servers,
  and the fate of each call is a parameter. \<open>now\<close> stands for the clock, \<open>sha\<close> for the SHA-256
  digest and \<open>gz\<close> for gzip. Times that Go's zero value marks as unset are \<open>None\<close>.
\<close>

section \<open>Names of chunk files\<close>

fun digits :: "nat \<Rightarrow> string" where
  "digits n = (if n < 10 then [char_of (48 + n)] else digits (n div 10) @ [char_of (48 + n mod 10)])"

declare digits.simps [simp del]

definition itoa :: "int \<Rightarrow> string" where
  "itoa i = (if i < 0 then ''-'' @ digits (nat (- i)) else digits (nat i))"

definition chunk_file :: "chunk_handle \<Rightarrow> string" where
  "chunk_file h = ''chunk-'' @ itoa h @ ''.chk''"

section \<open>State\<close>

record cs_chunk =
  ci_creationTime :: "time option"
  ci_lastModified :: "time option"
  ci_accessTime :: "time option"
  ci_mutations :: "(chunk_version \<times> mutation) list"
  ci_checksum :: checksum
  ci_replication :: int
  ci_serverStatus :: int
  ci_length :: offset
  ci_version :: chunk_version
  ci_checksumDirty :: bool
  ci_completed :: bool
  ci_abandoned :: bool
  ci_isCompressed :: bool

record persisted_meta_data =
  pm_CreationTime :: "time option"
  pm_LastModified :: "time option"
  pm_AccessTime :: "time option"
  pm_Mutations :: "(chunk_version \<times> mutation) list"
  pm_Checksum :: checksum
  pm_Handle :: chunk_handle
  pm_Version :: chunk_version
  pm_Length :: offset
  pm_Replication :: int
  pm_ServerStatus :: int
  pm_Completed :: bool
  pm_Abandoned :: bool

text \<open>The rest of a chunk's entry in a system report, beyond what the master reads.\<close>

record chunk_report = persisted_chunk_info +
  cr_Completed :: bool
  cr_Abandoned :: bool
  cr_CreationTime :: "time option"
  cr_AccessTime :: "time option"
  cr_LastModified :: "time option"
  cr_Mutations :: "(chunk_version \<times> mutation) list"
  cr_Replication :: int
  cr_ServerStatus :: int

text \<open>
  The metadata file is kept decoded: it may be missing, empty, hold something that \<^verbatim>\<open>gob\<close> cannot
  decode, or hold a list of entries. The fields of an entry that loading does not look at (chunk
  size, server address, metadata version, flags) are left out.
\<close>

datatype meta_file = NoMeta | EmptyMeta | CorruptMeta | Metas "persisted_meta_data list"

record chunk_server =
  rootDir :: file_system
  cs_chunks :: "(chunk_handle \<times> cs_chunk) list"
  downloadBuffer :: download_buffer
  leases :: "lease option deque"
  garbage :: "chunk_handle deque"
  decompressPending :: "(path \<times> result_info) list"
  metaFile :: meta_file
  cs_isDead :: bool

type_synonym 'a cs_result = "'a outcome \<times> chunk_server"

definition set_info :: "chunk_handle \<Rightarrow> (cs_chunk \<Rightarrow> cs_chunk) \<Rightarrow> chunk_server \<Rightarrow> chunk_server" where
  "set_info h f cs = cs\<lparr>cs_chunks := AList.map_entry h f (cs_chunks cs)\<rparr>"

definition on_root :: "(file_system \<Rightarrow> 'a fs_result) \<Rightarrow> chunk_server \<Rightarrow> 'a cs_result" where
  "on_root f cs = (case f (rootDir cs) of (r, fs) \<Rightarrow> (r, cs\<lparr>rootDir := fs\<rparr>))"

definition getBuffer :: "time \<Rightarrow> buffer_id \<Rightarrow> chunk_server \<Rightarrow> byte list option \<times> chunk_server" where
  "getBuffer now b cs = (case Download_Buffer.Get now b (downloadBuffer cs) of (r, db) \<Rightarrow> (r, cs\<lparr>downloadBuffer := db\<rparr>))"

section \<open>Reading and writing chunk files\<close>

definition readChunk :: "chunk_handle \<Rightarrow> offset \<Rightarrow> nat \<Rightarrow> chunk_server \<Rightarrow> (byte list \<times> go_error option) outcome" where
  "readChunk h off n cs = (case GetFile (chunk_file h) False (rootDir cs) of
     (Return f, _) \<Rightarrow> Return (ReadAt f n off (rootDir cs))
   | (Fail e, _) \<Rightarrow> Fail e
   | _ \<Rightarrow> Panic)"

definition valid_mutation :: "int \<Rightarrow> bool" where
  "valid_mutation t \<longleftrightarrow> t = MutationWrite \<or> t = MutationAppend \<or> t = MutationPad"

text \<open>
  The recorded length is raised before the file is opened. One call of \<^verbatim>\<open>Write\<close> or \<^verbatim>\<open>WriteAt\<close>
  writes everything or returns an error, so the loop around it runs once.
\<close>

definition writeChunk :: "time \<Rightarrow> chunk_handle \<Rightarrow> byte list \<Rightarrow> int \<Rightarrow> offset \<Rightarrow> chunk_server \<Rightarrow> int cs_result" where
  "writeChunk now h bs t off cs = (case map_of (cs_chunks cs) h of
     None \<Rightarrow> (Fail (ChunkErr ChunkNotFound h), cs)
   | Some _ \<Rightarrow>
       if \<not> valid_mutation t then (Fail (ChunkErr BadMutationType h), cs)
       else let newLen = off + int (length bs) in
         if newLen > ChunkMaxSizeInByte then (Fail (ChunkErr ExceedsMaxSize h), cs)
         else let cs = set_info h (\<lambda>c. if newLen > ci_length c then c\<lparr>ci_length := newLen\<rparr> else c) cs in
           bind_st (on_root (GetFile (chunk_file h) False) cs) (\<lambda>f cs.
           bind_st (if t = MutationAppend then (Return (), cs\<lparr>rootDir := append_end f bs (rootDir cs)\<rparr>)
                    else on_root (WriteAt f bs off) cs) (\<lambda>_ cs.
             (Return newLen, set_info h (\<lambda>c. c\<lparr>ci_lastModified := Some now,
                ci_completed := (ci_completed c \<or> newLen \<ge> ChunkMaxSizeInByte), ci_checksumDirty := True\<rparr>) cs))))"

text \<open>A padding mutation writes one zero byte instead of the data.\<close>

definition doMutate :: "time \<Rightarrow> chunk_handle \<Rightarrow> mutation \<Rightarrow> chunk_server \<Rightarrow> int cs_result" where
  "doMutate now h m cs =
     (if mu_Type m = MutationPad then writeChunk now h [0] (mu_Type m) (mu_Offset m) cs
      else writeChunk now h (mu_Data m) (mu_Type m) (mu_Offset m) cs)"

section \<open>Archiving\<close>

text \<open>
  Waiting for the result of a decompression on the channel that all requests share: results for
  other paths are kept for the others. When the channel has nothing more to deliver the wait
  never ends.
\<close>

fun await_result :: "path \<Rightarrow> result_info list \<Rightarrow> (path \<times> result_info) list \<Rightarrow> result_info outcome \<times> (path \<times> result_info) list" where
  "await_result want [] pending = (Deadlock, pending)"
| "await_result want (r # rs) pending =
     (if ri_Path r = want then (Return r, pending) else await_result want rs (AList.update (ri_Path r) r pending))"

text \<open>
  \<open>earlier\<close> are the results of other requests that arrive before the one of this request; the
  decompression itself runs when the worker takes the task. The archiver is closed when the server
  is shut down.
\<close>

definition unarchiveChunks :: "gzip_codec \<Rightarrow> result_info list \<Rightarrow> chunk_handle \<Rightarrow> chunk_server \<Rightarrow> unit cs_result" where
  "unarchiveChunks gz earlier h cs = (case map_of (cs_chunks cs) h of
     None \<Rightarrow> (Fail (ChunkErr CannotDecompress h), cs)
   | Some c \<Rightarrow>
       if \<not> ci_isCompressed c then (Return (), cs)
       else let expected = chunk_file h; done = set_info h (\<lambda>c. c\<lparr>ci_isCompressed := False\<rparr>) in
         case map_of (decompressPending cs) expected of
           Some r \<Rightarrow>
             let cs = cs\<lparr>decompressPending := AList.delete expected (decompressPending cs)\<rparr> in
             (case ri_Err r of Some e \<Rightarrow> (Fail e, cs) | None \<Rightarrow> (Return (), done cs))
         | None \<Rightarrow>
             if cs_isDead cs then (Fail (Os ArchiverClosed), cs)
             else (case decompress gz (expected @ zipExt) (rootDir cs) of (res, fs) \<Rightarrow>
              (case await_result expected (earlier @ [result_of res]) (decompressPending cs) of
                 (w, pending) \<Rightarrow>
                   bind_st (w, cs\<lparr>rootDir := fs, decompressPending := pending\<rparr>) (\<lambda>r cs.
                     case ri_Err r of Some e \<Rightarrow> (Fail e, cs) | None \<Rightarrow> (Return (), done cs)))))"

definition unarchive_if :: "gzip_codec \<Rightarrow> result_info list \<Rightarrow> chunk_handle \<Rightarrow> chunk_server \<Rightarrow> unit cs_result" where
  "unarchive_if gz earlier h cs = (case map_of (cs_chunks cs) h of
     Some c \<Rightarrow> if ci_isCompressed c then unarchiveChunks gz earlier h cs else (Return (), cs)
   | None \<Rightarrow> (Return (), cs))"

definition ArchivalSpan :: time where
  "ArchivalSpan = 5 * 24 * 3600 * Second"

definition old_access :: "time \<Rightarrow> cs_chunk \<Rightarrow> bool" where
  "old_access now c = (case ci_accessTime c of None \<Rightarrow> True | Some t \<Rightarrow> now - t > ArchivalSpan)"

fun archive_each :: "gzip_codec \<Rightarrow> chunk_handle list \<Rightarrow> chunk_server \<Rightarrow> go_error list \<times> chunk_server" where
  "archive_each gz [] cs = ([], cs)"
| "archive_each gz (h # hs) cs = (case compress gz (chunk_file h) (rootDir cs) of
     (Return _, fs) \<Rightarrow> archive_each gz hs (set_info h (\<lambda>c. c\<lparr>ci_isCompressed := True\<rparr>) (cs\<lparr>rootDir := fs\<rparr>))
   | (Fail e, fs) \<Rightarrow> (case archive_each gz hs (cs\<lparr>rootDir := fs\<rparr>) of (es, cs') \<Rightarrow> (e # es, cs'))
   | (_, fs) \<Rightarrow> archive_each gz hs (cs\<lparr>rootDir := fs\<rparr>))"

text \<open>
  The submitted chunks are compressed and marked; the goroutine that receives the results ranges
  over a channel that only \<^verbatim>\<open>Close\<close> closes, and \<^verbatim>\<open>archiveChunks\<close> waits for it. So it returns
  only when the archiver is already closed, and then every submission fails.
\<close>

definition archiveChunks :: "gzip_codec \<Rightarrow> time \<Rightarrow> chunk_server \<Rightarrow> unit cs_result" where
  "archiveChunks gz now cs =
     (let old = ExtractFromMap (cs_chunks cs) (old_access now) in
      if cs_isDead cs
      then (if old = [] then Return () else Fail (Errors (map (\<lambda>_. Os ArchiverClosed) old)), cs)
      else (Deadlock, snd (archive_each gz (map fst old) cs)))"

section \<open>Handlers that touch this server only\<close>

definition RPCCheckChunkVersionHandler :: "time \<Rightarrow> chunk_handle \<Rightarrow> chunk_version \<Rightarrow> chunk_server \<Rightarrow> bool cs_result" where
  "RPCCheckChunkVersionHandler now h v cs = (case map_of (cs_chunks cs) h of
     None \<Rightarrow> (Return True, cs)
   | Some c \<Rightarrow>
       let touch = (\<lambda>c. c\<lparr>ci_lastModified := Some now\<rparr>) in
       if ci_version c = v then (Return False, set_info h touch cs)
       else if ci_version c + 1 = v then (Return False, set_info h (\<lambda>c. (touch c)\<lparr>ci_version := ci_version c + 1\<rparr>) cs)
       else (Return True, set_info h touch cs))"

record read_chunk_reply =
  rr_Data :: "byte list"
  rr_Length :: int
  rr_ErrorCode :: error_code

text \<open>\<^verbatim>\<open>make([]byte, n)\<close> panics on a negative length; the buffer is filled up with zero bytes.\<close>

definition RPCReadChunkHandler :: "time \<Rightarrow> chunk_handle \<Rightarrow> offset \<Rightarrow> int \<Rightarrow> chunk_server \<Rightarrow> read_chunk_reply cs_result" where
  "RPCReadChunkHandler now h off n cs = (case map_of (cs_chunks cs) h of
     None \<Rightarrow> (Fail (ChunkErr ChunkAbandonedOrMissing h), cs)
   | Some c \<Rightarrow>
       if ci_abandoned c then (Fail (ChunkErr ChunkAbandonedOrMissing h), cs)
       else if n < 0 then (Panic, cs)
       else (case readChunk h off (nat n) cs of
           Return (got, err) \<Rightarrow>
             (case err of
                Some e \<Rightarrow> if e = Os EOF
                  then (Return \<lparr>rr_Data = got @ replicate (nat n - length got) 0, rr_Length = int (length got), rr_ErrorCode = ReadEOF\<rparr>,
                        set_info h (\<lambda>c. c\<lparr>ci_accessTime := Some now\<rparr>) cs)
                  else (Fail e, cs)
              | None \<Rightarrow> (Return \<lparr>rr_Data = got @ replicate (nat n - length got) 0, rr_Length = int (length got), rr_ErrorCode = Success\<rparr>,
                        set_info h (\<lambda>c. c\<lparr>ci_accessTime := Some now\<rparr>) cs))
         | Fail e \<Rightarrow> (Fail e, cs)
         | _ \<Rightarrow> (Panic, cs)))"

definition new_chunk_info :: "time \<Rightarrow> cs_chunk" where
  "new_chunk_info now = \<lparr>ci_creationTime = Some now, ci_lastModified = Some now, ci_accessTime = None, ci_mutations = [],
     ci_checksum = '''', ci_replication = 0, ci_serverStatus = 200, ci_length = 0, ci_version = 0, ci_checksumDirty = True,
     ci_completed = False, ci_abandoned = False, ci_isCompressed = False\<rparr>"

definition RPCCreateChunkHandler :: "time \<Rightarrow> chunk_handle \<Rightarrow> chunk_server \<Rightarrow> unit cs_result" where
  "RPCCreateChunkHandler now h cs =
     (if map_of (cs_chunks cs) h \<noteq> None then (Return (), cs)
      else on_root (CreateFile (chunk_file h)) (cs\<lparr>cs_chunks := AList.update h (new_chunk_info now) (cs_chunks cs)\<rparr>))"

definition push_lease :: "lease \<Rightarrow> chunk_server \<Rightarrow> unit cs_result" where
  "push_lease ls cs = (case PushBack (Some ls) (leases cs) of
     Return q \<Rightarrow> (Return (), cs\<lparr>leases := q\<rparr>) | Fail e \<Rightarrow> (Fail e, cs) | _ \<Rightarrow> (Panic, cs))"

definition RPCGrantLeaseHandler :: "time \<Rightarrow> server_addr \<Rightarrow> server_addr list \<Rightarrow> chunk_handle \<Rightarrow> chunk_server \<Rightarrow> unit cs_result" where
  "RPCGrantLeaseHandler expire prim secs h cs =
     push_lease \<lparr>l_Expire = expire, l_Primary = prim, l_Secondaries = secs, l_Handle = h, l_InUse = True\<rparr> cs"

text \<open>The size guard of writes and mutations, in \<^verbatim>\<open>uint64\<close> arithmetic.\<close>

definition too_large :: "offset \<Rightarrow> byte list \<Rightarrow> bool" where
  "too_large off bs \<longleftrightarrow> BToMb (add_uint64 (off mod 2 ^ 64) (int (length bs))) > of_int ChunkMaxSizeInMb"

record apply_mutation_args =
  am_MutationType :: int
  am_BufferId :: buffer_id
  am_Offset :: offset

definition RPCApplyMutationHandler :: "gzip_codec \<Rightarrow> result_info list \<Rightarrow> time \<Rightarrow> apply_mutation_args \<Rightarrow> chunk_server \<Rightarrow> int cs_result" where
  "RPCApplyMutationHandler gz earlier now args cs =
     (let b = am_BufferId args; h = bid_handle b in
      case getBuffer now b cs of
        (None, cs) \<Rightarrow> (Fail (ChunkErr BufferMiss h), cs)
      | (Some bs, cs) \<Rightarrow>
          if too_large (am_Offset args) bs then (Fail (ChunkErr DataSizeTooLarge h), cs)
          else (case map_of (cs_chunks cs) h of
              None \<Rightarrow> (Fail (ChunkErr ChunkAbandonedOrMissing h), cs)
            | Some c \<Rightarrow>
                if ci_abandoned c then (Fail (ChunkErr ChunkAbandonedOrMissing h), cs)
                else bind_st (unarchive_if gz earlier h cs) (\<lambda>_.
                  doMutate now h \<lparr>mu_Data = bs, mu_Offset = am_Offset args, mu_Type = am_MutationType args\<rparr>)))"

definition RPCApplyCopyHandler :: "gzip_codec \<Rightarrow> result_info list \<Rightarrow> time \<Rightarrow> chunk_handle \<Rightarrow> byte list \<Rightarrow> chunk_version \<Rightarrow>
    chunk_server \<Rightarrow> unit cs_result" where
  "RPCApplyCopyHandler gz earlier now h bs v cs = (case map_of (cs_chunks cs) h of
     None \<Rightarrow> (Fail (ChunkErr ChunkAbandonedOrMissing h), cs)
   | Some c \<Rightarrow>
       if ci_abandoned c then (Fail (ChunkErr ChunkAbandonedOrMissing h), cs)
       else bind_st (unarchive_if gz earlier h cs) (\<lambda>_ cs.
            bind_st (writeChunk now h bs MutationWrite 0 cs) (\<lambda>_ cs.
              (Return (), set_info h (\<lambda>c. c\<lparr>ci_version := v\<rparr>) cs))))"

text \<open>A chunk whose checksum is out of date is hashed from its file, when the file can be read.\<close>

definition refresh_checksum :: "(byte list \<Rightarrow> checksum) \<Rightarrow> file_system \<Rightarrow> chunk_handle \<Rightarrow> cs_chunk \<Rightarrow> cs_chunk" where
  "refresh_checksum sha fs h c =
     (if ci_checksumDirty c \<and> \<not> ci_isCompressed c
      then (case GetFile (chunk_file h) False fs of
          (Return f, _) \<Rightarrow> c\<lparr>ci_checksum := sha (file_bytes f fs), ci_checksumDirty := False\<rparr>
        | _ \<Rightarrow> c)
      else c)"

definition refresh_all :: "(byte list \<Rightarrow> checksum) \<Rightarrow> chunk_server \<Rightarrow> chunk_server" where
  "refresh_all sha cs = cs\<lparr>cs_chunks := map (\<lambda>(h, c). (h, refresh_checksum sha (rootDir cs) h c)) (cs_chunks cs)\<rparr>"

definition report_of :: "chunk_handle \<Rightarrow> cs_chunk \<Rightarrow> chunk_report" where
  "report_of h c = \<lparr>pc_Handle = h, pc_Version = ci_version c, pc_Checksum = ci_checksum c, pc_Length = ci_length c,
     cr_Completed = ci_completed c, cr_Abandoned = ci_abandoned c, cr_CreationTime = ci_creationTime c,
     cr_AccessTime = ci_accessTime c, cr_LastModified = ci_lastModified c, cr_Mutations = ci_mutations c,
     cr_Replication = ci_replication c, cr_ServerStatus = ci_serverStatus c\<rparr>"

definition RPCSysReportHandler :: "(byte list \<Rightarrow> checksum) \<Rightarrow> chunk_server \<Rightarrow> chunk_report list cs_result" where
  "RPCSysReportHandler sha cs = (let cs = refresh_all sha cs in (Return (map (\<lambda>(h, c). report_of h c) (cs_chunks cs)), cs))"

section \<open>Persistence and garbage\<close>

definition persisted_of :: "chunk_handle \<Rightarrow> cs_chunk \<Rightarrow> persisted_meta_data" where
  "persisted_of h c = \<lparr>pm_CreationTime = ci_creationTime c, pm_LastModified = None, pm_AccessTime = ci_accessTime c,
     pm_Mutations = ci_mutations c, pm_Checksum = ci_checksum c, pm_Handle = h, pm_Version = ci_version c,
     pm_Length = ci_length c, pm_Replication = ci_replication c, pm_ServerStatus = ci_serverStatus c,
     pm_Completed = ci_completed c, pm_Abandoned = ci_abandoned c\<rparr>"

definition persistMetadata :: "(byte list \<Rightarrow> checksum) \<Rightarrow> chunk_server \<Rightarrow> unit cs_result" where
  "persistMetadata sha cs =
     (if metaFile cs = NoMeta then (Fail (Os ENOENT), cs)
      else let cs = refresh_all sha cs in (Return (), cs\<lparr>metaFile := Metas (map (\<lambda>(h, c). persisted_of h c) (cs_chunks cs))\<rparr>))"

definition restored_info :: "persisted_meta_data \<Rightarrow> cs_chunk" where
  "restored_info m = \<lparr>ci_creationTime = pm_CreationTime m, ci_lastModified = pm_LastModified m, ci_accessTime = pm_AccessTime m,
     ci_mutations = pm_Mutations m, ci_checksum = pm_Checksum m, ci_replication = pm_Replication m,
     ci_serverStatus = pm_ServerStatus m, ci_length = pm_Length m, ci_version = pm_Version m, ci_checksumDirty = False,
     ci_completed = pm_Completed m, ci_abandoned = pm_Abandoned m, ci_isCompressed = False\<rparr>"

text \<open>A missing file is created empty; one that cannot be decoded is moved aside and replaced.\<close>

definition loadMetadata :: "chunk_server \<Rightarrow> chunk_server" where
  "loadMetadata cs = (case metaFile cs of
     NoMeta \<Rightarrow> cs\<lparr>metaFile := EmptyMeta\<rparr>
   | CorruptMeta \<Rightarrow> cs\<lparr>metaFile := EmptyMeta\<rparr>
   | EmptyMeta \<Rightarrow> cs
   | Metas metas \<Rightarrow> ForEachInSlice metas (\<lambda>m cs.
       if pm_Length m < 0 then cs
       else cs\<lparr>cs_chunks := AList.update (pm_Handle m) (restored_info m) (cs_chunks cs)\<rparr>) cs)"

definition deleteChunk :: "chunk_handle \<Rightarrow> chunk_server \<Rightarrow> unit cs_result" where
  "deleteChunk h cs = (case map_of (cs_chunks cs) h of
     None \<Rightarrow> (Return (), cs)
   | Some c \<Rightarrow>
       let cs = cs\<lparr>cs_chunks := AList.delete h (cs_chunks cs)\<rparr> in
       if ci_length c < 0 then (Fail (ChunkErr NegativeLength h), cs)
       else on_root (RemoveFile (if ci_isCompressed c then chunk_file h @ zipExt else chunk_file h)) cs)"

fun collect_garbage :: "nat \<Rightarrow> chunk_server \<Rightarrow> (go_error list \<times> bool) cs_result" where
  "collect_garbage 0 cs = (Return ([], False), cs)"
| "collect_garbage (Suc k) cs = (case PopFront 0 (garbage cs) of
     Return (h, q) \<Rightarrow>
       (case deleteChunk h (cs\<lparr>garbage := q\<rparr>) of
          (Return _, cs) \<Rightarrow> bind_st (collect_garbage k cs) (\<lambda>(es, _) cs. (Return (es, True), cs))
        | (Fail e, cs) \<Rightarrow> bind_st (collect_garbage k cs) (\<lambda>(es, any) cs. (Return (e # es, any), cs))
        | (_, cs) \<Rightarrow> (Panic, cs))
   | _ \<Rightarrow> (Panic, cs))"

definition garbageCollection :: "(byte list \<Rightarrow> checksum) \<Rightarrow> chunk_server \<Rightarrow> unit cs_result" where
  "garbageCollection sha cs =
     bind_st (collect_garbage (nat (Length (garbage cs))) cs) (\<lambda>(errs, deletedAny) cs.
       case (if deletedAny then persistMetadata sha cs else (Return (), cs)) of (r, cs) \<Rightarrow>
         let errs = errs @ (case r of Fail e \<Rightarrow> [e] | _ \<Rightarrow> []) in (if errs = [] then Return () else Fail (Errors errs), cs))"

text \<open>
  The reply of the master to a heartbeat. \<open>tracked\<close> tells whether the failure detector could
  store the network data; when it could not, the handling of the reply ends there.
\<close>

fun push_leases :: "lease list \<Rightarrow> chunk_server \<Rightarrow> unit cs_result" where
  "push_leases [] cs = (Return (), cs)"
| "push_leases (ls # rest) cs = bind_st (push_lease ls cs) (\<lambda>_. push_leases rest)"

fun push_garbage :: "chunk_handle list \<Rightarrow> chunk_server \<Rightarrow> unit cs_result" where
  "push_garbage [] cs = (Return (), cs)"
| "push_garbage (h # hs) cs = (case PushBack h (garbage cs) of
     Return q \<Rightarrow> push_garbage hs (cs\<lparr>garbage := q\<rparr>) | Fail e \<Rightarrow> (Fail e, cs) | _ \<Rightarrow> (Panic, cs))"

definition heartBeat :: "bool \<Rightarrow> (lease list \<times> chunk_handle list) outcome \<Rightarrow> chunk_server \<Rightarrow> unit cs_result" where
  "heartBeat tracked reply cs =
     bind_st (reply, cs) (\<lambda>(ext, garb) cs.
       if \<not> tracked then (Fail (Os TrackFailed), cs)
       else bind_st (push_leases ext cs) (\<lambda>_ cs. push_garbage garb cs))"

definition Shutdown :: "(byte list \<Rightarrow> checksum) \<Rightarrow> chunk_server \<Rightarrow> unit cs_result" where
  "Shutdown sha cs =
     (if cs_isDead cs then (Return (), cs)
      else bind_st (garbageCollection sha (cs\<lparr>cs_isDead := True\<rparr>)) (\<lambda>_. persistMetadata sha))"

text \<open>
  Starting a server on a root directory and a metadata file. The measured proximity, the failure
  detector and the listener are not part of this state.
\<close>

definition DownloadBufferTick :: time where
  "DownloadBufferTick = 10 * Second"

definition NewChunkServer :: "path \<Rightarrow> disk \<Rightarrow> meta_file \<Rightarrow> chunk_server outcome" where
  "NewChunkServer root_dir disk meta =
     bind_outcome (NewDownloadBuffer DownloadBufferTick DownloadBufferItemExpire) (\<lambda>dbuffer.
     let cs = \<lparr>rootDir = NewFileSystem root_dir disk, cs_chunks = [], downloadBuffer = dbuffer, leases = empty_deque,
           garbage = empty_deque, decompressPending = [], metaFile = meta, cs_isDead = False\<rparr>
     in case on_root (MkDir ''.'') cs of
          (Return _, cs) \<Rightarrow> Return (loadMetadata cs)
        | (Fail e, cs) \<Rightarrow> Fail e
        | _ \<Rightarrow> Panic)"

text \<open>
  The background loop runs one task per tick of its tickers, in turn: a task that does not return
  is the last one. An error is logged only.
\<close>

datatype background_event =
    HeartBeatTick bool "(lease list \<times> chunk_handle list) outcome"
  | PersistTick
  | GarbageTick
  | ArchiveTick time

fun background :: "gzip_codec \<Rightarrow> (byte list \<Rightarrow> checksum) \<Rightarrow> background_event \<Rightarrow> chunk_server \<Rightarrow> unit cs_result" where
  "background gz sha (HeartBeatTick tracked reply) cs = heartBeat tracked reply cs"
| "background gz sha PersistTick cs = persistMetadata sha cs"
| "background gz sha GarbageTick cs = garbageCollection sha cs"
| "background gz sha (ArchiveTick now) cs = archiveChunks gz now cs"

fun background_loop :: "gzip_codec \<Rightarrow> (byte list \<Rightarrow> checksum) \<Rightarrow> background_event list \<Rightarrow> chunk_server \<Rightarrow> unit cs_result" where
  "background_loop gz sha [] cs = (Return (), cs)"
| "background_loop gz sha (e # es) cs = (case background gz sha e cs of
     (Return _, cs) \<Rightarrow> background_loop gz sha es cs
   | (Fail _, cs) \<Rightarrow> background_loop gz sha es cs
   | stuck \<Rightarrow> stuck)"

section \<open>Handlers that call other servers\<close>

type_synonym cluster = "server_addr \<Rightarrow> chunk_server option"

text \<open>
  The surroundings of one handler run: the clock when it starts, when it has written locally and
  when it ends, gzip, the digest, earlier results on the decompression channel, and what the
  network does to the attempts of the call to each address.
\<close>

record cs_env =
  ev_now :: time
  ev_written :: time
  ev_end :: time
  ev_gz :: gzip_codec
  ev_sha :: "byte list \<Rightarrow> checksum"
  ev_earlier :: "result_info list"
  ev_net :: "server_addr \<Rightarrow> fate list"

definition at_server :: "server_addr \<Rightarrow> (chunk_server \<Rightarrow> 'a cs_result) \<Rightarrow> cluster \<Rightarrow> 'a outcome \<times> cluster" where
  "at_server addr f cl = (case cl addr of
     None \<Rightarrow> (Fail (RpcErr DialFailed addr), cl)
   | Some cs \<Rightarrow> (case f cs of (r, cs') \<Rightarrow> (r, cl(addr \<mapsto> cs'))))"

definition call :: "cs_env \<Rightarrow> server_addr \<Rightarrow> (cluster \<Rightarrow> 'a outcome \<times> cluster) \<Rightarrow> cluster \<Rightarrow> 'a outcome \<times> cluster" where
  "call env addr handler = UnicastToRPCServer DefaultRetryConfig (ev_net env addr) addr handler"

text \<open>Forwarding of staged data along the chain of replicas.\<close>

fun RPCForwardDataHandler :: "cs_env \<Rightarrow> server_addr \<Rightarrow> buffer_id \<Rightarrow> byte list \<Rightarrow> server_addr list \<Rightarrow> cluster \<Rightarrow> unit outcome \<times> cluster" where
  "RPCForwardDataHandler env self b bs replicas cl =
     bind_st (at_server self (\<lambda>cs. case getBuffer (ev_now env) b cs of
          (Some _, cs) \<Rightarrow> (Return True, cs)
        | (None, cs) \<Rightarrow> (Return False, cs\<lparr>downloadBuffer := Set (ev_now env) b bs (downloadBuffer cs)\<rparr>)) cl) (\<lambda>known cl.
       if known then (Return (), cl)
       else case replicas of
         [] \<Rightarrow> (Return (), cl)
       | r # rs \<Rightarrow> call env r (RPCForwardDataHandler env r b bs rs) cl)"

declare RPCForwardDataHandler.simps [simp del]

text \<open>The calls to the replicas that a committed mutation makes, with the errors they return.\<close>

fun forward_mutation :: "cs_env \<Rightarrow> bool \<Rightarrow> apply_mutation_args \<Rightarrow> server_addr list \<Rightarrow> cluster \<Rightarrow>
    (server_addr \<times> go_error) list \<times> cluster" where
  "forward_mutation env late args [] cl = ([], cl)"
| "forward_mutation env late args (r # rs) cl =
     (case (if late then (Fail (RpcErr ReplyTimedOut r), cl)
            else call env r (at_server r (RPCApplyMutationHandler (ev_gz env) (ev_earlier env) (ev_now env) args)) cl) of
        (Return _, cl) \<Rightarrow> forward_mutation env late args rs cl
      | (Fail e, cl) \<Rightarrow> (case forward_mutation env late args rs cl of (es, cl) \<Rightarrow> ((r, e) # es, cl))
      | (_, cl) \<Rightarrow> forward_mutation env late args rs cl)"

text \<open>
  The mutation log of the primary: the first mutation at the current version is recorded under it,
  a later one only raises the version.
\<close>

definition log_mutation :: "mutation \<Rightarrow> cs_chunk \<Rightarrow> cs_chunk" where
  "log_mutation m c =
     (if map_of (ci_mutations c) (ci_version c) \<noteq> None then c\<lparr>ci_version := ci_version c + 1\<rparr>
      else c\<lparr>ci_mutations := AList.update (ci_version c) m (ci_mutations c)\<rparr>)"

text \<open>The commit on the primary itself, up to and including the mutation log.\<close>

definition write_local :: "cs_env \<Rightarrow> chunk_handle \<Rightarrow> offset \<Rightarrow> byte list \<Rightarrow> chunk_server \<Rightarrow> int cs_result" where
  "write_local env h off bs cs = (case map_of (cs_chunks cs) h of
     None \<Rightarrow> (Fail (ChunkErr ChunkAbandonedOrMissing h), cs)
   | Some c \<Rightarrow>
       if ci_abandoned c then (Fail (ChunkErr ChunkAbandonedOrMissing h), cs)
       else if ci_completed c then (Fail (ChunkErr ChunkCompleted h), cs)
       else bind_st (unarchive_if (ev_gz env) (ev_earlier env) h cs) (\<lambda>_ cs.
         if too_large off bs then (Fail (ChunkErr ExceedsMaxSize h), cs)
         else let m = \<lparr>mu_Data = bs, mu_Offset = off, mu_Type = MutationWrite\<rparr> in
           bind_st (doMutate (ev_now env) h m cs) (\<lambda>n cs. (Return n, set_info h (log_mutation m) cs))))"

record write_chunk_args =
  wc_Replicas :: "server_addr list"
  wc_BufferId :: buffer_id
  wc_Offset :: offset

definition performWrite :: "cs_env \<Rightarrow> server_addr \<Rightarrow> time \<Rightarrow> write_chunk_args \<Rightarrow> byte list \<Rightarrow> cluster \<Rightarrow> int outcome \<times> cluster" where
  "performWrite env self deadline args bs cl =
     (let h = bid_handle (wc_BufferId args); off = wc_Offset args in
      bind_st (at_server self (write_local env h off bs) cl) (\<lambda>n cl.
      (case forward_mutation env (deadline \<le> ev_written env)
            \<lparr>am_MutationType = MutationWrite, am_BufferId = wc_BufferId args, am_Offset = off\<rparr> (wc_Replicas args) cl of
         (errs, cl) \<Rightarrow>
           if errs \<noteq> [] then (Fail (Wrapped ''replication errors'' (Errors (map (\<lambda>(r, e). Wrapped r e) errs))), cl)
           else at_server self (\<lambda>cs. (case map_of (cs_chunks cs) h of
               None \<Rightarrow> (Fail (ChunkErr ChunkNotFound h), cs)
             | Some _ \<Rightarrow> (Return n, set_info h (\<lambda>c.
                 if off + int (length bs) > ci_length c then c\<lparr>ci_length := off + int (length bs)\<rparr> else c) cs))) cl)))"

text \<open>
  The leases are taken out newest first and walked from the oldest; the first one for the chunk
  is selected, the others go back in order.
\<close>

fun lease_loop :: "chunk_handle \<Rightarrow> lease option list \<Rightarrow> lease option \<Rightarrow> lease option deque \<Rightarrow> (lease option \<times> lease option deque) outcome" where
  "lease_loop h [] sel q = Return (sel, q)"
| "lease_loop h (None # ls) sel q = lease_loop h ls sel q"
| "lease_loop h (Some l # ls) sel q =
     (if l_Handle l = h \<and> sel = None then lease_loop h ls (Some l) q
      else bind_outcome (PushBack (Some l) q) (lease_loop h ls sel))"

definition take_lease :: "chunk_handle \<Rightarrow> chunk_server \<Rightarrow> lease option cs_result" where
  "take_lease h cs =
     (case bind_outcome (PopAllReverse None (leases cs)) (\<lambda>(ls, q). lease_loop h (rev ls) None q) of
        Return (sel, q) \<Rightarrow> (Return sel, cs\<lparr>leases := q\<rparr>)
      | Fail e \<Rightarrow> (Fail e, cs) | Panic \<Rightarrow> (Panic, cs) | Deadlock \<Rightarrow> (Deadlock, cs) | OutOfFuel \<Rightarrow> (OutOfFuel, cs))"

text \<open>The test on the text of the error message.\<close>

fun mentions_full :: "go_error \<Rightarrow> bool" where
  "mentions_full (ChunkErr ChunkCompleted _) = True"
| "mentions_full (ChunkErr ExceedsMaxSize _) = True"
| "mentions_full (Errors es) = list_ex mentions_full es"
| "mentions_full (Wrapped _ e) = mentions_full e"
| "mentions_full (RpcCallFailed _ e) = mentions_full e"
| "mentions_full _ = False"

definition RPCWriteChunkHandler :: "cs_env \<Rightarrow> server_addr \<Rightarrow> write_chunk_args \<Rightarrow> cluster \<Rightarrow> (int \<times> error_code) outcome \<times> cluster" where
  "RPCWriteChunkHandler env self args cl =
     (let b = wc_BufferId args; h = bid_handle b in
      bind_st (at_server self (\<lambda>cs. case getBuffer (ev_now env) b cs of (r, cs) \<Rightarrow> (Return r, cs)) cl) (\<lambda>r cl. case r of
        None \<Rightarrow> (Fail (ChunkErr BufferMiss h), cl)
      | Some bs \<Rightarrow>
          if too_large (wc_Offset args) bs then (Return (0, WriteExceedChunkSize), cl)
          else bind_st (at_server self (take_lease h) cl) (\<lambda>sel cl. case sel of
              None \<Rightarrow> (Return (0, LeaseExpired), cl)
            | Some l \<Rightarrow>
                if IsExpired l (ev_now env) then (Return (0, LeaseExpired), cl)
                else (case performWrite env self (l_Expire l) args bs cl of
                    (Fail e, cl) \<Rightarrow> if mentions_full e then (Return (0, WriteExceedChunkSize), cl) else (Fail e, cl)
                  | (Return n, cl) \<Rightarrow>
                      if IsExpired l (ev_end env) then (Return (n, Success), cl)
                      else bind_st (at_server self (push_lease l) cl) (\<lambda>_ cl. (Return (n, Success), cl))
                  | (_, cl) \<Rightarrow> (Panic, cl)))))"

text \<open>
  An append that does not fit sets the recorded length to the maximum and writes the padding byte
  at the old length.
\<close>

definition append_local :: "cs_env \<Rightarrow> buffer_id \<Rightarrow> chunk_server \<Rightarrow> (offset \<times> error_code) cs_result" where
  "append_local env b cs =
     (let h = bid_handle b in case getBuffer (ev_now env) b cs of
        (None, cs) \<Rightarrow> (Fail (ChunkErr BufferMiss h), cs)
      | (Some bs, cs) \<Rightarrow> (case map_of (cs_chunks cs) h of
          None \<Rightarrow> (Fail (ChunkErr ChunkAbandonedOrMissing h), cs)
        | Some c \<Rightarrow>
            if ci_abandoned c then (Fail (ChunkErr ChunkAbandonedOrMissing h), cs)
            else bind_st (unarchive_if (ev_gz env) (ev_earlier env) h cs) (\<lambda>_ cs.
              let off = ci_length c;
                  full = (BToMb ((off + int (length bs)) mod 2 ^ 64) > of_int ChunkMaxSizeInMb);
                  cs = (if full then set_info h (\<lambda>c. c\<lparr>ci_length := ChunkMaxSizeInByte\<rparr>) cs else cs)
              in bind_st (doMutate (ev_now env) h \<lparr>mu_Data = bs, mu_Offset = off,
                     mu_Type = (if full then MutationPad else MutationAppend)\<rparr> cs) (\<lambda>n cs.
                   (Return (off, if full then AppendExceedChunkSize else Success), cs)))))"

definition RPCAppendChunkHandler :: "cs_env \<Rightarrow> server_addr \<Rightarrow> server_addr list \<Rightarrow> buffer_id \<Rightarrow> cluster \<Rightarrow> (offset \<times> error_code) outcome \<times> cluster" where
  "RPCAppendChunkHandler env self replicas b cl =
     bind_st (at_server self (append_local env b) cl) (\<lambda>(off, code) cl.
       (case forward_mutation env False \<lparr>am_MutationType = (if code = Success then MutationAppend else MutationPad),
            am_BufferId = b, am_Offset = off\<rparr> replicas cl of
          (errs, cl) \<Rightarrow> (if errs = [] then Return (off, code) else Fail (Errors (map snd errs)), cl)))"

text \<open>The whole recorded length is read; a file shorter than that ends the snapshot with an error.\<close>

definition RPCGetSnapshotHandler :: "cs_env \<Rightarrow> server_addr \<Rightarrow> chunk_handle \<Rightarrow> server_addr \<Rightarrow> cluster \<Rightarrow> unit outcome \<times> cluster" where
  "RPCGetSnapshotHandler env self h target cl =
     bind_st (at_server self (\<lambda>cs. (case map_of (cs_chunks cs) h of
         None \<Rightarrow> (Fail (ChunkErr ChunkAbandonedOrMissing h), cs)
       | Some c \<Rightarrow>
           if ci_abandoned c then (Fail (ChunkErr ChunkAbandonedOrMissing h), cs)
           else bind_st (unarchive_if (ev_gz env) (ev_earlier env) h cs) (\<lambda>_ cs.
             if ci_length c < 0 then (Panic, cs)
             else (case readChunk h 0 (nat (ci_length c)) cs of
               Return (got, None) \<Rightarrow>
                 (Return (got, ci_version c), set_info h (\<lambda>c. c\<lparr>ci_checksum := ev_sha env got, ci_checksumDirty := False\<rparr>) cs)
             | Return (got, Some e) \<Rightarrow> (Fail e, cs)
             | Fail e \<Rightarrow> (Fail e, cs)
             | _ \<Rightarrow> (Panic, cs))))) cl) (\<lambda>(bs, v) cl.
       call env target (at_server target (RPCApplyCopyHandler (ev_gz env) (ev_earlier env) (ev_now env) h bs v)) cl)"

end
