(* ===== verification/Chunk_Server_Properties.thy ===== *)
theory Chunk_Server_Properties
  imports Chunk_Server
begin

text \<open>
  Correctness of the chunk server: the invariant that ties the chunk table to the files on disk,
  what reading, writing, copying, deleting and restarting do to the bytes of a chunk, and the
  agreement of replicas under retried calls.
\<close>

section \<open>Chunk file names\<close>

lemma digits_neq_Nil [simp]: "digits n \<noteq> []"
  by (subst digits.simps) auto


lemma digits_chars: "c \<in> set (digits n) \<Longrightarrow> 48 \<le> (of_char c :: nat) \<and> (of_char c :: nat) < 58"
proof (induction n rule: digits.induct)
  case (1 n)
  show ?case
  proof (cases "n < 10")
    case True
    with 1 show ?thesis by (simp add: digits.simps [of n])
  next
    case False
    have "n mod 10 < 10" by simp
    with 1 False show ?thesis by (auto simp: digits.simps [of n])
  qed
qed

fun undigits :: "nat \<Rightarrow> string \<Rightarrow> nat" where
  "undigits acc [] = acc"
| "undigits acc (c # cs) = undigits (10 * acc + (of_char c - 48)) cs"

lemma undigits_append: "undigits acc (xs @ ys) = undigits (undigits acc xs) ys"
  by (induction xs arbitrary: acc) auto

lemma undigits_digits: "undigits 0 (digits n) = n"
proof (induction n rule: digits.induct)
  case (1 n)
  have "n mod 10 < 10" by simp
  then show ?case
    using 1 by (cases "n < 10") (simp_all add: digits.simps [of n] undigits_append)
qed

lemma digits_inj: "digits m = digits n \<Longrightarrow> m = n"
  by (metis undigits_digits)

lemma itoa_inj: "itoa i = itoa j \<Longrightarrow> i = j"
proof -
  assume eq: "itoa i = itoa j"
  have no_minus: "digits n \<noteq> ''-'' @ s" for n s
    using digits_chars [of "CHR ''-''" n] by auto
  from eq show ?thesis
    using no_minus [of "nat i"] no_minus [of "nat j"] digits_inj [of "nat i" "nat j"] digits_inj [of "nat (- i)" "nat (- j)"]
    by (auto simp: itoa_def split: if_splits dest: sym)
qed

lemma itoa_chars: "c \<in> set (itoa i) \<Longrightarrow> c = CHR ''-'' \<or> 48 \<le> (of_char c :: nat) \<and> (of_char c :: nat) < 58"
  using digits_chars by (auto simp: itoa_def split: if_splits)

lemma chunk_file_inj [simp]: "chunk_file h = chunk_file h' \<longleftrightarrow> h = h'"
  using itoa_inj by (auto simp: chunk_file_def)

lemma chunk_file_valid [simp]: "valid_comp (chunk_file h)"
proof -
  have "hd (chunk_file h) = CHR ''c''" by (simp add: chunk_file_def)
  then have ne: "chunk_file h \<noteq> s" if "hd s \<noteq> CHR ''c''" for s using that by auto
  have "chunk_file h \<noteq> ''.''" "chunk_file h \<noteq> ''..''" by (rule ne, simp)+
  moreover have "chunk_file h \<noteq> []" by (simp add: chunk_file_def)
  moreover have "sep \<notin> set (itoa h)" using itoa_chars [of sep h] by auto
  then have "sep \<notin> set (chunk_file h)" by (simp add: chunk_file_def)
  ultimately show ?thesis by (simp add: valid_comp_def)
qed

lemma chunk_file_not_gz [simp]: "chunk_file h \<noteq> chunk_file h' @ zipExt" "chunk_file h' @ zipExt \<noteq> chunk_file h"
proof -
  have l: "last (chunk_file h) = CHR ''k''" "last (chunk_file h' @ zipExt) = CHR ''z''"
    by (simp_all add: chunk_file_def zipExt_def)
  show "chunk_file h \<noteq> chunk_file h' @ zipExt"
  proof
    assume "chunk_file h = chunk_file h' @ zipExt"
    with l have "CHR ''k'' = CHR ''z''" by (metis l)
    then show False by simp
  qed
  then show "chunk_file h' @ zipExt \<noteq> chunk_file h" by (rule not_sym)
qed

lemma chunk_gz_valid [simp]: "valid_comp (chunk_file h @ zipExt)"
  by (simp add: zip_valid)

section \<open>The bytes of a chunk\<close>

abbreviation info :: "chunk_server \<Rightarrow> chunk_handle \<Rightarrow> cs_chunk option" where
  "info cs \<equiv> map_of (cs_chunks cs)"

abbreviation bytes :: "chunk_server \<Rightarrow> chunk_handle \<Rightarrow> byte list option" where
  "bytes cs h \<equiv> stored (rootDir cs) (chunk_file h)"

lemma info_set_info [simp]: "info (set_info h f cs) h' = (if h' = h then map_option f (info cs h) else info cs h')"
  by (simp add: set_info_def map_of_map_entry)

lemma set_info_simps [simp]:
  "rootDir (set_info h f cs) = rootDir cs" "leases (set_info h f cs) = leases cs" "garbage (set_info h f cs) = garbage cs"
  "downloadBuffer (set_info h f cs) = downloadBuffer cs" "metaFile (set_info h f cs) = metaFile cs"
  "decompressPending (set_info h f cs) = decompressPending cs" "cs_isDead (set_info h f cs) = cs_isDead cs"
  "map fst (cs_chunks (set_info h f cs)) = map fst (cs_chunks cs)"
  by (simp_all add: set_info_def)

text \<open>
  As long as no chunk has been archived: every recorded chunk has its file and a length within the
  bounds, and every chunk file on disk belongs to a recorded chunk.
\<close>

definition chunk_ok :: "chunk_server \<Rightarrow> chunk_handle \<Rightarrow> cs_chunk \<Rightarrow> bool" where
  "chunk_ok cs h c \<longleftrightarrow> 0 \<le> ci_length c \<and> ci_length c \<le> ChunkMaxSizeInByte \<and>
     \<not> ci_isCompressed c \<and> bytes cs h \<noteq> None"

definition cs_inv :: "chunk_server \<Rightarrow> bool" where
  "cs_inv cs \<longleftrightarrow> flat_inv (rootDir cs) \<and> distinct (map fst (cs_chunks cs)) \<and> lifo_inv (leases cs) \<and> fifo_inv (garbage cs) \<and>
     db_inv (downloadBuffer cs) \<and> (\<forall>h c. info cs h = Some c \<longrightarrow> chunk_ok cs h c) \<and>
     (\<forall>h. bytes cs h \<noteq> None \<longrightarrow> info cs h \<noteq> None)"

lemma cs_invD:
  assumes "cs_inv cs"
  shows "flat_inv (rootDir cs)" "db_inv (downloadBuffer cs)" "info cs h = Some c \<Longrightarrow> chunk_ok cs h c" "bytes cs h = Some bs \<Longrightarrow> info cs h \<noteq> None"
  using assms by (auto simp: cs_inv_def)

text \<open>Opening a chunk file finds it exactly when its bytes are stored.\<close>

lemma GetFile_chunk:
  assumes "flat_inv fs"
  shows "GetFile (chunk_file h) False fs =
    (case stored fs (chunk_file h) of None \<Rightarrow> (Fail (Os ENOENT), fs) | Some _ \<Rightarrow> (Return (abs_path (full fs (chunk_file h))), fs))"
  using assms open_read [OF assms chunk_file_valid] fstore.open_missing [OF assms chunk_file_valid] by (auto split: option.splits)

lemma file_bytes_chunk:
  "flat_inv fs \<Longrightarrow> stored fs (chunk_file h) = Some bs \<Longrightarrow> file_bytes (abs_path (full fs (chunk_file h))) fs = bs"
  by (simp add: file_bytes_flat)

lemma set_file_chunk:
  "flat_inv fs \<Longrightarrow> flat_inv (set_file (abs_path (full fs (chunk_file h))) bs fs)"
  "flat_inv fs \<Longrightarrow> stored (set_file (abs_path (full fs (chunk_file h))) bs fs) = (stored fs)(chunk_file h \<mapsto> bs)"
  by (simp_all add: set_file_flat)

text \<open>The new bytes of a chunk under a mutation that fits.\<close>

definition mutated :: "int \<Rightarrow> offset \<Rightarrow> byte list \<Rightarrow> byte list \<Rightarrow> byte list" where
  "mutated t off ws bs = (if t = MutationAppend then bs @ ws else write_at (nat off) ws bs)"

definition written_info :: "time \<Rightarrow> offset \<Rightarrow> cs_chunk \<Rightarrow> cs_chunk" where
  "written_info now newLen c = c\<lparr>ci_length := max (ci_length c) newLen, ci_lastModified := Some now,
     ci_completed := (ci_completed c \<or> newLen \<ge> ChunkMaxSizeInByte), ci_checksumDirty := True\<rparr>"

lemma writeChunk_fits:
  assumes "flat_inv (rootDir cs)" and "info cs h = Some c" and "bytes cs h = Some bs" and "valid_mutation t"
    and "t = MutationAppend \<or> 0 \<le> off" and "off + int (length ws) \<le> ChunkMaxSizeInByte"
  obtains cs' where "writeChunk now h ws t off cs = (Return (off + int (length ws)), cs')"
    and "flat_inv (rootDir cs')" and "stored (rootDir cs') = (stored (rootDir cs))(chunk_file h \<mapsto> mutated t off ws bs)"
    and "info cs' = (info cs)(h \<mapsto> written_info now (off + int (length ws)) c)"
    and "map fst (cs_chunks cs') = map fst (cs_chunks cs)" and "leases cs' = leases cs" and "garbage cs' = garbage cs"
    and "downloadBuffer cs' = downloadBuffer cs"
proof -
  let ?n = "off + int (length ws)" and ?f = "abs_path (full (rootDir cs) (chunk_file h))"
  let ?up = "\<lambda>c. if ?n > ci_length c then c\<lparr>ci_length := ?n\<rparr> else c"
  let ?done = "\<lambda>c. c\<lparr>ci_lastModified := Some now, ci_completed := (ci_completed c \<or> ?n \<ge> ChunkMaxSizeInByte), ci_checksumDirty := True\<rparr>"
  let ?fs = "set_file ?f (mutated t off ws bs) (rootDir cs)"
  let ?cs = "set_info h ?done ((set_info h ?up cs)\<lparr>rootDir := ?fs\<rparr>)"
  have fb: "file_bytes ?f (rootDir cs) = bs" using assms by (simp add: file_bytes_chunk)
  have "MutationAppend \<noteq> MutationPad" "MutationAppend \<noteq> MutationWrite"
    by (simp_all add: MutationAppend_def MutationPad_def MutationWrite_def)
  then have run: "writeChunk now h ws t off cs = (Return ?n, ?cs)"
    using assms fb
    by (auto simp: writeChunk_def on_root_def GetFile_chunk Let_def append_end_def WriteAt_def mutated_def)
  have c': "?done (?up c) = written_info now ?n c"
    by (cases "?n > ci_length c") (simp_all add: written_info_def max_def)
  have inf: "info ?cs = (info cs)(h \<mapsto> written_info now ?n c)"
    using assms(2) c' by (auto simp: fun_eq_iff)
  have "flat_inv (rootDir ?cs)" "stored (rootDir ?cs) = (stored (rootDir cs))(chunk_file h \<mapsto> mutated t off ws bs)"
    using assms(1) by (simp_all add: set_file_chunk)
  with run inf show thesis by (intro that [of ?cs]) simp_all
qed

section \<open>Mutations on one replica\<close>

text \<open>A server that can take a mutation of a chunk whose bytes are \<open>bs\<close>, with the data staged.\<close>

definition ready :: "chunk_handle \<Rightarrow> byte list \<Rightarrow> buffer_id \<Rightarrow> byte list \<Rightarrow> chunk_server \<Rightarrow> bool" where
  "ready h bs b ws cs \<longleftrightarrow> flat_inv (rootDir cs) \<and> bytes cs h = Some bs \<and> bid_handle b = h \<and> staged (downloadBuffer cs) b = Some ws \<and>
     (\<exists>c. info cs h = Some c \<and> \<not> ci_abandoned c \<and> \<not> ci_isCompressed c)"

lemma getBuffer_staged:
  assumes "staged (downloadBuffer cs) b = Some ws"
  obtains db where "getBuffer now b cs = (Some ws, cs\<lparr>downloadBuffer := db\<rparr>)" and "staged db = staged (downloadBuffer cs)"
    and "db_inv (downloadBuffer cs) \<Longrightarrow> db_inv db"
proof -
  let ?db = "snd (Download_Buffer.Get now b (downloadBuffer cs))"
  have "getBuffer now b cs = (Some ws, cs\<lparr>downloadBuffer := ?db\<rparr>)"
    using assms fst_Get [of now b "downloadBuffer cs"] by (cases "Download_Buffer.Get now b (downloadBuffer cs)") (simp add: getBuffer_def)
  then show thesis by (rule that) (simp_all add: staged_Get Get_inv)
qed

lemma too_large_iff: "0 \<le> off \<Longrightarrow> off < 2 ^ 63 \<Longrightarrow> int (length ws) < 2 ^ 63 \<Longrightarrow> too_large off ws \<longleftrightarrow> off + int (length ws) > ChunkMaxSizeInByte"
  unfolding too_large_def BToMb_le_iff by (simp add: add_uint64_def)

lemma fits_not_too_large: "0 \<le> off \<Longrightarrow> off + int (length ws) \<le> ChunkMaxSizeInByte \<Longrightarrow> \<not> too_large off ws"
  unfolding too_large_def BToMb_le_iff by (simp add: add_uint64_def ChunkMaxSizeInByte_def)

lemma mutation_types [simp]:
  "valid_mutation MutationWrite" "valid_mutation MutationAppend" "valid_mutation MutationPad"
  "MutationWrite \<noteq> MutationPad" "MutationAppend \<noteq> MutationPad" "MutationWrite \<noteq> MutationAppend"
  "MutationPad \<noteq> MutationWrite" "MutationPad \<noteq> MutationAppend" "MutationAppend \<noteq> MutationWrite"
  by (simp_all add: valid_mutation_def MutationAppend_def MutationPad_def MutationWrite_def)

lemma ApplyMutation_ready:
  assumes "ready h bs b ws cs" and "0 \<le> off" and "off + int (length ws) \<le> ChunkMaxSizeInByte"
    and "t = MutationWrite \<or> t = MutationAppend"
  obtains cs' where "RPCApplyMutationHandler gz earlier now \<lparr>am_MutationType = t, am_BufferId = b, am_Offset = off\<rparr> cs =
      (Return (off + int (length ws)), cs')" and "ready h (mutated t off ws bs) b ws cs'"
    and "\<And>h'. h' \<noteq> h \<Longrightarrow> bytes cs' h' = bytes cs h'"
    and "\<And>h'. map_option ci_abandoned (info cs' h') = map_option ci_abandoned (info cs h')"
proof -
  obtain c where c: "info cs h = Some c" "\<not> ci_abandoned c" "\<not> ci_isCompressed c" using assms(1) by (auto simp: ready_def)
  have st: "staged (downloadBuffer cs) b = Some ws" using assms(1) by (simp add: ready_def)
  obtain db where db: "getBuffer now b cs = (Some ws, cs\<lparr>downloadBuffer := db\<rparr>)" "staged db = staged (downloadBuffer cs)"
    by (rule getBuffer_staged [OF st])
  let ?cs = "cs\<lparr>downloadBuffer := db\<rparr>"
  have p: "flat_inv (rootDir ?cs)" "info ?cs h = Some c" "bytes ?cs h = Some bs" "bid_handle b = h"
    using assms(1) c by (simp_all add: ready_def)
  obtain cs' where w: "writeChunk now h ws t off ?cs = (Return (off + int (length ws)), cs')" "flat_inv (rootDir cs')"
    "stored (rootDir cs') = (stored (rootDir ?cs))(chunk_file h \<mapsto> mutated t off ws bs)"
    "info cs' = (info ?cs)(h \<mapsto> written_info now (off + int (length ws)) c)" "downloadBuffer cs' = downloadBuffer ?cs"
    by (rule writeChunk_fits [OF p(1-3), of t off ws now]) (use assms in auto)
  have "RPCApplyMutationHandler gz earlier now \<lparr>am_MutationType = t, am_BufferId = b, am_Offset = off\<rparr> cs = (Return (off + int (length ws)), cs')"
    using assms(2-4) db p c w(1) fits_not_too_large [OF assms(2,3)]
    by (auto simp: RPCApplyMutationHandler_def unarchive_if_def doMutate_def Let_def)
  moreover have "ready h (mutated t off ws bs) b ws cs'"
    using w p c db st by (auto simp: ready_def written_info_def)
  moreover have "bytes cs' h' = bytes cs h'" if "h' \<noteq> h" for h' using w(3) that by simp
  moreover have "map_option ci_abandoned (info cs' h') = map_option ci_abandoned (info cs h')" for h'
    using w(4) c(1) by (simp add: written_info_def)
  ultimately show thesis by (rule that)
qed

section \<open>Agreement of replicas\<close>

text \<open>Every replica in the set has the chunk with one of the given contents, and the data staged.\<close>

definition replicas_hold :: "chunk_handle \<Rightarrow> byte list set \<Rightarrow> buffer_id \<Rightarrow> byte list \<Rightarrow> server_addr set \<Rightarrow> cluster \<Rightarrow> bool" where
  "replicas_hold h vs b ws A cl \<longleftrightarrow> (\<forall>r\<in>A. \<exists>cs v. cl r = Some cs \<and> v \<in> vs \<and> ready h v b ws cs)"

abbreviation apply_write :: "cs_env \<Rightarrow> buffer_id \<Rightarrow> offset \<Rightarrow> server_addr \<Rightarrow> cluster \<Rightarrow> int outcome \<times> cluster" where
  "apply_write env b off r \<equiv> at_server r (RPCApplyMutationHandler (ev_gz env) (ev_earlier env) (ev_now env)
     \<lparr>am_MutationType = MutationWrite, am_BufferId = b, am_Offset = off\<rparr>)"

lemma apply_write_at:
  assumes "replicas_hold h {bs, write_at (nat off) ws bs} b ws {r} cl" and "0 \<le> off" and "off + int (length ws) \<le> ChunkMaxSizeInByte"
  obtains cs' where "apply_write env b off r cl = (Return (off + int (length ws)), cl(r \<mapsto> cs'))"
    and "ready h (write_at (nat off) ws bs) b ws cs'"
proof -
  from assms(1) obtain cs v where cs: "cl r = Some cs" "v \<in> {bs, write_at (nat off) ws bs}" "ready h v b ws cs"
    by (auto simp: replicas_hold_def)
  obtain cs' where "RPCApplyMutationHandler (ev_gz env) (ev_earlier env) (ev_now env)
      \<lparr>am_MutationType = MutationWrite, am_BufferId = b, am_Offset = off\<rparr> cs = (Return (off + int (length ws)), cs')"
    "ready h (mutated MutationWrite off ws v) b ws cs'"
    by (rule ApplyMutation_ready [OF cs(3) assms(2,3)]) auto
  moreover have "mutated MutationWrite off ws v = write_at (nat off) ws bs" using cs(2) by (auto simp: mutated_def write_at_idem)
  ultimately show thesis using cs(1) by (intro that [of cs']) (simp_all add: at_server_def)
qed

lemma iterate_apply_write:
  assumes "replicas_hold h {bs, write_at (nat off) ws bs} b ws {r} cl" and "0 \<le> off" and "off + int (length ws) \<le> ChunkMaxSizeInByte"
  shows "\<exists>cs'. iterate (apply_write env b off r) (Suc k) cl = cl(r \<mapsto> cs') \<and> ready h (write_at (nat off) ws bs) b ws cs'"
proof (induction k)
  case 0
  obtain cs' where "apply_write env b off r cl = (Return (off + int (length ws)), cl(r \<mapsto> cs'))" "ready h (write_at (nat off) ws bs) b ws cs'"
    by (rule apply_write_at [OF assms])
  then show ?case by (auto simp: iterate_def)
next
  case (Suc k)
  then obtain cs1 where 1: "iterate (apply_write env b off r) (Suc k) cl = cl(r \<mapsto> cs1)" "ready h (write_at (nat off) ws bs) b ws cs1" by blast
  then have "replicas_hold h {bs, write_at (nat off) ws bs} b ws {r} (cl(r \<mapsto> cs1))" by (auto simp: replicas_hold_def)
  then obtain cs' where "apply_write env b off r (cl(r \<mapsto> cs1)) = (Return (off + int (length ws)), cl(r \<mapsto> cs1, r \<mapsto> cs'))"
    "ready h (write_at (nat off) ws bs) b ws cs'"
    using apply_write_at [OF _ assms(2,3)] by blast
  moreover have "iterate f (Suc (Suc k)) cl = snd (f (iterate f (Suc k) cl))" for f :: "cluster \<Rightarrow> int outcome \<times> cluster"
    by (simp add: iterate_def)
  ultimately show ?case using 1(1) by (auto simp del: fun_upd_apply)
qed

lemma call_apply_write:
  assumes "replicas_hold h {bs, write_at (nat off) ws bs} b ws {r} cl" and "0 \<le> off" and "off + int (length ws) \<le> ChunkMaxSizeInByte"
    and "call env r (apply_write env b off r) cl = (res, cl')"
  shows "cl' = cl \<and> (\<forall>x. res \<noteq> Return x) \<or> (\<exists>cs'. cl' = cl(r \<mapsto> cs') \<and> ready h (write_at (nat off) ws bs) b ws cs')"
proof -
  let ?f = "apply_write env b off r"
  obtain k where k: "cl' = iterate ?f k cl" "\<And>x. res = Return x \<Longrightarrow> k > 0"
    using unicast_loop_iterates [of "take 3 (ev_net env r)" r ?f "RpcErr DialFailed r" cl] assms(4)
    by (auto simp: call_def UnicastToRPCServer_def DefaultRetryConfig_def)
  show ?thesis
  proof (cases k)
    case 0
    then show ?thesis using k by auto
  next
    case (Suc j)
    then show ?thesis using k(1) iterate_apply_write [OF assms(1-3), of env j] by blast
  qed
qed

lemma replicas_hold_upd:
  "replicas_hold h vs b ws A cl \<Longrightarrow> ready h v b ws cs' \<Longrightarrow> v \<in> vs \<Longrightarrow> replicas_hold h vs b ws A (cl(r \<mapsto> cs'))"
  by (auto simp: replicas_hold_def)

lemma forward_mutation_Nil_Cons:
  "forward_mutation env late args (r # rs) cl = ([], cl') \<Longrightarrow>
    \<exists>x cl1. (if late then (Fail (RpcErr ReplyTimedOut r), cl)
        else call env r (at_server r (RPCApplyMutationHandler (ev_gz env) (ev_earlier env) (ev_now env) args)) cl) = (x, cl1) \<and>
      (\<forall>e. x \<noteq> Fail e) \<and> forward_mutation env late args rs cl1 = ([], cl')"
  by (auto split: prod.splits outcome.splits)

text \<open>A remote call returns a value or an error, never a panic of the other side.\<close>

lemma unicast_loop_outcome: "(\<exists>x. fst (unicast_loop fates addr f e w) = Return x) \<or> (\<exists>e'. fst (unicast_loop fates addr f e w) = Fail e')"
  by (induction fates addr f e w rule: unicast_loop.induct) (auto split: prod.splits outcome.splits)

lemma call_outcome: "call env r f cl = (res, cl') \<Longrightarrow> (\<exists>x. res = Return x) \<or> (\<exists>e. res = Fail e)"
  using unicast_loop_outcome unfolding call_def UnicastToRPCServer_def by (metis fst_conv)

lemma forward_write:
  assumes "0 \<le> off" and "off + int (length ws) \<le> ChunkMaxSizeInByte"
    and "forward_mutation env late \<lparr>am_MutationType = MutationWrite, am_BufferId = b, am_Offset = off\<rparr> rs cl = ([], cl')"
    and "replicas_hold h {bs, write_at (nat off) ws bs} b ws (insert s (set rs)) cl"
    and "replicas_hold h {write_at (nat off) ws bs} b ws D cl"
  shows "replicas_hold h {write_at (nat off) ws bs} b ws (D \<union> set rs) cl' \<and> (\<forall>r. r \<notin> set rs \<longrightarrow> cl' r = cl r)"
  using assms(3-5)
proof (induction rs arbitrary: cl D)
  case (Cons r rs)
  let ?v = "write_at (nat off) ws bs"
  obtain x cl1 where c: "call env r (apply_write env b off r) cl = (x, cl1)" and "\<forall>e. x \<noteq> Fail e"
    and f: "forward_mutation env late \<lparr>am_MutationType = MutationWrite, am_BufferId = b, am_Offset = off\<rparr> rs cl1 = ([], cl')"
    using forward_mutation_Nil_Cons [OF Cons.prems(1)] by (auto split: if_splits)
  then obtain y where "x = Return y" using call_outcome [OF c] by blast
  moreover have "replicas_hold h {bs, ?v} b ws {r} cl" using Cons.prems(2) by (auto simp: replicas_hold_def)
  ultimately obtain cs' where cs': "cl1 = cl(r \<mapsto> cs')" "ready h ?v b ws cs'"
    using call_apply_write [OF _ assms(1,2) c] by blast
  have "replicas_hold h {bs, ?v} b ws (insert s (set (r # rs))) cl1"
    unfolding cs'(1) by (rule replicas_hold_upd [OF Cons.prems(2) cs'(2)]) simp
  then have a: "replicas_hold h {bs, ?v} b ws (insert s (set rs)) cl1" by (auto simp: replicas_hold_def)
  have "replicas_hold h {?v} b ws D cl1" unfolding cs'(1) by (rule replicas_hold_upd [OF Cons.prems(3) cs'(2)]) simp
  moreover have "replicas_hold h {?v} b ws {r} cl1" using cs' by (simp add: replicas_hold_def)
  ultimately have "replicas_hold h {?v} b ws (insert r D) cl1" by (auto simp: replicas_hold_def)
  from Cons.IH [OF f a this] show ?case using cs'(1) by (auto simp: replicas_hold_def)
qed simp

lemma write_local_eq:
  assumes "info cs h = Some c" and "\<not> ci_abandoned c" and "\<not> ci_isCompressed c"
  shows "write_local env h off ws cs =
    (if ci_completed c then (Fail (ChunkErr ChunkCompleted h), cs)
     else if too_large off ws then (Fail (ChunkErr ExceedsMaxSize h), cs)
     else bind_st (writeChunk (ev_now env) h ws MutationWrite off cs) (\<lambda>n cs.
       (Return n, set_info h (log_mutation \<lparr>mu_Data = ws, mu_Offset = off, mu_Type = MutationWrite\<rparr>) cs)))"
  using assms by (simp add: write_local_def unarchive_if_def doMutate_def Let_def)

lemma log_mutation_simps [simp]:
  "ci_abandoned (log_mutation m c) = ci_abandoned c" "ci_isCompressed (log_mutation m c) = ci_isCompressed c"
  "ci_length (log_mutation m c) = ci_length c" "ci_completed (log_mutation m c) = ci_completed c"
  by (simp_all add: log_mutation_def)

lemma written_info_simps [simp]:
  "ci_abandoned (written_info now n c) = ci_abandoned c" "ci_isCompressed (written_info now n c) = ci_isCompressed c"
  "ci_length (written_info now n c) = max (ci_length c) n" "ci_version (written_info now n c) = ci_version c"
  "ci_mutations (written_info now n c) = ci_mutations c"
  by (simp_all add: written_info_def)

lemma writeChunk_too_long:
  "info cs h = Some c \<Longrightarrow> off + int (length ws) > ChunkMaxSizeInByte \<Longrightarrow>
    writeChunk now h ws MutationWrite off cs = (Fail (ChunkErr ExceedsMaxSize h), cs)"
  by (simp add: writeChunk_def)

lemma write_local_ready:
  assumes "ready h bs b ws cs" and "0 \<le> off" and "write_local env h off ws cs = (Return n, cs')"
  shows "n = off + int (length ws) \<and> n \<le> ChunkMaxSizeInByte \<and> ready h (write_at (nat off) ws bs) b ws cs'"
proof -
  obtain c where c: "info cs h = Some c" "\<not> ci_abandoned c" "\<not> ci_isCompressed c" using assms(1) by (auto simp: ready_def)
  have p: "flat_inv (rootDir cs)" "bytes cs h = Some bs" using assms(1) by (auto simp: ready_def)
  have fit: "off + int (length ws) \<le> ChunkMaxSizeInByte"
  proof (rule ccontr)
    assume "\<not> ?thesis"
    then have "writeChunk (ev_now env) h ws MutationWrite off cs = (Fail (ChunkErr ExceedsMaxSize h), cs)"
      by (intro writeChunk_too_long [OF c(1)]) simp
    with assms(3) show False by (simp add: write_local_eq [OF c] split: if_splits)
  qed
  obtain cs1 where w: "writeChunk (ev_now env) h ws MutationWrite off cs = (Return (off + int (length ws)), cs1)" "flat_inv (rootDir cs1)"
    "stored (rootDir cs1) = (stored (rootDir cs))(chunk_file h \<mapsto> mutated MutationWrite off ws bs)"
    "info cs1 = (info cs)(h \<mapsto> written_info (ev_now env) (off + int (length ws)) c)" "downloadBuffer cs1 = downloadBuffer cs"
    by (rule writeChunk_fits [OF p(1) c(1) p(2), of MutationWrite off ws]) (use assms(2) fit in auto)
  have "n = off + int (length ws)"
    "cs' = set_info h (log_mutation \<lparr>mu_Data = ws, mu_Offset = off, mu_Type = MutationWrite\<rparr>) cs1"
    using assms(3) w(1) by (simp_all add: write_local_eq [OF c] split: if_splits)
  then show ?thesis
    using assms(1) fit w c by (simp add: ready_def mutated_def)
qed

text \<open>The raising of the recorded length after the replicas have answered.\<close>

lemma ready_set_info:
  "ready h bs b ws cs \<Longrightarrow> (\<And>c. ci_abandoned (f c) = ci_abandoned c \<and> ci_isCompressed (f c) = ci_isCompressed c) \<Longrightarrow>
    ready h bs b ws (set_info h f cs)"
  by (auto simp: ready_def)

lemma performWrite_replicates:
  assumes "replicas_hold h {bs} b ws (insert self (set (wc_Replicas args))) cl"
    and "wc_BufferId args = b" and "0 \<le> wc_Offset args"
    and "performWrite env self deadline args ws cl = (Return n, cl')"
  shows "n = wc_Offset args + int (length ws) \<and> n \<le> ChunkMaxSizeInByte \<and>
    replicas_hold h {write_at (nat (wc_Offset args)) ws bs} b ws (insert self (set (wc_Replicas args))) cl' \<and>
    (\<forall>r. r \<notin> insert self (set (wc_Replicas args)) \<longrightarrow> cl' r = cl r)"
proof -
  let ?off = "wc_Offset args" and ?R = "insert self (set (wc_Replicas args))"
  let ?v = "write_at (nat ?off) ws bs"
  let ?args = "\<lparr>am_MutationType = MutationWrite, am_BufferId = b, am_Offset = ?off\<rparr>"
  obtain cs0 where cs0: "cl self = Some cs0" "ready h bs b ws cs0" using assms(1) by (auto simp: replicas_hold_def)
  then have h: "bid_handle b = h" by (simp add: ready_def)
  obtain r1 cs1 where l: "write_local env h ?off ws cs0 = (r1, cs1)" by fastforce
  from assms(4) obtain n1 where r1: "r1 = Return n1"
    by (cases r1) (auto simp: performWrite_def at_server_def cs0(1) assms(2) h l Let_def)
  note loc = write_local_ready [OF cs0(2) assms(3) l [unfolded r1]]
  define cl1 where "cl1 = cl(self \<mapsto> cs1)"
  obtain errs cl2 where fw: "forward_mutation env (deadline \<le> ev_written env) ?args (wc_Replicas args) cl1 = (errs, cl2)" by fastforce
  have pw: "performWrite env self deadline args ws cl =
    (if errs \<noteq> [] then (Fail (Wrapped ''replication errors'' (Errors (map (\<lambda>(r, e). Wrapped r e) errs))), cl2)
     else at_server self (\<lambda>cs. (case info cs h of
         None \<Rightarrow> (Fail (ChunkErr ChunkNotFound h), cs)
       | Some _ \<Rightarrow> (Return n1, set_info h (\<lambda>c.
           if ?off + int (length ws) > ci_length c then c\<lparr>ci_length := ?off + int (length ws)\<rparr> else c) cs))) cl2)"
    using fw assms(2) by (simp add: performWrite_def at_server_def cs0(1) h l r1 cl1_def Let_def)
  then have errs: "errs = []" using assms(4) by (auto split: if_splits)
  have "replicas_hold h {bs, ?v} b ws ?R cl1" "replicas_hold h {?v} b ws {self} cl1"
    using assms(1) loc by (auto simp: replicas_hold_def cl1_def)
  then have hold: "replicas_hold h {?v} b ws ({self} \<union> set (wc_Replicas args)) cl2 \<and> (\<forall>r. r \<notin> set (wc_Replicas args) \<longrightarrow> cl2 r = cl1 r)"
    using forward_write [OF assms(3) _ fw [unfolded errs]] loc by blast
  then obtain cs2 where cs2: "cl2 self = Some cs2" "ready h ?v b ws cs2" by (auto simp: replicas_hold_def)
  then obtain c where "info cs2 h = Some c" by (auto simp: ready_def)
  with pw errs cs2 assms(4) have "n = n1" and cl': "cl' = cl2(self \<mapsto> set_info h (\<lambda>c.
      if ?off + int (length ws) > ci_length c then c\<lparr>ci_length := ?off + int (length ws)\<rparr> else c) cs2)"
    by (simp_all add: at_server_def)
  moreover have "replicas_hold h {?v} b ws ?R cl'"
    unfolding cl' using hold ready_set_info [OF cs2(2)] by (intro replicas_hold_upd) auto
  moreover have "cl' r = cl r" if "r \<notin> ?R" for r
    using that hold cl' by (auto simp: cl1_def)
  ultimately show ?thesis using loc by blast
qed

text \<open>
  C6. A write that the primary acknowledges has reached every replica: when primary and replicas
  hold the same bytes and have the data staged, then after a successful write all of them hold the
  same new bytes, the data at its offset and the old bytes elsewhere, and no other server has
  changed. This holds for every behaviour of the network, with calls that are repeated because a
  reply was lost, and whether or not the primary is listed among the replicas.
\<close>

theorem write_replicates:
  assumes "replicas_hold h {bs} b ws (insert self (set (wc_Replicas args))) cl"
    and "wc_BufferId args = b" and "0 \<le> wc_Offset args"
    and "performWrite env self deadline args ws cl = (Return n, cl')"
  shows "n = wc_Offset args + int (length ws) \<and> n \<le> ChunkMaxSizeInByte \<and>
    (\<forall>r \<in> insert self (set (wc_Replicas args)). \<exists>cs'. cl' r = Some cs' \<and>
       bytes cs' h = Some (write_at (nat (wc_Offset args)) ws bs)) \<and>
    (\<forall>r. r \<notin> insert self (set (wc_Replicas args)) \<longrightarrow> cl' r = cl r)"
  using performWrite_replicates [OF assms] unfolding replicas_hold_def ready_def by fastforce

text \<open>The converse: with a network that delivers, a write that fits an open chunk is acknowledged.\<close>

lemma call_delivered: "ev_net env r = Delivered # fates \<Longrightarrow> f cl = (Return x, cl') \<Longrightarrow> call env r f cl = (Return x, cl')"
  by (simp add: call_def UnicastToRPCServer_def DefaultRetryConfig_def numeral_3_eq_3)

lemma forward_write_delivers:
  assumes "0 \<le> off" and "off + int (length ws) \<le> ChunkMaxSizeInByte" and "\<And>r. \<exists>fates. ev_net env r = Delivered # fates"
    and "replicas_hold h {bs, write_at (nat off) ws bs} b ws (set rs) cl"
  shows "\<exists>cl'. forward_mutation env False \<lparr>am_MutationType = MutationWrite, am_BufferId = b, am_Offset = off\<rparr> rs cl = ([], cl')"
  using assms(4)
proof (induction rs arbitrary: cl)
  case (Cons r rs)
  then have "replicas_hold h {bs, write_at (nat off) ws bs} b ws {r} cl" by (auto simp: replicas_hold_def)
  then obtain cs' where a: "apply_write env b off r cl = (Return (off + int (length ws)), cl(r \<mapsto> cs'))"
    "ready h (write_at (nat off) ws bs) b ws cs'"
    by (rule apply_write_at [OF _ assms(1,2)])
  obtain fates where "ev_net env r = Delivered # fates" using assms(3) by blast
  then have c: "call env r (apply_write env b off r) cl = (Return (off + int (length ws)), cl(r \<mapsto> cs'))"
    by (rule call_delivered) (rule a(1))
  have "replicas_hold h {bs, write_at (nat off) ws bs} b ws (set rs) (cl(r \<mapsto> cs'))"
    using Cons.prems a(2) by (auto simp: replicas_hold_def)
  from Cons.IH [OF this] c show ?case by (simp del: fun_upd_apply)
qed simp

lemma performWrite_delivers:
  assumes "replicas_hold h {bs} b ws (insert self (set (wc_Replicas args))) cl" and "wc_BufferId args = b"
    and "0 \<le> wc_Offset args" and "wc_Offset args + int (length ws) \<le> ChunkMaxSizeInByte"
    and "\<And>r. \<exists>fates. ev_net env r = Delivered # fates" and "ev_written env < deadline"
    and "cl self = Some cs" and "info cs h = Some c" and "\<not> ci_completed c"
  shows "\<exists>cl'. performWrite env self deadline args ws cl = (Return (wc_Offset args + int (length ws)), cl')"
proof -
  let ?off = "wc_Offset args" and ?v = "write_at (nat (wc_Offset args)) ws bs"
  have r: "ready h bs b ws cs" using assms(1,7) by (auto simp: replicas_hold_def)
  then have c: "\<not> ci_abandoned c" "\<not> ci_isCompressed c" "bid_handle b = h" "flat_inv (rootDir cs)" "bytes cs h = Some bs"
    using assms(8) by (auto simp: ready_def)
  obtain cs1 where "writeChunk (ev_now env) h ws MutationWrite ?off cs = (Return (?off + int (length ws)), cs1)"
    by (rule writeChunk_fits [OF c(4) assms(8) c(5), of MutationWrite ?off ws]) (use assms(3,4) in auto)
  then obtain cs2 where l: "write_local env h ?off ws cs = (Return (?off + int (length ws)), cs2)"
    using fits_not_too_large [OF assms(3,4)] assms(9) by (simp add: write_local_eq [OF assms(8) c(1,2)])
  note loc = write_local_ready [OF r assms(3) l]
  then have "replicas_hold h {bs, ?v} b ws (set (wc_Replicas args)) (cl(self \<mapsto> cs2))"
    using assms(1) by (auto simp: replicas_hold_def)
  then obtain cl2 where f: "forward_mutation env False \<lparr>am_MutationType = MutationWrite, am_BufferId = b, am_Offset = ?off\<rparr>
      (wc_Replicas args) (cl(self \<mapsto> cs2)) = ([], cl2)"
    using forward_write_delivers [OF assms(3,4,5)] by blast
  have "replicas_hold h {bs, ?v} b ws (insert self (set (wc_Replicas args))) (cl(self \<mapsto> cs2))"
    "replicas_hold h {?v} b ws {self} (cl(self \<mapsto> cs2))"
    using assms(1) loc by (auto simp: replicas_hold_def)
  then have "replicas_hold h {?v} b ws ({self} \<union> set (wc_Replicas args)) cl2" using forward_write [OF assms(3,4) f] by blast
  then obtain cs3 c3 where "cl2 self = Some cs3" "info cs3 h = Some c3" by (auto simp: replicas_hold_def ready_def)
  then show ?thesis
    using f l assms(2,6,7) c(3) by (simp add: performWrite_def at_server_def Let_def)
qed

section \<open>A small cluster for examples\<close>

definition empty_server :: "file_system \<Rightarrow> chunk_server" where
  "empty_server fs = \<lparr>rootDir = fs, cs_chunks = [], downloadBuffer = \<lparr>items = [], expire_after = 10 * Second, tick_every = 10 * Second\<rparr>,
     leases = empty_deque, garbage = empty_deque, decompressPending = [], metaFile = EmptyMeta, cs_isDead = False\<rparr>"

lemma empty_server_inv: "flat_inv fs \<Longrightarrow> (\<And>h. stored fs (chunk_file h) = None) \<Longrightarrow> cs_inv (empty_server fs)"
  by (simp add: cs_inv_def empty_server_def db_inv_def Second_def)

definition demo_fs :: "byte list \<Rightarrow> file_system" where
  "demo_fs bs = set_file (abs_path (full data_fs (chunk_file 7))) bs data_fs"

definition demo_id :: buffer_id where
  "demo_id = \<lparr>bid_handle = 7, bid_timestamp = 1\<rparr>"

text \<open>A server that holds chunk 7 with the given bytes and has the given data staged for it.\<close>

definition demo_server :: "byte list \<Rightarrow> byte list \<Rightarrow> chunk_server" where
  "demo_server bs ws = (empty_server (demo_fs bs))\<lparr>
     cs_chunks := [(7, (new_chunk_info 0)\<lparr>ci_length := int (length bs)\<rparr>)],
     downloadBuffer := \<lparr>items = [(demo_id, \<lparr>item_expire = 100, item_data = ws\<rparr>)], expire_after = 10 * Second, tick_every = 10 * Second\<rparr>\<rparr>"

lemma demo_fs: "flat_inv (demo_fs bs)" "stored (demo_fs bs) = (stored data_fs)(chunk_file 7 \<mapsto> bs)"
  by (simp_all add: demo_fs_def set_file_chunk data_fs_flat)

lemma demo_ready: "ready 7 bs demo_id ws (demo_server bs ws)"
  by (simp add: ready_def demo_server_def empty_server_def demo_fs demo_id_def staged_def new_chunk_info_def)

definition demo_env :: cs_env where
  "demo_env = \<lparr>ev_now = 0, ev_written = 0, ev_end = 0, ev_gz = toy_gzip, ev_sha = (\<lambda>bs. map char_of bs), ev_earlier = [],
     ev_net = (\<lambda>_. [Delivered])\<rparr>"

definition demo_cluster :: "byte list \<Rightarrow> byte list \<Rightarrow> cluster" where
  "demo_cluster bs ws = [''p'' \<mapsto> demo_server bs ws, ''s'' \<mapsto> demo_server bs ws]"

lemma demo_hold: "replicas_hold 7 {bs} demo_id ws {''p'', ''s''} (demo_cluster bs ws)"
  by (auto simp: replicas_hold_def demo_cluster_def demo_ready)

theorem write_replicates_witness:
  "\<exists>n cl'. performWrite demo_env ''p'' 5 \<lparr>wc_Replicas = [''s'', ''p''], wc_BufferId = demo_id, wc_Offset = 1\<rparr> [9, 9]
      (demo_cluster [1, 2] [9, 9]) = (Return n, cl') \<and>
     (\<exists>cs'. cl' ''s'' = Some cs' \<and> bytes cs' 7 = Some [1, 9, 9])"
proof -
  let ?args = "\<lparr>wc_Replicas = [''s'', ''p''], wc_BufferId = demo_id, wc_Offset = 1\<rparr>" and ?cl = "demo_cluster [1, 2] [9, 9]"
  have h: "replicas_hold 7 {[1, 2]} demo_id [9, 9] (insert ''p'' (set (wc_Replicas ?args))) ?cl"
    using demo_hold by (simp add: insert_commute)
  have "\<exists>cl'. performWrite demo_env ''p'' 5 ?args [9, 9] ?cl = (Return (wc_Offset ?args + int (length [9, 9 :: byte])), cl')"
    by (rule performWrite_delivers [OF h, where cs = "demo_server [1, 2] [9, 9]" and c = "(new_chunk_info 0)\<lparr>ci_length := 2\<rparr>"])
      (simp_all add: ChunkMaxSizeInByte_def demo_env_def demo_cluster_def demo_server_def empty_server_def new_chunk_info_def)
  then obtain cl' where p: "performWrite demo_env ''p'' 5 ?args [9, 9] ?cl = (Return 3, cl')" by auto
  from write_replicates [OF h _ _ p] have "\<exists>cs'. cl' ''s'' = Some cs' \<and> bytes cs' 7 = Some (write_at (nat 1) [9, 9] [1, 2])"
    by auto
  with p show ?thesis by (auto simp: write_at_def)
qed

section \<open>Appending\<close>

lemma add_nowrap: "0 \<le> x \<Longrightarrow> x < 2 ^ 64 \<Longrightarrow> BToMb (x mod 2 ^ 64) > of_int ChunkMaxSizeInMb \<longleftrightarrow> x > ChunkMaxSizeInByte"
  unfolding BToMb_le_iff by simp

lemma append_local_eq:
  assumes "staged (downloadBuffer cs) b = Some ws" and "bid_handle b = h" and "info cs h = Some c"
    and "\<not> ci_abandoned c" and "\<not> ci_isCompressed c"
    and "0 \<le> ci_length c" and "ci_length c + int (length ws) < 2 ^ 64"
  obtains db where "staged db = staged (downloadBuffer cs)"
    and "append_local env b cs = (let off = ci_length c; full = (off + int (length ws) > ChunkMaxSizeInByte);
           cs1 = cs\<lparr>downloadBuffer := db\<rparr>; cs2 = (if full then set_info h (\<lambda>c. c\<lparr>ci_length := ChunkMaxSizeInByte\<rparr>) cs1 else cs1)
         in bind_st (doMutate (ev_now env) h \<lparr>mu_Data = ws, mu_Offset = off, mu_Type = (if full then MutationPad else MutationAppend)\<rparr> cs2)
              (\<lambda>n cs. (Return (off, if full then AppendExceedChunkSize else Success), cs)))"
proof -
  obtain db where db: "getBuffer (ev_now env) b cs = (Some ws, cs\<lparr>downloadBuffer := db\<rparr>)" "staged db = staged (downloadBuffer cs)"
    by (rule getBuffer_staged [OF assms(1)])
  show thesis
    using assms add_nowrap [of "ci_length c + int (length ws)"]
    by (intro that [OF db(2)]) (simp add: append_local_def db(1) unarchive_if_def Let_def)
qed

lemma append_local_fits:
  assumes r: "ready h bs b ws cs" and c: "info cs h = Some c" "0 \<le> ci_length c"
    and fit: "ci_length c + int (length ws) \<le> ChunkMaxSizeInByte"
  obtains cs' where "append_local env b cs = (Return (ci_length c, Success), cs')" and "ready h (bs @ ws) b ws cs'"
    and "info cs' = (info cs)(h \<mapsto> written_info (ev_now env) (ci_length c + int (length ws)) c)"
    and "\<And>h'. h' \<noteq> h \<Longrightarrow> bytes cs' h' = bytes cs h'"
proof -
  have p: "staged (downloadBuffer cs) b = Some ws" "bid_handle b = h" "\<not> ci_abandoned c" "\<not> ci_isCompressed c"
    "flat_inv (rootDir cs)" "bytes cs h = Some bs" using r c(1) by (auto simp: ready_def)
  have small: "ci_length c + int (length ws) < 2 ^ 64" using fit by (simp add: ChunkMaxSizeInByte_def)
  obtain db where db: "staged db = staged (downloadBuffer cs)" and eq: "append_local env b cs =
      bind_st (writeChunk (ev_now env) h ws MutationAppend (ci_length c) (cs\<lparr>downloadBuffer := db\<rparr>)) (\<lambda>n cs. (Return (ci_length c, Success), cs))"
    by (rule append_local_eq [OF p(1,2) c(1) p(3,4) c(2) small, of env]) (use fit in \<open>simp add: doMutate_def Let_def\<close>)
  let ?cs = "cs\<lparr>downloadBuffer := db\<rparr>"
  have q: "flat_inv (rootDir ?cs)" "info ?cs h = Some c" "bytes ?cs h = Some bs" using p c by simp_all
  obtain cs' where w: "writeChunk (ev_now env) h ws MutationAppend (ci_length c) ?cs = (Return (ci_length c + int (length ws)), cs')"
    "flat_inv (rootDir cs')" "stored (rootDir cs') = (stored (rootDir ?cs))(chunk_file h \<mapsto> mutated MutationAppend (ci_length c) ws bs)"
    "info cs' = (info ?cs)(h \<mapsto> written_info (ev_now env) (ci_length c + int (length ws)) c)" "downloadBuffer cs' = downloadBuffer ?cs"
    by (rule writeChunk_fits [OF q, of MutationAppend "ci_length c" ws]) (use fit in auto)
  then have "ready h (bs @ ws) b ws cs'" using p db by (simp add: ready_def mutated_def)
  with eq w show thesis by (intro that [of cs']) simp_all
qed

lemma apply_append_at:
  assumes "cl r = Some cs" and "ready h bs b ws cs" and "0 \<le> off" and "off + int (length ws) \<le> ChunkMaxSizeInByte"
  obtains cs' where "at_server r (RPCApplyMutationHandler gz earlier now \<lparr>am_MutationType = MutationAppend, am_BufferId = b, am_Offset = off\<rparr>) cl =
      (Return (off + int (length ws)), cl(r \<mapsto> cs'))" and "ready h (bs @ ws) b ws cs'"
    and "\<And>h'. h' \<noteq> h \<Longrightarrow> bytes cs' h' = bytes cs h'"
    and "\<And>h'. map_option ci_abandoned (info cs' h') = map_option ci_abandoned (info cs h')"
proof -
  obtain cs' where "RPCApplyMutationHandler gz earlier now \<lparr>am_MutationType = MutationAppend, am_BufferId = b, am_Offset = off\<rparr> cs =
      (Return (off + int (length ws)), cs')" "ready h (mutated MutationAppend off ws bs) b ws cs'"
      "\<And>h'. h' \<noteq> h \<Longrightarrow> bytes cs' h' = bytes cs h'" "\<And>h'. map_option ci_abandoned (info cs' h') = map_option ci_abandoned (info cs h')"
    by (rule ApplyMutation_ready [OF assms(2-4), of MutationAppend]) auto
  with assms(1) show thesis by (intro that [of cs']) (simp_all add: at_server_def mutated_def)
qed

text \<open>
  C13. Appending is not protected against repeated calls. When the reply of a replica to the
  mutation is lost and the call is repeated, the replica appends the data twice; the append is
  acknowledged, and primary and replica hold different bytes from then on. When the first call
  is delivered they agree.
\<close>

theorem append_retry_diverges:
  assumes "cl self = Some cs" and "cl r = Some cs2" and "self \<noteq> r" and "ready h bs b ws cs" and "ready h bs b ws cs2"
    and "info cs h = Some c" and "0 \<le> ci_length c" and "ci_length c + int (length ws) \<le> ChunkMaxSizeInByte"
    and "ev_net env r = lost @ [Delivered]" and "lost = [] \<or> lost = [ReplyLost]"
  shows "\<exists>cl' cs' cs2'. RPCAppendChunkHandler env self [r] b cl = (Return (ci_length c, Success), cl') \<and>
    cl' self = Some cs' \<and> bytes cs' h = Some (bs @ ws) \<and> cl' r = Some cs2' \<and>
    bytes cs2' h = Some (bs @ ws @ (if lost = [] then [] else ws))"
proof -
  let ?args = "\<lparr>am_MutationType = MutationAppend, am_BufferId = b, am_Offset = ci_length c\<rparr>"
  let ?f = "at_server r (RPCApplyMutationHandler (ev_gz env) (ev_earlier env) (ev_now env) ?args)"
  obtain cs' where l: "append_local env b cs = (Return (ci_length c, Success), cs')" "ready h (bs @ ws) b ws cs'"
    by (rule append_local_fits [OF assms(4,6-8)])
  let ?cl1 = "cl(self \<mapsto> cs')"
  have r1: "?cl1 r = Some cs2" using assms(2,3) by simp
  obtain cs3 where a1: "?f ?cl1 = (Return (ci_length c + int (length ws)), ?cl1(r \<mapsto> cs3))" "ready h (bs @ ws) b ws cs3"
    by (rule apply_append_at [where cl = ?cl1 and r = r, OF r1 assms(5,7,8)])
  let ?cl2 = "?cl1(r \<mapsto> cs3)"
  have r2: "?cl2 r = Some cs3" by simp
  obtain cs4 where a2: "?f ?cl2 = (Return (ci_length c + int (length ws)), ?cl2(r \<mapsto> cs4))" "ready h ((bs @ ws) @ ws) b ws cs4"
    by (rule apply_append_at [where cl = ?cl2 and r = r, OF r2 a1(2) assms(7,8)])
  have fwd: "RPCAppendChunkHandler env self [r] b cl = (case call env r ?f ?cl1 of
      (Return _, cl) \<Rightarrow> (Return (ci_length c, Success), cl)
    | (Fail e, cl) \<Rightarrow> (Fail (Errors [e]), cl) | (_, cl) \<Rightarrow> (Return (ci_length c, Success), cl))"
    using assms(1) l(1) by (simp add: RPCAppendChunkHandler_def at_server_def split: prod.splits outcome.splits)
  have "call env r ?f ?cl1 = (Return (ci_length c + int (length ws)), if lost = [] then ?cl2 else ?cl2(r \<mapsto> cs4))"
    using assms(9,10) a1(1) a2(1)
    by (auto simp: call_def UnicastToRPCServer_def DefaultRetryConfig_def numeral_3_eq_3 simp del: fun_upd_apply)
  with fwd have "RPCAppendChunkHandler env self [r] b cl = (Return (ci_length c, Success), if lost = [] then ?cl2 else ?cl2(r \<mapsto> cs4))"
    by simp
  moreover have "bytes cs' h = Some (bs @ ws)" "bytes cs3 h = Some (bs @ ws)" "bytes cs4 h = Some (bs @ ws @ ws)"
    using l(2) a1(2) a2(2) by (simp_all add: ready_def)
  ultimately show ?thesis using assms(3) by simp
qed

theorem append_retry_diverges_witness:
  "\<exists>cl' cs' cs2'. RPCAppendChunkHandler (demo_env\<lparr>ev_net := (\<lambda>_. [ReplyLost, Delivered])\<rparr>) ''p'' [''s''] demo_id (demo_cluster [1] [9]) =
      (Return (1, Success), cl') \<and> cl' ''p'' = Some cs' \<and> bytes cs' 7 = Some [1, 9] \<and>
     cl' ''s'' = Some cs2' \<and> bytes cs2' 7 = Some [1, 9, 9]"
proof -
  let ?env = "demo_env\<lparr>ev_net := (\<lambda>_. [ReplyLost, Delivered])\<rparr>" and ?c = "(new_chunk_info 0)\<lparr>ci_length := 1\<rparr>"
  have c: "info (demo_server [1] [9]) 7 = Some ?c" by (simp add: demo_server_def)
  have "\<exists>cl' cs' cs2'. RPCAppendChunkHandler ?env ''p'' [''s''] demo_id (demo_cluster [1] [9]) = (Return (ci_length ?c, Success), cl') \<and>
    cl' ''p'' = Some cs' \<and> bytes cs' 7 = Some ([1] @ [9]) \<and> cl' ''s'' = Some cs2' \<and>
    bytes cs2' 7 = Some ([1] @ [9] @ (if [ReplyLost] = [] then [] else [9]))"
    by (rule append_retry_diverges [OF _ _ _ demo_ready demo_ready c]) (simp_all add: demo_cluster_def ChunkMaxSizeInByte_def)
  then show ?thesis by simp
qed

end
