(* ===== verification/Chunk_Server_Limits.thy ===== *)
theory Chunk_Server_Limits
  imports Chunk_Server_Properties
begin

text \<open>
  Chunks at their size limit: appends that do not fit, padding, and what they do to copying. Also
  copying a chunk to a new replica, and the version check of the lease protocol.
\<close>

section \<open>Appends that do not fit\<close>

text \<open>Forwarding a mutation touches the listed replicas only.\<close>

lemma iterate_at_server_other: "r' \<noteq> r \<Longrightarrow> iterate (at_server r f) k cl r' = cl r'"
proof (induction k arbitrary: cl)
  case (Suc k)
  have "snd (at_server r f cl) r' = cl r'" using Suc.prems by (auto simp: at_server_def split: option.splits prod.splits)
  with Suc show ?case by (simp add: iterate_Suc)
qed simp

lemma call_at_server_other:
  assumes "r' \<noteq> r" and "call env r (at_server r f) cl = (res, cl')"
  shows "cl' r' = cl r'"
proof -
  obtain k where "cl' = iterate (at_server r f) k cl"
    using unicast_loop_iterates [of "take 3 (ev_net env r)" r "at_server r f" "RpcErr DialFailed r" cl] assms(2)
    by (auto simp: call_def UnicastToRPCServer_def DefaultRetryConfig_def)
  with assms(1) show ?thesis by (simp add: iterate_at_server_other)
qed

lemma forward_mutation_other: "r \<notin> set rs \<Longrightarrow> snd (forward_mutation env late args rs cl) r = cl r"
proof (induction rs arbitrary: cl)
  case (Cons r1 rs)
  obtain x cl1 where c: "(if late then (Fail (RpcErr ReplyTimedOut r1), cl)
      else call env r1 (at_server r1 (RPCApplyMutationHandler (ev_gz env) (ev_earlier env) (ev_now env) args)) cl) = (x, cl1)"
    by fastforce
  have "r \<noteq> r1" using Cons.prems by auto
  then have "cl1 r = cl r" using c call_at_server_other [of r r1 env _ cl x cl1] by (cases late) auto
  moreover have "snd (forward_mutation env late args (r1 # rs) cl) = snd (forward_mutation env late args rs cl1)"
    unfolding forward_mutation.simps c by (cases x) (simp_all split: prod.splits)
  ultimately show ?case using Cons by simp
qed simp

text \<open>A call whose handler fails in every state fails.\<close>

lemma unicast_loop_fails:
  assumes "\<And>w. P w \<Longrightarrow> \<exists>e w'. f w = (Fail e, w') \<and> P w'" and "P w"
  shows "\<exists>e'. fst (unicast_loop fates addr f e w) = Fail e'"
  using assms(2)
proof (induction fates arbitrary: e w)
  case (Cons fate fates)
  obtain e1 w1 where "f w = (Fail e1, w1)" "P w1" using assms(1) Cons.prems by blast
  with Cons show ?case by (cases fate) simp_all
qed simp

lemma getBuffer_eq:
  obtains db where "getBuffer now b cs = (staged (downloadBuffer cs) b, cs\<lparr>downloadBuffer := db\<rparr>)" and "staged db = staged (downloadBuffer cs)"
    and "db_inv (downloadBuffer cs) \<Longrightarrow> db_inv db"
proof -
  let ?db = "snd (Download_Buffer.Get now b (downloadBuffer cs))"
  have "getBuffer now b cs = (staged (downloadBuffer cs) b, cs\<lparr>downloadBuffer := ?db\<rparr>)"
    using fst_Get [of now b "downloadBuffer cs"] by (cases "Download_Buffer.Get now b (downloadBuffer cs)") (simp add: getBuffer_def)
  then show thesis by (rule that) (simp_all add: staged_Get Get_inv)
qed

lemma too_large_when: "0 \<le> off \<Longrightarrow> off \<le> ChunkMaxSizeInByte \<Longrightarrow> int (length ws) < 2 ^ 63 \<Longrightarrow>
    off + int (length ws) > ChunkMaxSizeInByte \<Longrightarrow> too_large off ws"
  by (subst too_large_iff) (simp_all add: ChunkMaxSizeInByte_def)

lemma ApplyMutation_too_large:
  assumes "staged (downloadBuffer cs) (am_BufferId args) \<in> {None, Some ws}" and "too_large (am_Offset args) ws"
  shows "\<exists>e db. RPCApplyMutationHandler gz earlier now args cs = (Fail e, cs\<lparr>downloadBuffer := db\<rparr>) \<and> staged db = staged (downloadBuffer cs)"
proof -
  obtain db where "getBuffer now (am_BufferId args) cs = (staged (downloadBuffer cs) (am_BufferId args), cs\<lparr>downloadBuffer := db\<rparr>)"
    "staged db = staged (downloadBuffer cs)"
    by (rule getBuffer_eq)
  with assms show ?thesis by (auto simp: RPCApplyMutationHandler_def Let_def)
qed

lemma call_too_large:
  assumes "\<And>cs. cl r = Some cs \<Longrightarrow> staged (downloadBuffer cs) (am_BufferId args) \<in> {None, Some ws}" and "too_large (am_Offset args) ws"
  shows "\<exists>e cl'. call env r (at_server r (RPCApplyMutationHandler gz earlier now args)) cl = (Fail e, cl')"
proof -
  let ?P = "\<lambda>cl. \<forall>cs. cl r = Some cs \<longrightarrow> staged (downloadBuffer cs) (am_BufferId args) \<in> {None, Some ws}"
  let ?f = "at_server r (RPCApplyMutationHandler gz earlier now args)"
  have "\<exists>e cl'. ?f cl = (Fail e, cl') \<and> ?P cl'" if "?P cl" for cl
  proof (cases "cl r")
    case (Some cs)
    with that obtain e db where "RPCApplyMutationHandler gz earlier now args cs = (Fail e, cs\<lparr>downloadBuffer := db\<rparr>)"
      "staged db = staged (downloadBuffer cs)"
      using ApplyMutation_too_large [OF _ assms(2)] by blast
    with Some that show ?thesis by (auto simp: at_server_def)
  qed (simp add: at_server_def)
  then have "\<exists>e'. fst (call env r ?f cl) = Fail e'"
    unfolding call_def UnicastToRPCServer_def using assms(1) by (intro unicast_loop_fails [of ?P]) auto
  then show ?thesis by (metis prod.collapse)
qed

text \<open>
  C14. An append that does not fit never tells the client to go on with the next chunk when there
  is a replica: the replica refuses the padding because it checks it against the size of the data,
  so the call fails. The primary has set the chunk's length to the maximum by then, and from then
  on every append of at least one byte to this chunk fails as well, with or without replicas.
\<close>

theorem append_overflow_fails:
  assumes "cl self = Some cs" and "ready h bs b ws cs" and "info cs h = Some c" and "self \<notin> set (r # rs)"
    and "0 \<le> ci_length c" and "ci_length c < ChunkMaxSizeInByte" and "ci_length c + int (length ws) > ChunkMaxSizeInByte"
    and "int (length ws) < 2 ^ 63"
    and "\<And>cs'. cl r = Some cs' \<Longrightarrow> staged (downloadBuffer cs') b \<in> {None, Some ws}"
  shows "\<exists>e cl' cs'. RPCAppendChunkHandler env self (r # rs) b cl = (Fail e, cl') \<and> cl' self = Some cs' \<and>
    (\<forall>env' b' ws'. staged (downloadBuffer cs') b' = Some ws' \<and> bid_handle b' = h \<and> ws' \<noteq> [] \<and> int (length ws') < 2 ^ 63 \<longrightarrow>
       (\<exists>cl''. RPCAppendChunkHandler env' self [] b' cl' = (Fail (ChunkErr ExceedsMaxSize h), cl'')))"
proof -
  let ?off = "ci_length c" and ?args = "\<lparr>am_MutationType = MutationPad, am_BufferId = b, am_Offset = ci_length c\<rparr>"
  have p: "staged (downloadBuffer cs) b = Some ws" "bid_handle b = h" "\<not> ci_abandoned c" "\<not> ci_isCompressed c"
    "flat_inv (rootDir cs)" "bytes cs h = Some bs" using assms(2,3) by (auto simp: ready_def)
  have small: "?off + int (length ws) < 2 ^ 64" using assms(6,8) by (simp add: ChunkMaxSizeInByte_def)
  let ?up = "\<lambda>c. c\<lparr>ci_length := ChunkMaxSizeInByte\<rparr>"
  obtain db where db: "staged db = staged (downloadBuffer cs)" and eq: "append_local env b cs =
      bind_st (writeChunk (ev_now env) h [0] MutationPad ?off (set_info h ?up (cs\<lparr>downloadBuffer := db\<rparr>)))
        (\<lambda>n cs. (Return (?off, AppendExceedChunkSize), cs))"
    by (rule append_local_eq [OF p(1,2) assms(3) p(3,4) assms(5) small, of env]) (use assms(7) in \<open>simp add: doMutate_def Let_def\<close>)
  let ?cs = "set_info h ?up (cs\<lparr>downloadBuffer := db\<rparr>)"
  have q: "flat_inv (rootDir ?cs)" "info ?cs h = Some (?up c)" "bytes ?cs h = Some bs" using p assms(3) by simp_all
  obtain cs1 where w: "writeChunk (ev_now env) h [0] MutationPad ?off ?cs = (Return (?off + int (length [0::byte])), cs1)"
    "info cs1 = (info ?cs)(h \<mapsto> written_info (ev_now env) (?off + int (length [0::byte])) (?up c))"
    by (rule writeChunk_fits [OF q, of MutationPad ?off "[0]"]) (use assms(5,6) in auto)
  have app: "at_server self (append_local env b) cl = (Return (?off, AppendExceedChunkSize), cl(self \<mapsto> cs1))"
    using assms(1) eq w(1) by (simp add: at_server_def)
  have "too_large ?off ws" using too_large_when assms(5-8) by simp
  then obtain e1 cl1 where c1: "call env r (at_server r (RPCApplyMutationHandler (ev_gz env) (ev_earlier env) (ev_now env) ?args))
      (cl(self \<mapsto> cs1)) = (Fail e1, cl1)"
    using call_too_large [where cl = "cl(self \<mapsto> cs1)" and r = r and args = ?args] assms(4,9) by force
  obtain es cl' where "forward_mutation env False ?args rs cl1 = (es, cl')" by fastforce
  then obtain errs where f: "forward_mutation env False ?args (r # rs) (cl(self \<mapsto> cs1)) = (errs, cl')" and "errs \<noteq> []"
    using c1 by simp
  then have run: "RPCAppendChunkHandler env self (r # rs) b cl = (Fail (Errors (map snd errs)), cl')"
    by (simp add: RPCAppendChunkHandler_def app)
  have "cl' self = Some cs1" using forward_mutation_other [of self "r # rs" env False ?args "cl(self \<mapsto> cs1)"] assms(4) f by simp
  moreover have c1: "info cs1 h = Some (written_info (ev_now env) (?off + 1) (?up c))" using w(2) by simp
  have "\<exists>cl''. RPCAppendChunkHandler env' self [] b' cl' = (Fail (ChunkErr ExceedsMaxSize h), cl'')"
    if st: "staged (downloadBuffer cs1) b' = Some ws'" and h: "bid_handle b' = h" and ne: "ws' \<noteq> []" and sm: "int (length ws') < 2 ^ 63"
    for env' b' ws'
  proof -
    let ?c1 = "written_info (ev_now env) (?off + 1) (?up c)"
    have len: "ci_length ?c1 = ChunkMaxSizeInByte" using assms(6) by simp
    have s64: "ci_length ?c1 + int (length ws') < 2 ^ 64" using sm len by (simp add: ChunkMaxSizeInByte_def)
    have flags: "\<not> ci_abandoned ?c1" "\<not> ci_isCompressed ?c1" "0 \<le> ci_length ?c1" using p len by (simp_all add: ChunkMaxSizeInByte_def)
    have over: "ci_length ?c1 + int (length ws') > ChunkMaxSizeInByte" using len ne by simp
    obtain db' where "append_local env' b' cs1 =
        bind_st (writeChunk (ev_now env') h [0] MutationPad ChunkMaxSizeInByte (set_info h ?up (cs1\<lparr>downloadBuffer := db'\<rparr>)))
          (\<lambda>n cs. (Return (ChunkMaxSizeInByte, AppendExceedChunkSize), cs))"
      by (rule append_local_eq [OF st h c1 flags s64, of env']) (use over len in \<open>simp add: doMutate_def Let_def\<close>)
    moreover have "writeChunk (ev_now env') h [0] MutationPad ChunkMaxSizeInByte (set_info h ?up (cs1\<lparr>downloadBuffer := db'\<rparr>)) =
        (Fail (ChunkErr ExceedsMaxSize h), set_info h ?up (cs1\<lparr>downloadBuffer := db'\<rparr>))"
      using c1 by (simp add: writeChunk_def)
    ultimately show ?thesis using \<open>cl' self = Some cs1\<close> by (simp add: RPCAppendChunkHandler_def at_server_def)
  qed
  ultimately show ?thesis using run by blast
qed

text \<open>A server whose chunk 7 is recorded as one byte short of full.\<close>

definition nearly_full :: "byte list \<Rightarrow> byte list \<Rightarrow> chunk_server" where
  "nearly_full bs ws = set_info 7 (\<lambda>c. c\<lparr>ci_length := ChunkMaxSizeInByte - 1\<rparr>) (demo_server bs ws)"

lemma nearly_full_ready: "ready 7 bs demo_id ws (nearly_full bs ws)"
  using demo_ready [of bs ws] by (auto simp: nearly_full_def ready_def)

theorem append_overflow_fails_witness:
  "\<exists>e cl'. RPCAppendChunkHandler demo_env ''p'' [''s''] demo_id [''p'' \<mapsto> nearly_full [1] [9, 9], ''s'' \<mapsto> nearly_full [1] [9, 9]] = (Fail e, cl')"
proof -
  let ?cs = "nearly_full [1] [9, 9]" and ?c = "(new_chunk_info 0)\<lparr>ci_length := ChunkMaxSizeInByte - 1\<rparr>"
  have c: "info ?cs 7 = Some ?c" by (simp add: nearly_full_def demo_server_def)
  have st: "staged (downloadBuffer ?cs) demo_id = Some [9, 9]" using nearly_full_ready [of "[1]" "[9, 9]"] by (simp add: ready_def)
  have "\<exists>e cl' cs'. RPCAppendChunkHandler demo_env ''p'' [''s''] demo_id [''p'' \<mapsto> ?cs, ''s'' \<mapsto> ?cs] = (Fail e, cl') \<and> cl' ''p'' = Some cs' \<and>
    (\<forall>env' b' ws'. staged (downloadBuffer cs') b' = Some ws' \<and> bid_handle b' = 7 \<and> ws' \<noteq> [] \<and> int (length ws') < 2 ^ 63 \<longrightarrow>
       (\<exists>cl''. RPCAppendChunkHandler env' ''p'' [] b' cl' = (Fail (ChunkErr ExceedsMaxSize 7), cl'')))"
    by (rule append_overflow_fails [OF _ nearly_full_ready c]) (use st in \<open>simp_all add: ChunkMaxSizeInByte_def\<close>)
  then show ?thesis by blast
qed

section \<open>Copying a chunk to a new replica\<close>

lemma readChunk_stored:
  assumes "flat_inv (rootDir cs)" and "bytes cs h = Some bs" and "0 \<le> off"
  shows "readChunk h off n cs = Return (let got = take n (drop (nat off) bs) in (got, if length got < n then Some (Os EOF) else None))"
  using assms GetFile_chunk [OF assms(1), of h] file_bytes_chunk [OF assms(1,2)] by (simp add: readChunk_def ReadAt_def Let_def)

lemma ApplyCopy_fresh:
  assumes "flat_inv (rootDir cs)" and "info cs h = Some c" and "\<not> ci_abandoned c" and "\<not> ci_isCompressed c" and "bytes cs h = Some []"
    and "int (length bs) \<le> ChunkMaxSizeInByte"
  shows "\<exists>cs' c'. RPCApplyCopyHandler gz earlier now h bs v cs = (Return (), cs') \<and> bytes cs' h = Some bs \<and>
    info cs' h = Some c' \<and> ci_version c' = v"
proof -
  obtain cs1 where w: "writeChunk now h bs MutationWrite 0 cs = (Return (0 + int (length bs)), cs1)"
    "stored (rootDir cs1) = (stored (rootDir cs))(chunk_file h \<mapsto> mutated MutationWrite 0 bs [])"
    "info cs1 = (info cs)(h \<mapsto> written_info now (0 + int (length bs)) c)"
    by (rule writeChunk_fits [OF assms(1,2,5), of MutationWrite 0 bs]) (use assms(6) in auto)
  then have "RPCApplyCopyHandler gz earlier now h bs v cs = (Return (), set_info h (\<lambda>c. c\<lparr>ci_version := v\<rparr>) cs1)"
    using assms(2-4) by (simp add: RPCApplyCopyHandler_def unarchive_if_def)
  with w show ?thesis by (simp add: mutated_def write_at_def)
qed

text \<open>
  C15. Copying a chunk to a server where it has just been created, with a network that delivers:
  when the file of the source is at least as long as the recorded length, the copy gets the
  recorded part of it and the version of the source. When the file is shorter, as it is after a
  padded append or after a mutation that failed half-way, the copy fails with end of file and
  nothing is transferred, so this chunk can not be replicated again.
\<close>

theorem snapshot_copies_or_fails:
  assumes src: "cl self = Some cs" "flat_inv (rootDir cs)" "info cs h = Some c" "\<not> ci_abandoned c" "\<not> ci_isCompressed c" "bytes cs h = Some bs"
    and len: "0 \<le> ci_length c" "ci_length c \<le> ChunkMaxSizeInByte"
    and tgt: "cl target = Some cst" "self \<noteq> target" "flat_inv (rootDir cst)" "info cst h = Some ct" "\<not> ci_abandoned ct"
      "\<not> ci_isCompressed ct" "bytes cst h = Some []"
    and net: "ev_net env target = Delivered # fates"
  shows "\<exists>res cl' cst'. RPCGetSnapshotHandler env self h target cl = (res, cl') \<and> cl' target = Some cst' \<and>
    (if int (length bs) < ci_length c then res = Fail (Os EOF) \<and> cst' = cst
     else res = Return () \<and> bytes cst' h = Some (take (nat (ci_length c)) bs) \<and>
       (\<exists>c'. info cst' h = Some c' \<and> ci_version c' = ci_version c))"
proof -
  let ?n = "nat (ci_length c)"
  let ?got = "take ?n bs"
  have rd: "readChunk h 0 ?n cs = Return (?got, if length ?got < ?n then Some (Os EOF) else None)"
    using readChunk_stored [OF src(2,6), of 0 ?n] by (simp add: Let_def)
  show ?thesis
  proof (cases "int (length bs) < ci_length c")
    case True
    then have "readChunk h 0 ?n cs = Return (?got, Some (Os EOF))" using rd by simp
    then have "RPCGetSnapshotHandler env self h target cl = (Fail (Os EOF), cl(self \<mapsto> cs))"
      using src len by (simp add: RPCGetSnapshotHandler_def at_server_def unarchive_if_def)
    then show ?thesis using True tgt by auto
  next
    case False
    let ?cs = "set_info h (\<lambda>c. c\<lparr>ci_checksum := ev_sha env ?got, ci_checksumDirty := False\<rparr>) cs"
    let ?copy = "at_server target (RPCApplyCopyHandler (ev_gz env) (ev_earlier env) (ev_now env) h ?got (ci_version c))"
    have run: "RPCGetSnapshotHandler env self h target cl = call env target ?copy (cl(self \<mapsto> ?cs))"
      using src rd len False by (simp add: RPCGetSnapshotHandler_def at_server_def unarchive_if_def)
    obtain cst' c' where a: "RPCApplyCopyHandler (ev_gz env) (ev_earlier env) (ev_now env) h ?got (ci_version c) cst = (Return (), cst')"
      "bytes cst' h = Some ?got" "info cst' h = Some c'" "ci_version c' = ci_version c"
      using ApplyCopy_fresh [OF tgt(3-7), of ?got "ev_gz env" "ev_earlier env" "ev_now env" "ci_version c"] len False by auto
    then have "?copy (cl(self \<mapsto> ?cs)) = (Return (), cl(self \<mapsto> ?cs, target \<mapsto> cst'))"
      using tgt(1,2) by (simp add: at_server_def)
    then have "RPCGetSnapshotHandler env self h target cl = (Return (), cl(self \<mapsto> ?cs, target \<mapsto> cst'))"
      unfolding run by (rule call_delivered [OF net])
    with False a show ?thesis by (intro exI [of _ "Return ()"] exI [of _ "cl(self \<mapsto> ?cs, target \<mapsto> cst')"] exI [of _ cst']) simp
  qed
qed

theorem snapshot_copies_or_fails_witness:
  "\<exists>cl' cst'. RPCGetSnapshotHandler demo_env ''p'' 7 ''s'' [''p'' \<mapsto> demo_server [1, 2] [], ''s'' \<mapsto> demo_server [] []] = (Return (), cl') \<and>
     cl' ''s'' = Some cst' \<and> bytes cst' 7 = Some [1, 2]"
proof -
  have i: "info (demo_server bs ws) 7 = Some ((new_chunk_info 0)\<lparr>ci_length := int (length bs)\<rparr>)"
    "flat_inv (rootDir (demo_server bs ws))" "bytes (demo_server bs ws) 7 = Some bs" for bs ws
    using demo_ready [of bs ws] by (simp_all add: demo_server_def ready_def)
  have "\<exists>res cl' cst'. RPCGetSnapshotHandler demo_env ''p'' 7 ''s'' [''p'' \<mapsto> demo_server [1, 2] [], ''s'' \<mapsto> demo_server [] []] = (res, cl') \<and>
    cl' ''s'' = Some cst' \<and> (if int (length [1, 2 :: byte]) < ci_length ((new_chunk_info 0)\<lparr>ci_length := int (length [1, 2 :: byte])\<rparr>)
      then res = Fail (Os EOF) \<and> cst' = demo_server [] []
      else res = Return () \<and> bytes cst' 7 = Some (take (nat (ci_length ((new_chunk_info 0)\<lparr>ci_length := int (length [1, 2 :: byte])\<rparr>))) [1, 2]) \<and>
       (\<exists>c'. info cst' 7 = Some c' \<and> ci_version c' = ci_version ((new_chunk_info 0)\<lparr>ci_length := int (length [1, 2 :: byte])\<rparr>)))"
    by (rule snapshot_copies_or_fails [where fates = "[]" and cs = "demo_server [1, 2] []" and c = "(new_chunk_info 0)\<lparr>ci_length := int (length [1, 2 :: byte])\<rparr>"
          and ct = "(new_chunk_info 0)\<lparr>ci_length := int (length ([] :: byte list))\<rparr>", OF _ i(2,1) _ _ i(3) _ _ _ _ i(2,1) _ _ i(3)])
      (simp_all add: new_chunk_info_def ChunkMaxSizeInByte_def demo_env_def)
  then show ?thesis by auto
qed

end
