(* ===== verification/Chunk_Server_Lifecycle.thy ===== *)
theory Chunk_Server_Lifecycle
  imports Chunk_Server_Properties
begin

text \<open>
  The life of a chunk server that has archived nothing: its invariant, reading, collecting garbage,
  and restarting from the saved metadata.
\<close>

section \<open>The invariant\<close>

named_theorems cs_inv_intros

lemma cs_inv_set_info:
  assumes "cs_inv cs" and "\<And>c. info cs h = Some c \<Longrightarrow>
    0 \<le> ci_length (f c) \<and> ci_length (f c) \<le> ChunkMaxSizeInByte \<and> ci_isCompressed (f c) = ci_isCompressed c"
  shows "cs_inv (set_info h f cs)"
  using assms unfolding cs_inv_def chunk_ok_def by auto

lemma cs_inv_lengths: "cs_inv cs \<Longrightarrow> info cs h = Some c \<Longrightarrow>
    0 \<le> ci_length c \<and> ci_length c \<le> ChunkMaxSizeInByte \<and> \<not> ci_isCompressed c \<and> (\<exists>bs. bytes cs h = Some bs)"
  unfolding cs_inv_def chunk_ok_def by auto

lemma cs_inv_set_info_same:
  "cs_inv cs \<Longrightarrow> (\<And>c. ci_length (f c) = ci_length c) \<Longrightarrow> (\<And>c. ci_isCompressed (f c) = ci_isCompressed c) \<Longrightarrow> cs_inv (set_info h f cs)"
  using cs_inv_lengths by (simp add: cs_inv_set_info)

lemma cs_inv_buffer: "cs_inv cs \<Longrightarrow> db_inv db \<Longrightarrow> cs_inv (cs\<lparr>downloadBuffer := db\<rparr>)"
  unfolding cs_inv_def chunk_ok_def by auto

lemma cs_inv_files:
  assumes "cs_inv cs" and "flat_inv fs" and "\<And>h. stored fs (chunk_file h) = None \<longleftrightarrow> bytes cs h = None"
  shows "cs_inv (cs\<lparr>rootDir := fs\<rparr>)"
  using assms unfolding cs_inv_def chunk_ok_def by auto

lemma getBuffer_inv: "cs_inv cs \<Longrightarrow> cs_inv (snd (getBuffer now b cs))"
proof -
  assume inv: "cs_inv cs"
  then have "db_inv (snd (Download_Buffer.Get now b (downloadBuffer cs)))" by (simp add: cs_inv_def Get_inv)
  with cs_inv_buffer [OF inv] show ?thesis by (auto simp: getBuffer_def split: prod.splits)
qed

lemma unarchive_if_inv: "cs_inv cs \<Longrightarrow> unarchive_if gz earlier h cs = (Return (), cs)"
  using cs_inv_lengths by (fastforce simp: unarchive_if_def split: option.splits)

lemma writeChunk_inv [cs_inv_intros]: 
  assumes inv: "cs_inv cs"
  shows "cs_inv (snd (writeChunk now h ws t off cs))"
proof (cases "info cs h")
  case (Some c)
  let ?n = "off + int (length ws)"
  let ?up = "\<lambda>c. if ?n > ci_length c then c\<lparr>ci_length := ?n\<rparr> else c"
  obtain bs where bs: "bytes cs h = Some bs" and len: "0 \<le> ci_length c" "ci_length c \<le> ChunkMaxSizeInByte"
    using cs_inv_lengths [OF inv Some] by blast
  have flat: "flat_inv (rootDir cs)" using inv by (simp add: cs_inv_def)
  consider "\<not> valid_mutation t" | "?n > ChunkMaxSizeInByte" | "valid_mutation t" "?n \<le> ChunkMaxSizeInByte" "t = MutationAppend \<or> 0 \<le> off"
    | "valid_mutation t" "?n \<le> ChunkMaxSizeInByte" "t \<noteq> MutationAppend" "off < 0" by linarith
  then show ?thesis
  proof cases
    case 3
    obtain cs' where w: "writeChunk now h ws t off cs = (Return ?n, cs')" "flat_inv (rootDir cs')"
      "stored (rootDir cs') = (stored (rootDir cs))(chunk_file h \<mapsto> mutated t off ws bs)"
      "info cs' = (info cs)(h \<mapsto> written_info now ?n c)" "map fst (cs_chunks cs') = map fst (cs_chunks cs)"
      "leases cs' = leases cs" "garbage cs' = garbage cs" "downloadBuffer cs' = downloadBuffer cs"
      by (rule writeChunk_fits [OF flat Some bs 3(1,3,2)])
    have "cs_inv cs'"
      unfolding cs_inv_def chunk_ok_def w(3-8)
      using inv w(2) 3 len bs cs_inv_lengths [OF inv Some] by (auto simp: cs_inv_def chunk_ok_def)
    with w(1) show ?thesis by simp
  next
    case 4
    then have "snd (writeChunk now h ws t off cs) = set_info h ?up cs"
      using Some flat bs by (simp add: writeChunk_def Let_def on_root_def GetFile_chunk WriteAt_def)
    moreover have "cs_inv (set_info h ?up cs)"
    proof (rule cs_inv_set_info [OF inv])
      show "0 \<le> ci_length (?up c) \<and> ci_length (?up c) \<le> ChunkMaxSizeInByte \<and> ci_isCompressed (?up c) = ci_isCompressed c"
        if "info cs h = Some c" for c using cs_inv_lengths [OF inv that] 4(2) by simp
    qed
    ultimately show ?thesis by simp
  qed (use inv Some in \<open>simp_all add: writeChunk_def\<close>)
qed (use inv in \<open>simp add: writeChunk_def\<close>)

lemma doMutate_inv: "cs_inv cs \<Longrightarrow> cs_inv (snd (doMutate now h m cs))"
  by (simp add: doMutate_def writeChunk_inv)

lemma cs_bind_inv: "cs_inv (snd r) \<Longrightarrow> (\<And>x cs. r = (Return x, cs) \<Longrightarrow> cs_inv cs \<Longrightarrow> cs_inv (snd (k x cs))) \<Longrightarrow> cs_inv (snd (bind_st r k))"
  by (cases r; cases "fst r") auto

lemma CheckChunkVersion_inv: "cs_inv cs \<Longrightarrow> cs_inv (snd (RPCCheckChunkVersionHandler now h v cs))"
  by (auto simp: RPCCheckChunkVersionHandler_def Let_def split: option.splits intro!: cs_inv_set_info_same)

lemma ReadChunk_inv: "cs_inv cs \<Longrightarrow> cs_inv (snd (RPCReadChunkHandler now h off n cs))"
  by (auto simp: RPCReadChunkHandler_def split: option.splits outcome.splits prod.splits intro!: cs_inv_set_info_same)

lemma CreateChunk_inv:
  assumes inv: "cs_inv cs"
  shows "cs_inv (snd (RPCCreateChunkHandler now h cs))"
proof (cases "info cs h")
  case None
  then have "bytes cs h = None" using inv by (auto simp: cs_inv_def)
  then obtain fs where fs: "CreateFile (chunk_file h) (rootDir cs) = (Return (), fs)" "flat_inv fs"
    "stored fs = (stored (rootDir cs))(chunk_file h \<mapsto> [])"
    using fstore.create_new [OF cs_invD(1) [OF inv] chunk_file_valid] by blast
  let ?cs = "cs\<lparr>cs_chunks := AList.update h (new_chunk_info now) (cs_chunks cs), rootDir := fs\<rparr>"
  have "snd (RPCCreateChunkHandler now h cs) = ?cs" using None fs(1) by (simp add: RPCCreateChunkHandler_def on_root_def)
  moreover have "cs_inv ?cs"
    using inv fs(2,3) by (auto simp: cs_inv_def chunk_ok_def update_conv' new_chunk_info_def ChunkMaxSizeInByte_def distinct_update)
  ultimately show ?thesis by simp
qed (use inv in \<open>auto simp: RPCCreateChunkHandler_def\<close>)

lemma push_lease_inv: "cs_inv cs \<Longrightarrow> cs_inv (snd (push_lease ls cs))"
proof -
  assume inv: "cs_inv cs"
  then obtain q where "PushBack (Some ls) (leases cs) = Return q" "lifo_inv q"
    using dq_lifo.push_law [of "leases cs" "Some ls"] by (auto simp: cs_inv_def)
  with inv show ?thesis by (auto simp: push_lease_def cs_inv_def chunk_ok_def)
qed

lemma push_garbage_law:
  "fifo_inv (garbage cs) \<Longrightarrow> \<exists>q. push_garbage hs cs = (Return (), cs\<lparr>garbage := q\<rparr>) \<and> fifo_inv q \<and> contents q = contents (garbage cs) @ hs"
proof (induction hs arbitrary: cs)
  case Nil
  then show ?case by (intro exI [of _ "garbage cs"]) simp
next
  case (Cons h hs)
  then obtain q1 where 1: "PushBack h (garbage cs) = Return q1" "fifo_inv q1" "contents q1 = contents (garbage cs) @ [h]"
    using dq_fifo.push_law [of "garbage cs" h] by blast
  obtain q where "push_garbage hs (cs\<lparr>garbage := q1\<rparr>) = (Return (), cs\<lparr>garbage := q\<rparr>)" "fifo_inv q" "contents q = contents q1 @ hs"
    using Cons.IH [of "cs\<lparr>garbage := q1\<rparr>"] 1(2) by auto
  with 1 show ?case by (intro exI [of _ q]) simp
qed

lemma push_leases_inv: "cs_inv cs \<Longrightarrow> cs_inv (snd (push_leases ls cs))"
  by (induction ls arbitrary: cs) (auto intro!: cs_bind_inv push_lease_inv)

lemma heartBeat_inv:
  assumes "cs_inv cs"
  shows "cs_inv (snd (heartBeat tracked reply cs))"
proof -
  have "cs_inv (snd (push_garbage garb cs))" if "cs_inv cs" for garb cs
    using push_garbage_law [of cs garb] that by (auto simp: cs_inv_def chunk_ok_def)
  with assms show ?thesis
    by (auto simp: heartBeat_def intro!: cs_bind_inv push_leases_inv split: prod.splits)
qed

text \<open>
  The lease that a write takes is the oldest one for its chunk; the other leases stay, in order.
\<close>

fun split_lease :: "chunk_handle \<Rightarrow> lease option list \<Rightarrow> lease option \<times> lease option list" where
  "split_lease h [] = (None, [])"
| "split_lease h (None # ls) = split_lease h ls"
| "split_lease h (Some l # ls) =
     (if l_Handle l = h then (Some l, filter (\<lambda>x. x \<noteq> None) ls)
      else (case split_lease h ls of (sel, rest) \<Rightarrow> (sel, Some l # rest)))"

lemma lease_loop_rest: "lifo_inv q \<Longrightarrow>
    \<exists>q'. lease_loop h ls (Some l) q = Return (Some l, q') \<and> lifo_inv q' \<and> contents q' = contents q @ filter (\<lambda>x. x \<noteq> None) ls"
proof (induction ls arbitrary: q)
  case (Cons x ls)
  obtain q1 where "PushBack x q = Return q1" "lifo_inv q1" "contents q1 = contents q @ [x]"
    using dq_lifo.push_law [OF Cons.prems, of x] by blast
  with Cons.IH [of q1] Cons.IH [OF Cons.prems] show ?case by (cases x) auto
qed simp

lemma lease_loop_law: "lifo_inv q \<Longrightarrow>
    \<exists>q'. lease_loop h ls None q = Return (fst (split_lease h ls), q') \<and> lifo_inv q' \<and> contents q' = contents q @ snd (split_lease h ls)"
proof (induction ls arbitrary: q)
  case (Cons x ls)
  show ?case
  proof (cases x)
    case (Some l)
    obtain q1 where "PushBack (Some l) q = Return q1" "lifo_inv q1" "contents q1 = contents q @ [Some l]"
      using dq_lifo.push_law [OF Cons.prems, of "Some l"] by blast
    then show ?thesis using Cons.IH [of q1] Cons.prems Some lease_loop_rest [OF Cons.prems, of h ls l] by (auto split: prod.splits)
  qed (use Cons in simp)
qed simp

lemma take_lease_law:
  assumes "lifo_inv (leases cs)"
  shows "\<exists>q. take_lease h cs = (Return (fst (split_lease h (contents (leases cs)))), cs\<lparr>leases := q\<rparr>) \<and> lifo_inv q \<and>
    contents q = snd (split_lease h (contents (leases cs)))"
proof -
  obtain q0 where q0: "PopAllReverse None (leases cs) = Return (rev (contents (leases cs)), q0)" "lifo_inv q0" "contents q0 = []"
    using PopAllReverse_law [OF assms] by blast
  with lease_loop_law [of q0 h "contents (leases cs)"] show ?thesis by (auto simp: take_lease_def)
qed

lemma take_lease_inv: "cs_inv cs \<Longrightarrow> cs_inv (snd (take_lease h cs))"
  using take_lease_law [of cs h] by (auto simp: cs_inv_def chunk_ok_def)

section \<open>Deleting chunks\<close>

lemma info_delete: "info (cs\<lparr>cs_chunks := AList.delete h (cs_chunks cs)\<rparr>) = (info cs)(h := None)"
  by (simp add: delete_conv')

lemma deleteChunk_exact:
  assumes inv: "cs_inv cs"
  obtains cs' where "deleteChunk h cs = (Return (), cs')" and "cs_inv cs'" and "info cs' = (info cs)(h := None)"
    and "\<And>h'. bytes cs' h' = (if h' = h then None else bytes cs h')" and "garbage cs' = garbage cs" and "metaFile cs' = metaFile cs"
proof (cases "info cs h")
  case None
  moreover have "bytes cs h = None" using None inv by (auto simp: cs_inv_def)
  ultimately show thesis using inv by (intro that [of cs]) (auto simp: deleteChunk_def fun_eq_iff)
next
  case (Some c)
  note c = cs_inv_lengths [OF inv Some]
  then obtain fs where fs: "RemoveFile (chunk_file h) (rootDir cs) = (Return (), fs)" "flat_inv fs"
    "stored fs = (stored (rootDir cs))(chunk_file h := None)"
    using fstore.remove_old [OF cs_invD(1) [OF inv] chunk_file_valid, of h] by auto
  let ?cs = "cs\<lparr>cs_chunks := AList.delete h (cs_chunks cs), rootDir := fs\<rparr>"
  have i: "info ?cs = (info cs)(h := None)" by (simp add: delete_conv')
  have b: "bytes ?cs h' = (if h' = h then None else bytes cs h')" for h' using fs(3) by simp
  have "deleteChunk h cs = (Return (), ?cs)" using Some c fs(1) by (simp add: deleteChunk_def on_root_def Let_def)
  moreover have "cs_inv ?cs"
    unfolding cs_inv_def chunk_ok_def i b using inv fs(2) by (auto simp: cs_inv_def chunk_ok_def distinct_delete)
  ultimately show thesis using i b by (intro that [of ?cs]) simp_all
qed

lemma collect_garbage_law:
  "cs_inv cs \<Longrightarrow> k \<le> length (contents (garbage cs)) \<Longrightarrow>
    \<exists>cs'. collect_garbage k cs = (Return ([], 0 < k), cs') \<and> cs_inv cs' \<and> contents (garbage cs') = drop k (contents (garbage cs)) \<and>
      info cs' = info cs |` (- set (take k (contents (garbage cs)))) \<and> metaFile cs' = metaFile cs \<and>
      (\<forall>h. bytes cs' h = (if h \<in> set (take k (contents (garbage cs))) then None else bytes cs h))"
proof (induction k arbitrary: cs)
  case (Suc k)
  obtain h hs where hs: "contents (garbage cs) = h # hs" using Suc.prems by (cases "contents (garbage cs)") auto
  obtain q where q: "PopFront 0 (garbage cs) = Return (h, q)" "fifo_inv q" "contents q = hs"
    using dq_fifo.pop_law [OF _ hs, of 0] Suc.prems by (auto simp: cs_inv_def)
  have "cs_inv (cs\<lparr>garbage := q\<rparr>)" using Suc.prems q by (auto simp: cs_inv_def chunk_ok_def)
  then obtain cs1 where d: "deleteChunk h (cs\<lparr>garbage := q\<rparr>) = (Return (), cs1)" "cs_inv cs1" "info cs1 = (info cs)(h := None)"
    "\<And>h'. bytes cs1 h' = (if h' = h then None else bytes cs h')" "garbage cs1 = q" "metaFile cs1 = metaFile cs"
    by (rule deleteChunk_exact [of _ h]) auto
  obtain cs' where "collect_garbage k cs1 = (Return ([], 0 < k), cs')" "cs_inv cs'" "contents (garbage cs') = drop k hs"
    "info cs' = info cs1 |` (- set (take k hs))" "metaFile cs' = metaFile cs1"
    "\<forall>h. bytes cs' h = (if h \<in> set (take k hs) then None else bytes cs1 h)"
    using Suc.IH [OF d(2)] Suc.prems hs q(3) d(5) by auto
  then show ?case using q(1) d hs by (auto simp: restrict_map_def fun_eq_iff)
qed (simp add: restrict_map_def)

section \<open>Checksums and saved metadata\<close>

lemma info_refresh: "info (refresh_all sha cs) h = map_option (refresh_checksum sha (rootDir cs) h) (info cs h)"
proof -
  have "map_of (map (\<lambda>(h, c). (h, f h c)) xs) h = map_option (f h) (map_of xs h)" for f :: "chunk_handle \<Rightarrow> cs_chunk \<Rightarrow> cs_chunk" and xs
    by (induction xs) auto
  then show ?thesis by (simp add: refresh_all_def)
qed

lemma refresh_all_simps [simp]:
  "rootDir (refresh_all sha cs) = rootDir cs" "leases (refresh_all sha cs) = leases cs" "garbage (refresh_all sha cs) = garbage cs"
  "downloadBuffer (refresh_all sha cs) = downloadBuffer cs" "metaFile (refresh_all sha cs) = metaFile cs"
  "map fst (cs_chunks (refresh_all sha cs)) = map fst (cs_chunks cs)"
  by (simp_all add: refresh_all_def comp_def case_prod_unfold)

lemma refresh_checksum_simps [simp]:
  "ci_length (refresh_checksum sha fs h c) = ci_length c" "ci_isCompressed (refresh_checksum sha fs h c) = ci_isCompressed c"
  "ci_abandoned (refresh_checksum sha fs h c) = ci_abandoned c" "ci_version (refresh_checksum sha fs h c) = ci_version c"
  by (auto simp: refresh_checksum_def split: prod.splits outcome.splits)

lemma refresh_all_inv: "cs_inv cs \<Longrightarrow> cs_inv (refresh_all sha cs)"
  unfolding cs_inv_def chunk_ok_def info_refresh by (auto simp: info_refresh)

lemma persistMetadata_inv: "cs_inv cs \<Longrightarrow> cs_inv (snd (persistMetadata sha cs))"
  using refresh_all_inv [of cs sha] by (auto simp: persistMetadata_def Let_def cs_inv_def chunk_ok_def)

lemma garbageCollection_inv:
  assumes "cs_inv cs"
  shows "cs_inv (snd (garbageCollection sha cs))"
proof -
  have "nat (Length (garbage cs)) = length (contents (garbage cs))" using assms dq_fifo.len_law [of "garbage cs"] by (simp add: cs_inv_def)
  with collect_garbage_law [OF assms order_refl] persistMetadata_inv show ?thesis
    by (auto simp: garbageCollection_def Let_def split: prod.splits) (metis snd_conv)+
qed

section \<open>All local operations keep the invariant\<close>

lemma ApplyMutation_inv:
  assumes "cs_inv cs"
  shows "cs_inv (snd (RPCApplyMutationHandler gz earlier now args cs))"
proof -
  obtain r cs1 where g: "getBuffer now (am_BufferId args) cs = (r, cs1)" by fastforce
  then have "cs_inv cs1" using getBuffer_inv [OF assms] by (metis snd_conv)
  with g show ?thesis
    by (auto simp: RPCApplyMutationHandler_def Let_def unarchive_if_inv doMutate_inv split: option.splits)
qed

lemma ApplyCopy_inv: "cs_inv cs \<Longrightarrow> cs_inv (snd (RPCApplyCopyHandler gz earlier now h bs v cs))"
  by (auto simp: RPCApplyCopyHandler_def unarchive_if_inv split: option.splits intro!: cs_bind_inv writeChunk_inv cs_inv_set_info_same)

lemma write_local_inv: "cs_inv cs \<Longrightarrow> cs_inv (snd (write_local env h off bs cs))"
  by (auto simp: write_local_def unarchive_if_inv Let_def split: option.splits intro!: cs_bind_inv doMutate_inv cs_inv_set_info_same)

lemma append_local_inv:
  assumes "cs_inv cs"
  shows "cs_inv (snd (append_local env b cs))"
proof -
  obtain r cs1 where g: "getBuffer (ev_now env) b cs = (r, cs1)" by fastforce
  then have "cs_inv cs1" using getBuffer_inv [OF assms] by (metis snd_conv)
  moreover have "cs_inv (set_info h (\<lambda>c. c\<lparr>ci_length := ChunkMaxSizeInByte\<rparr>) cs1)" if "cs_inv cs1" for cs1 h
    by (rule cs_inv_set_info [OF that]) (simp add: ChunkMaxSizeInByte_def)
  ultimately show ?thesis using g
    by (auto simp: append_local_def unarchive_if_inv Let_def split: option.splits intro!: cs_bind_inv doMutate_inv)
qed

datatype cs_op =
    CreateOp time chunk_handle
  | CheckOp time chunk_handle chunk_version
  | ReadOp time chunk_handle offset int
  | GrantOp lease
  | StageOp time buffer_id "byte list"
  | MutateOp time apply_mutation_args
  | CopyOp time chunk_handle "byte list" chunk_version
  | WriteOp cs_env chunk_handle offset "byte list"
  | AppendOp cs_env buffer_id
  | TakeLeaseOp chunk_handle
  | ReportOp
  | PersistOp
  | HeartBeatOp bool "(lease list \<times> chunk_handle list) outcome"
  | CollectOp

fun run_cs_op :: "gzip_codec \<Rightarrow> (byte list \<Rightarrow> checksum) \<Rightarrow> cs_op \<Rightarrow> chunk_server \<Rightarrow> chunk_server" where
  "run_cs_op gz sha (CreateOp now h) cs = snd (RPCCreateChunkHandler now h cs)"
| "run_cs_op gz sha (CheckOp now h v) cs = snd (RPCCheckChunkVersionHandler now h v cs)"
| "run_cs_op gz sha (ReadOp now h off n) cs = snd (RPCReadChunkHandler now h off n cs)"
| "run_cs_op gz sha (GrantOp l) cs = snd (RPCGrantLeaseHandler (l_Expire l) (l_Primary l) (l_Secondaries l) (l_Handle l) cs)"
| "run_cs_op gz sha (StageOp now b bs) cs = cs\<lparr>downloadBuffer := Set now b bs (downloadBuffer cs)\<rparr>"
| "run_cs_op gz sha (MutateOp now args) cs = snd (RPCApplyMutationHandler gz [] now args cs)"
| "run_cs_op gz sha (CopyOp now h bs v) cs = snd (RPCApplyCopyHandler gz [] now h bs v cs)"
| "run_cs_op gz sha (WriteOp env h off bs) cs = snd (write_local env h off bs cs)"
| "run_cs_op gz sha (AppendOp env b) cs = snd (append_local env b cs)"
| "run_cs_op gz sha (TakeLeaseOp h) cs = snd (take_lease h cs)"
| "run_cs_op gz sha ReportOp cs = snd (RPCSysReportHandler sha cs)"
| "run_cs_op gz sha PersistOp cs = snd (persistMetadata sha cs)"
| "run_cs_op gz sha (HeartBeatOp tracked reply) cs = snd (heartBeat tracked reply cs)"
| "run_cs_op gz sha CollectOp cs = snd (garbageCollection sha cs)"

lemma run_cs_op_inv: "cs_inv cs \<Longrightarrow> cs_inv (run_cs_op gz sha op cs)"
proof (cases op)
  case (StageOp now b bs)
  then show "cs_inv cs \<Longrightarrow> cs_inv (run_cs_op gz sha op cs)" by (simp add: cs_inv_buffer Set_inv cs_invD)
qed (simp_all add: CreateChunk_inv CheckChunkVersion_inv ReadChunk_inv RPCGrantLeaseHandler_def push_lease_inv ApplyMutation_inv
    ApplyCopy_inv write_local_inv append_local_inv take_lease_inv RPCSysReportHandler_def Let_def refresh_all_inv persistMetadata_inv
    heartBeat_inv garbageCollection_inv)

lemma NewChunkServer_fresh:
  assumes "flat_inv (NewFileSystem r d)" and "\<And>h. stored (NewFileSystem r d) (chunk_file h) = None"
  shows "\<exists>cs. NewChunkServer r d NoMeta = Return cs \<and> cs_inv cs \<and> cs_chunks cs = [] \<and> metaFile cs = EmptyMeta"
  using assms MkDir_root [OF assms(1)]
  by (simp add: NewChunkServer_def NewDownloadBuffer_def DownloadBufferTick_def DownloadBufferItemExpire_def Second_def on_root_def
      loadMetadata_def cs_inv_def db_inv_def)

lemma ReadChunk_exact:
  assumes inv: "cs_inv cs" and c: "info cs h = Some c" "\<not> ci_abandoned c" and b: "bytes cs h = Some bs" and "0 \<le> off" and "0 \<le> n"
  shows "RPCReadChunkHandler now h off n cs =
    (let got = take (nat n) (drop (nat off) bs) in
     (Return \<lparr>rr_Data = got @ replicate (nat n - length got) 0, rr_Length = int (length got),
        rr_ErrorCode = (if length got < nat n then ReadEOF else Success)\<rparr>, set_info h (\<lambda>c. c\<lparr>ci_accessTime := Some now\<rparr>) cs))"
proof -
  have "readChunk h off (nat n) cs = Return (ReadAt (abs_path (full (rootDir cs) (chunk_file h))) (nat n) off (rootDir cs))"
    using b GetFile_chunk [OF cs_invD(1) [OF inv], of h] by (simp add: readChunk_def)
  then show ?thesis
    using assms file_bytes_chunk [OF cs_invD(1) [OF inv] b] by (simp add: RPCReadChunkHandler_def ReadAt_def Let_def)
qed


lemma data_fs_empty: "stored data_fs n = None"
  unfolding stored_def data_fs_parts by (simp add: data_fs_def NewFileSystem_def empty_disk_def)


section \<open>Collecting garbage\<close>

text \<open>
  One round of garbage collection deletes exactly the chunks in the queue: their entries and
  their files are gone, all other chunks keep their bytes, lengths and versions, the queue is
  empty, and the metadata file lists the remaining chunks.
\<close>

theorem garbageCollection_exact:
  assumes inv: "cs_inv cs" and "metaFile cs \<noteq> NoMeta" and ne: "contents (garbage cs) \<noteq> []"
  shows "\<exists>cs' ms. garbageCollection sha cs = (Return (), cs') \<and> contents (garbage cs') = [] \<and>
    dom (info cs') = dom (info cs) - set (contents (garbage cs)) \<and>
    (\<forall>h. bytes cs' h = (if h \<in> set (contents (garbage cs)) then None else bytes cs h)) \<and>
    (\<forall>h c'. info cs' h = Some c' \<longrightarrow> (\<exists>c. info cs h = Some c \<and> ci_length c' = ci_length c \<and> ci_version c' = ci_version c)) \<and>
    metaFile cs' = Metas ms \<and> set (map pm_Handle ms) = dom (info cs')"
proof -
  let ?hs = "contents (garbage cs)"
  have len: "nat (Length (garbage cs)) = length ?hs" using inv dq_fifo.len_law [of "garbage cs"] by (simp add: cs_inv_def)
  obtain cs1 where 1: "collect_garbage (length ?hs) cs = (Return ([], True), cs1)" "cs_inv cs1" "contents (garbage cs1) = []"
    "info cs1 = info cs |` (- set ?hs)" "metaFile cs1 = metaFile cs" "\<And>h. bytes cs1 h = (if h \<in> set ?hs then None else bytes cs h)"
    using collect_garbage_law [OF inv order_refl] ne by auto
  define ms where "ms = map (\<lambda>(h, c). persisted_of h c) (cs_chunks (refresh_all sha cs1))"
  let ?cs = "(refresh_all sha cs1)\<lparr>metaFile := Metas ms\<rparr>"
  have run: "garbageCollection sha cs = (Return (), ?cs)"
    using len 1(1,5) assms(2) by (simp add: garbageCollection_def persistMetadata_def Let_def ms_def)
  have i: "info ?cs h = map_option (refresh_checksum sha (rootDir cs1) h) (info cs1 h)" for h by (simp add: info_refresh)
  have "dom (info ?cs) = dom (info cs) - set ?hs" using i 1(4) by (auto simp: dom_def restrict_map_def split: if_splits)
  moreover have "map pm_Handle (map (\<lambda>(h, c). persisted_of h c) xs) = map fst xs" for xs
    by (induction xs) (auto simp: persisted_of_def)
  then have "map pm_Handle ms = map fst (cs_chunks ?cs)" by (simp add: ms_def del: map_map)
  then have "set (map pm_Handle ms) = dom (info ?cs)"
    by (metis dom_map_of_conv_image_fst set_map)
  moreover have "\<exists>c. info cs h = Some c \<and> ci_length c' = ci_length c \<and> ci_version c' = ci_version c" if "info ?cs h = Some c'" for h c'
    using that i [of h] 1(4) by (cases "info cs h") (auto simp: restrict_map_def split: if_splits)
  ultimately show ?thesis using run 1(3,6) by auto
qed

lemma refresh_checksum_inv:
  assumes inv: "cs_inv cs" and "info cs h = Some c" and b: "bytes cs h = Some bs"
  shows "refresh_checksum sha (rootDir cs) h c = c\<lparr>ci_checksum := (if ci_checksumDirty c then sha bs else ci_checksum c), ci_checksumDirty := False\<rparr>"
  using cs_inv_lengths [OF inv assms(2)] b GetFile_chunk [OF cs_invD(1) [OF inv], of h] file_bytes_chunk [OF cs_invD(1) [OF inv] b]
  by (simp add: refresh_checksum_def)

lemma demo_server_inv: "int (length bs) \<le> ChunkMaxSizeInByte \<Longrightarrow> cs_inv (demo_server bs ws)"
  unfolding cs_inv_def chunk_ok_def
  by (auto simp: demo_server_def empty_server_def demo_fs data_fs_empty db_inv_def Second_def new_chunk_info_def split: if_splits)

theorem garbageCollection_exact_witness:
  "\<exists>cs cs'. heartBeat True (Return ([], [7])) (demo_server [1] []) = (Return (), cs) \<and>
     garbageCollection (\<lambda>bs. []) cs = (Return (), cs') \<and> bytes cs 7 = Some [1] \<and> bytes cs' 7 = None"
proof -
  have inv: "cs_inv (demo_server [1] [])" by (rule demo_server_inv) (simp add: ChunkMaxSizeInByte_def)
  have g: "garbage (demo_server [1] []) = empty_deque" "metaFile (demo_server [1] []) = EmptyMeta"
    by (simp_all add: demo_server_def empty_server_def)
  then obtain q where q: "push_garbage [7] (demo_server [1] []) = (Return (), (demo_server [1] [])\<lparr>garbage := q\<rparr>)" "contents q = [7]"
    using push_garbage_law [of "demo_server [1] []" "[7]"] dq_fifo.items_empty by auto
  let ?cs = "(demo_server [1] [])\<lparr>garbage := q\<rparr>"
  have h: "heartBeat True (Return ([], [7])) (demo_server [1] []) = (Return (), ?cs)" using q(1) by (simp add: heartBeat_def)
  then have "cs_inv ?cs" using heartBeat_inv [OF inv, of True "Return ([], [7])"] by simp
  moreover have "bytes ?cs 7 = Some [1]" using demo_ready [of "[1]" "[]"] by (simp add: ready_def)
  ultimately show ?thesis
    using h garbageCollection_exact [of ?cs "\<lambda>bs. []"] g q(2) by auto
qed

section \<open>Restarting\<close>

definition load_entry :: "persisted_meta_data \<Rightarrow> chunk_server \<Rightarrow> chunk_server" where
  "load_entry m cs = (if pm_Length m < 0 then cs
     else cs\<lparr>cs_chunks := AList.update (pm_Handle m) (restored_info m) (cs_chunks cs)\<rparr>)"

abbreviation restored :: "(chunk_handle \<times> cs_chunk) list \<Rightarrow> chunk_handle \<Rightarrow> cs_chunk option" where
  "restored xs \<equiv> \<lambda>h. map_option (\<lambda>c. restored_info (persisted_of h c)) (map_of xs h)"

lemma load_fold:
  assumes "distinct (map fst xs)" and "\<And>h c. (h, c) \<in> set xs \<Longrightarrow> 0 \<le> ci_length c" and "distinct (map fst (cs_chunks cs))"
  shows "\<exists>chs. fold load_entry (map (\<lambda>(h, c). persisted_of h c) xs) cs = cs\<lparr>cs_chunks := chs\<rparr> \<and>
    map_of chs = info cs ++ restored xs \<and> distinct (map fst chs)"
  using assms
proof (induction xs arbitrary: cs)
  case Nil
  then show ?case by (intro exI [of _ "cs_chunks cs"]) (simp add: fun_eq_iff map_add_def)
next
  case (Cons x xs)
  obtain h c where x: "x = (h, c)" by fastforce
  let ?cs = "cs\<lparr>cs_chunks := AList.update h (restored_info (persisted_of h c)) (cs_chunks cs)\<rparr>"
  have step: "load_entry (persisted_of h c) cs = ?cs" using Cons.prems(2) [of h c] x by (simp add: load_entry_def persisted_of_def)
  have "\<exists>chs. fold load_entry (map (\<lambda>(h, c). persisted_of h c) xs) ?cs = ?cs\<lparr>cs_chunks := chs\<rparr> \<and>
      map_of chs = info ?cs ++ restored xs \<and> distinct (map fst chs)"
    using Cons.prems by (intro Cons.IH) (auto simp: distinct_update)
  moreover have "info ?cs ++ restored xs = info cs ++ restored (x # xs)"
  proof
    fix k
    have "map_of xs h = None" using Cons.prems(1) x by (simp add: map_of_eq_None_iff)
    then show "(info ?cs ++ restored xs) k = (info cs ++ restored (x # xs)) k"
      using x by (cases "map_of xs k") (auto simp: map_add_def update_conv')
  qed
  ultimately show ?case using x step by auto
qed


lemma NewChunkServer_returns:
  "flat_inv (rootDir cs) \<Longrightarrow> \<exists>cs2. NewChunkServer (fs_root (rootDir cs)) (fs_disk (rootDir cs)) meta = Return cs2"
proof -
  assume "flat_inv (rootDir cs)"
  moreover have "NewFileSystem (fs_root (rootDir cs)) (fs_disk (rootDir cs)) = rootDir cs" by (simp add: NewFileSystem_def)
  ultimately show ?thesis using MkDir_root [of "rootDir cs"]
    by (simp add: NewChunkServer_def NewDownloadBuffer_def DownloadBufferTick_def DownloadBufferItemExpire_def Second_def on_root_def)
qed


section \<open>Writing under a lease\<close>

lemma at_server_getBuffer_bytes: "cl r = Some cs \<Longrightarrow>
    \<exists>db. at_server r (\<lambda>cs. case getBuffer now b cs of (x, cs) \<Rightarrow> (Return x, cs)) cl = (Return (staged (downloadBuffer cs) b), cl(r \<mapsto> cs\<lparr>downloadBuffer := db\<rparr>))"
  using fst_Get [of now b "downloadBuffer cs"]
  by (cases "Download_Buffer.Get now b (downloadBuffer cs)") (auto simp: at_server_def getBuffer_def)

lemma split_lease_others: "l_Handle l \<noteq> h \<Longrightarrow> Some l \<in> set (snd (split_lease h ls)) \<longleftrightarrow> Some l \<in> set ls"
  by (induction h ls rule: split_lease.induct) (auto split: prod.splits)

text \<open>
  C19. A write is done only under a lease: unless the primary holds a lease for the chunk, and the
  oldest such lease has not expired, the request changes no chunk file, no chunk table and no other
  server, and the client is told that the data is missing, too large, or the lease expired. The
  leases for other chunks stay.
\<close>

theorem write_needs_lease:
  assumes "cl self = Some cs" and inv: "lifo_inv (leases cs)" and h: "h = bid_handle (wc_BufferId args)"
    and exp: "\<And>l. fst (split_lease h (contents (leases cs))) = Some l \<Longrightarrow> IsExpired l (ev_now env)"
  shows "\<exists>res cs'. RPCWriteChunkHandler env self args cl = (res, cl(self \<mapsto> cs')) \<and>
    res \<in> {Fail (ChunkErr BufferMiss h), Return (0, WriteExceedChunkSize), Return (0, LeaseExpired)} \<and>
    rootDir cs' = rootDir cs \<and> cs_chunks cs' = cs_chunks cs \<and>
    (\<forall>l. l_Handle l \<noteq> h \<longrightarrow> (Some l \<in> set (contents (leases cs'))) = (Some l \<in> set (contents (leases cs))))"
proof -
  obtain db where g: "at_server self (\<lambda>cs. case getBuffer (ev_now env) (wc_BufferId args) cs of (x, cs) \<Rightarrow> (Return x, cs)) cl =
      (Return (staged (downloadBuffer cs) (wc_BufferId args)), cl(self \<mapsto> cs\<lparr>downloadBuffer := db\<rparr>))"
    using at_server_getBuffer_bytes [where cl = cl and r = self and cs = cs] assms(1) by blast
  let ?cs = "cs\<lparr>downloadBuffer := db\<rparr>"
  obtain q where q: "take_lease h ?cs = (Return (fst (split_lease h (contents (leases cs)))), ?cs\<lparr>leases := q\<rparr>)"
    "contents q = snd (split_lease h (contents (leases cs)))"
    using take_lease_law [of ?cs h] inv by auto
  then have t: "at_server self (take_lease h) (cl(self \<mapsto> ?cs)) =
      (Return (fst (split_lease h (contents (leases cs)))), cl(self \<mapsto> ?cs\<lparr>leases := q\<rparr>))"
    by (simp add: at_server_def)
  show ?thesis
  proof (cases "staged (downloadBuffer cs) (wc_BufferId args)")
    case None
    then show ?thesis by (intro exI [of _ "Fail (ChunkErr BufferMiss h)"] exI [of _ ?cs]) (simp add: RPCWriteChunkHandler_def g h Let_def)
  next
    case (Some bs)
    show ?thesis
    proof (cases "too_large (wc_Offset args) bs")
      case True
      with Some show ?thesis
        by (intro exI [of _ "Return (0, WriteExceedChunkSize)"] exI [of _ ?cs]) (simp add: RPCWriteChunkHandler_def g Let_def)
    next
      case False
      then have "RPCWriteChunkHandler env self args cl = (Return (0, LeaseExpired), cl(self \<mapsto> ?cs\<lparr>leases := q\<rparr>))"
        using Some exp
        by (cases "fst (split_lease h (contents (leases cs)))") (simp_all add: RPCWriteChunkHandler_def g t [unfolded h] h Let_def)
      then show ?thesis
        using q(2) split_lease_others
        by (intro exI [of _ "Return (0, LeaseExpired)"] exI [of _ "?cs\<lparr>leases := q\<rparr>"]) auto
    qed
  qed
qed

theorem write_needs_lease_witness:
  "\<exists>res cl'. RPCWriteChunkHandler demo_env ''p'' \<lparr>wc_Replicas = [''s''], wc_BufferId = demo_id, wc_Offset = 0\<rparr> (demo_cluster [1] [9]) = (res, cl') \<and>
     res \<in> {Fail (ChunkErr BufferMiss 7), Return (0, WriteExceedChunkSize), Return (0, LeaseExpired)}"
proof -
  have c: "demo_cluster [1] [9] ''p'' = Some (demo_server [1] [9])" by (simp add: demo_cluster_def)
  have l: "leases (demo_server [1] [9]) = empty_deque" by (simp add: demo_server_def empty_server_def)
  have "contents (empty_deque :: lease option deque) = []" by (rule dq_lifo.items_empty)
  then show ?thesis
    using write_needs_lease [where cl = "demo_cluster [1] [9]" and self = "''p''" and cs = "demo_server [1] [9]" and h = 7
        and args = "\<lparr>wc_Replicas = [''s''], wc_BufferId = demo_id, wc_Offset = 0\<rparr>" and env = demo_env] l c
    by (fastforce simp: demo_id_def)
qed

end
