(* ===== verification/Lease_Protocol.thy ===== *)
theory Lease_Protocol
  imports Master_Server Chunk_Server_Limits
begin

text \<open>
  Master and chunk servers together: what writing under a lease does to the versions that the
  master compares when it renews the lease.
\<close>

section \<open>What a mutation leaves alone\<close>

text \<open>
  A part of a server's state that depends neither on its files nor on its buffers, nor on any field
  of a chunk but its version and its mutation log. Mutations that other servers ask for keep it.
\<close>

definition cl_view :: "(chunk_server \<Rightarrow> 'v) \<Rightarrow> cluster \<Rightarrow> server_addr \<Rightarrow> 'v option" where
  "cl_view pv cl r = map_option pv (cl r)"

locale server_view =
  fixes pv :: "chunk_server \<Rightarrow> 'v"
  assumes view_set_info: "(\<And>c. ci_version (f c) = ci_version c \<and> ci_mutations (f c) = ci_mutations c) \<Longrightarrow> pv (set_info h f cs) = pv cs"
    and view_root: "pv (cs\<lparr>rootDir := fs\<rparr>) = pv cs"
    and view_buffer: "pv (cs\<lparr>downloadBuffer := db\<rparr>) = pv cs"
    and view_pending: "pv (cs\<lparr>decompressPending := p\<rparr>) = pv cs"
begin

lemmas views = view_set_info view_root view_buffer view_pending

lemma view_on_root: "pv (snd (on_root f cs)) = pv cs"
  by (simp add: on_root_def views split: prod.splits)

lemma view_getBuffer: "pv (snd (getBuffer now b cs)) = pv cs"
  by (simp add: getBuffer_def views split: prod.splits)

lemma view_bind_st: "pv (snd r) = v \<Longrightarrow> (\<And>x cs. r = (Return x, cs) \<Longrightarrow> pv (snd (k x cs)) = pv cs) \<Longrightarrow> pv (snd (bind_st r k)) = v"
  by (cases r; cases "fst r") auto

lemma view_writeChunk: "pv (snd (writeChunk now h ws t off cs)) = pv cs"
  unfolding writeChunk_def
  by (auto simp: Let_def views view_on_root split: option.splits intro!: view_bind_st)

lemma view_doMutate: "pv (snd (doMutate now h m cs)) = pv cs"
  by (simp add: doMutate_def view_writeChunk)

lemma view_unarchive_if: "pv (snd (unarchive_if gz earlier h cs)) = pv cs"
  unfolding unarchive_if_def unarchiveChunks_def
  by (auto simp: Let_def views view_on_root split: option.splits prod.splits intro!: view_bind_st)

lemma view_ApplyMutation: "pv (snd (RPCApplyMutationHandler gz earlier now args cs)) = pv cs"
proof -
  obtain r cs1 where g: "getBuffer now (am_BufferId args) cs = (r, cs1)" by fastforce
  then have "pv cs1 = pv cs" using view_getBuffer by (metis snd_conv)
  then show ?thesis
    by (auto simp: RPCApplyMutationHandler_def Let_def g view_unarchive_if view_doMutate split: option.splits intro!: view_bind_st)
qed

lemma cl_view_at_server: "(\<And>cs. pv (snd (f cs)) = pv cs) \<Longrightarrow> cl_view pv (snd (at_server r f cl)) = cl_view pv cl"
  by (auto simp: at_server_def cl_view_def fun_eq_iff split: option.splits prod.splits) (metis snd_conv)+

lemma cl_view_iterate: "(\<And>cl. cl_view pv (snd (f cl)) = cl_view pv cl) \<Longrightarrow> cl_view pv (iterate f k cl) = cl_view pv cl"
  by (induction k) (simp_all add: iterate_def)

lemma cl_view_call:
  assumes "\<And>cl. cl_view pv (snd (f cl)) = cl_view pv cl" and "call env r f cl = (res, cl')"
  shows "cl_view pv cl' = cl_view pv cl"
proof -
  obtain k where "cl' = iterate f k cl"
    using unicast_loop_iterates [of "take 3 (ev_net env r)" r f "RpcErr DialFailed r" cl] assms(2)
    by (auto simp: call_def UnicastToRPCServer_def DefaultRetryConfig_def)
  with cl_view_iterate [OF assms(1)] show ?thesis by simp
qed

lemma cl_view_forward: "cl_view pv (snd (forward_mutation env late args rs cl)) = cl_view pv cl"
proof (induction rs arbitrary: cl)
  case (Cons r rs)
  obtain x cl1 where c: "(if late then (Fail (RpcErr ReplyTimedOut r), cl)
      else call env r (at_server r (RPCApplyMutationHandler (ev_gz env) (ev_earlier env) (ev_now env) args)) cl) = (x, cl1)"
    by fastforce
  then have "cl_view pv cl1 = cl_view pv cl"
    using cl_view_call [OF cl_view_at_server [OF view_ApplyMutation]] by (cases late) auto
  moreover have "snd (forward_mutation env late args (r # rs) cl) = snd (forward_mutation env late args rs cl1)"
    unfolding forward_mutation.simps c by (cases x) (simp_all split: prod.splits)
  ultimately show ?case using Cons by simp
qed simp

text \<open>A write that succeeds at the primary logs the mutation there, and nothing else changes it.\<close>

lemma view_write_local:
  assumes "write_local env h off bs cs = (Return n, cs')"
  shows "\<exists>cs2. pv cs2 = pv cs \<and> cs' = set_info h (log_mutation \<lparr>mu_Data = bs, mu_Offset = off, mu_Type = MutationWrite\<rparr>) cs2"
proof -
  let ?m = "\<lparr>mu_Data = bs, mu_Offset = off, mu_Type = MutationWrite\<rparr>"
  obtain r1 cs1 where u: "unarchive_if (ev_gz env) (ev_earlier env) h cs = (r1, cs1)" by fastforce
  obtain r2 cs2 where d: "doMutate (ev_now env) h ?m cs1 = (r2, cs2)" by fastforce
  have "cs' = set_info h (log_mutation ?m) cs2"
    using assms u d by (cases r1; cases r2) (auto simp: write_local_def Let_def split: option.splits if_splits)
  moreover have "pv cs1 = pv cs" "pv cs2 = pv cs1"
    using view_unarchive_if [of "ev_gz env" "ev_earlier env" h cs] view_doMutate [of "ev_now env" h ?m cs1] u d by simp_all
  ultimately show ?thesis by auto
qed

lemma view_performWrite:
  assumes "performWrite env self deadline args bs cl = (Return n, cl')"
  obtains cs cs2 cs' where "cl self = Some cs" and "cl' self = Some cs'" and "pv cs2 = pv cs"
    and "pv cs' = pv (set_info (bid_handle (wc_BufferId args))
      (log_mutation \<lparr>mu_Data = bs, mu_Offset = wc_Offset args, mu_Type = MutationWrite\<rparr>) cs2)"
    and "\<And>r. r \<noteq> self \<Longrightarrow> cl_view pv cl' r = cl_view pv cl r"
proof -
  let ?h = "bid_handle (wc_BufferId args)" and ?off = "wc_Offset args"
  let ?m = "\<lparr>mu_Data = bs, mu_Offset = ?off, mu_Type = MutationWrite\<rparr>"
  let ?args = "\<lparr>am_MutationType = MutationWrite, am_BufferId = wc_BufferId args, am_Offset = ?off\<rparr>"
  obtain cs where cs: "cl self = Some cs" using assms by (cases "cl self") (auto simp: performWrite_def at_server_def Let_def)
  obtain r1 cs1 where l: "write_local env ?h ?off bs cs = (r1, cs1)" by fastforce
  obtain n1 where r1: "r1 = Return n1" using assms by (cases r1) (auto simp: performWrite_def at_server_def cs l Let_def)
  obtain errs cl2 where f: "forward_mutation env (deadline \<le> ev_written env) ?args (wc_Replicas args) (cl(self \<mapsto> cs1)) = (errs, cl2)" by fastforce
  have "errs = []" using assms f by (cases errs) (auto simp: performWrite_def at_server_def cs l r1 Let_def)
  have v2: "cl_view pv cl2 = cl_view pv (cl(self \<mapsto> cs1))"
    using cl_view_forward [of env "deadline \<le> ev_written env" ?args "wc_Replicas args" "cl(self \<mapsto> cs1)"] f by simp
  then have "cl_view pv cl2 self = Some (pv cs1)" by (simp add: cl_view_def)
  then obtain cs2 where cs2: "cl2 self = Some cs2" "pv cs2 = pv cs1" by (auto simp: cl_view_def)
  let ?up = "\<lambda>c. if ?off + int (length bs) > ci_length c then c\<lparr>ci_length := ?off + int (length bs)\<rparr> else c"
  have cl': "cl' = cl2(self \<mapsto> set_info ?h ?up cs2)"
    using assms f cs2 \<open>errs = []\<close> by (auto simp: performWrite_def at_server_def cs l r1 Let_def split: option.splits)
  have up: "pv (set_info ?h ?up cs2) = pv cs1" using cs2(2) by (simp add: view_set_info)
  obtain cs3 where cs3: "pv cs3 = pv cs" "cs1 = set_info ?h (log_mutation ?m) cs3" using view_write_local [OF l [unfolded r1]] by blast
  have "cl_view pv cl' r = cl_view pv cl r" if "r \<noteq> self" for r
    using that fun_cong [OF v2, of r] cl' by (simp add: cl_view_def)
  then show thesis using cs3 up by (intro that [OF cs, of "set_info ?h ?up cs2" cs3]) (auto simp: cl')
qed

end

section \<open>Versions on the chunk servers\<close>

definition vers :: "chunk_server \<Rightarrow> chunk_handle \<Rightarrow> (chunk_version \<times> (chunk_version \<times> mutation) list) option" where
  "vers cs h = map_option (\<lambda>c. (ci_version c, ci_mutations c)) (info cs h)"

interpretation vw: server_view vers
  by unfold_locales (auto simp: vers_def fun_eq_iff option.map_comp comp_def)

interpretation lw: server_view leases
  by unfold_locales simp_all

abbreviation cl_vers :: "cluster \<Rightarrow> server_addr \<Rightarrow> (chunk_handle \<Rightarrow> (chunk_version \<times> (chunk_version \<times> mutation) list) option) option" where
  "cl_vers \<equiv> cl_view vers"

fun log_vers :: "mutation \<Rightarrow> chunk_version \<times> (chunk_version \<times> mutation) list \<Rightarrow> chunk_version \<times> (chunk_version \<times> mutation) list" where
  "log_vers m (v, ms) = (if map_of ms v \<noteq> None then (v + 1, ms) else (v, AList.update v m ms))"

lemma vers_log: "vers (set_info h (log_mutation m) cs) = (vers cs)(h := map_option (log_vers m) (vers cs h))"
  by (cases "Chunk_Server_Properties.info cs h") (auto simp: vers_def fun_eq_iff log_mutation_def)

lemma vers_performWrite:
  assumes "performWrite env self deadline args bs cl = (Return n, cl')"
  obtains cs cs' m where "cl self = Some cs" and "cl' self = Some cs'" and "bid_handle (wc_BufferId args) = h \<Longrightarrow> vers cs' h = map_option (log_vers m) (vers cs h)"
    and "\<And>r. r \<noteq> self \<Longrightarrow> cl_vers cl' r = cl_vers cl r"
  by (rule vw.view_performWrite [OF assms]) (auto simp: vers_log intro: that)

text \<open>Writing leaves the queue of leases as it is.\<close>

lemma leases_performWrite:
  assumes "performWrite env self deadline args bs cl = (Return n, cl')" and "cl self = Some cs"
  obtains cs' where "cl' self = Some cs'" and "leases cs' = leases cs"
  by (rule lw.view_performWrite [OF assms(1)]) (use assms(2) in \<open>auto intro: that\<close>)

section \<open>Renewing the lease after two writes\<close>

text \<open>The answer of a server to the master's version probe, as the master records it.\<close>

definition probe :: "cluster \<Rightarrow> time \<Rightarrow> chunk_handle \<Rightarrow> chunk_version \<Rightarrow> server_addr \<Rightarrow> server_addr \<times> bool" where
  "probe cl now h v r = (r, case cl r of None \<Rightarrow> False | Some cs \<Rightarrow> fst (RPCCheckChunkVersionHandler now h v cs) = Return False)"

lemma check_ahead: "vers cs h = Some (v', ms) \<Longrightarrow> v < v' \<Longrightarrow> fst (RPCCheckChunkVersionHandler now h v cs) = Return True"
  by (auto simp: vers_def RPCCheckChunkVersionHandler_def Let_def)

lemma check_same: "vers cs h = Some (v, ms) \<Longrightarrow> fst (RPCCheckChunkVersionHandler now h v cs) = Return False"
  by (auto simp: vers_def RPCCheckChunkVersionHandler_def Let_def)

lemma getLeaseHolder_stale:
  assumes "map_of (chunks m) h = Some chk" and "isExpired chk now1" and "getLeaseHolder now1 now2 probes h m = (Return (ls, stale), m')"
  shows "\<exists>chk'. map_of (chunks m') h = Some chk' \<and> locations chk' = map fst (filter snd probes)"
    and "stale = map fst (filter (\<lambda>x. \<not> snd x) probes)" and "servers m' = servers m"
  using assms by (auto simp: getLeaseHolder_def Let_def set_chunk_def map_of_map_entry split: if_splits prod.splits)

lemma addGarbage_all:
  assumes "map_of (servers m) p = Some sv"
  shows "\<exists>sv'. map_of (servers (ForEachInSlice st (\<lambda>v. addGarbage v h) m)) p = Some sv' \<and>
    set (garbages sv') = set (garbages sv) \<union> (if p \<in> set st then {h} else {})"
  using assms
proof (induction st arbitrary: m sv)
  case (Cons s st)
  have "map_of (servers (addGarbage s h m)) p = Some (if p = s then sv\<lparr>garbages := garbages sv @ [h]\<rparr> else sv)"
    using Cons.prems by (auto simp: addGarbage_def set_server_def map_of_map_entry)
  from Cons.IH [OF this] show ?case by (cases "p = s") (auto split: if_splits)
qed simp

lemma chunks_addGarbage [simp]: "chunks (ForEachInSlice st (\<lambda>v. addGarbage v h) m) = chunks m"
  by (induction st arbitrary: m) (simp_all add: addGarbage_def set_server_def)

text \<open>
  C11. Writing makes the primary look stale. The primary raises its version with every second write
  it commits, its replicas and the master never do. So after two acknowledged writes the version
  probe of the next lease renewal finds the primary stale, although it holds every byte, and finds
  the replicas current: the master strikes the primary from the locations of the chunk and queues
  its copy for deletion.
\<close>

theorem writes_make_primary_stale:
  assumes start: "cl0 p = Some cs" "vers cs h = Some (v, [])"
    and w1: "performWrite env1 p d1 a1 bs1 cl0 = (Return n1, cl1)" "bid_handle (wc_BufferId a1) = h"
    and w2: "performWrite env2 p d2 a2 bs2 cl1 = (Return n2, cl2)" "bid_handle (wc_BufferId a2) = h"
    and chk: "map_of (chunks (chunkServerManager ma)) h = Some chk" "version chk = v" "isExpired chk now1" "p \<in> set (locations chk)"
    and sv: "map_of (servers (chunkServerManager ma)) p = Some sv"
    and probes: "set probes = probe cl2 now h v ` set (locations chk)"
    and renew: "RPCGetPrimaryAndSecondaryServersInfoHandler now1 now2 probes h ma = (Return ls, ma')"
  shows "\<exists>chk' sv'. map_of (chunks (chunkServerManager ma')) h = Some chk' \<and> p \<notin> set (locations chk') \<and>
    map_of (servers (chunkServerManager ma')) p = Some sv' \<and> h \<in> set (garbages sv') \<and>
    (\<forall>r \<in> set (locations chk) - {p}. cl_vers cl0 r = Some (vers cs) \<longrightarrow> r \<in> set (locations chk'))"
proof -
  obtain cs1 m1 where 1: "cl1 p = Some cs1" "vers cs1 h = map_option (log_vers m1) (vers cs h)" "\<And>r. r \<noteq> p \<Longrightarrow> cl_vers cl1 r = cl_vers cl0 r"
    by (rule vers_performWrite [OF w1(1), of h]) (use start(1) w1(2) in auto)
  obtain cs2 m2 where 2: "cl2 p = Some cs2" "vers cs2 h = map_option (log_vers m2) (vers cs1 h)" "\<And>r. r \<noteq> p \<Longrightarrow> cl_vers cl2 r = cl_vers cl1 r"
    by (rule vers_performWrite [OF w2(1), of h]) (use 1(1) w2(2) in auto)
  have "vers cs2 h = Some (v + 1, [(v, m1)])" using 1(2) 2(2) start(2) by simp
  then have "probe cl2 now h v p = (p, False)" using 2(1) check_ahead [of cs2 h "v + 1" _ v now] by (simp add: probe_def)
  then have "(p, False) \<in> set probes" using probes chk(4) by force
  moreover have "(p, True) \<notin> set probes" using probes \<open>probe cl2 now h v p = (p, False)\<close> by (auto simp: probe_def)
  moreover have good: "(r, True) \<in> set probes" if "r \<in> set (locations chk)" "r \<noteq> p" "cl_vers cl0 r = Some (vers cs)" for r
  proof -
    have "cl_vers cl2 r = Some (vers cs)" using that 1(3) 2(3) by simp
    then obtain cr where "cl2 r = Some cr" "vers cr h = Some (v, [])" using start(2) by (auto simp: cl_view_def)
    then have "probe cl2 now h v r = (r, True)" using check_same [of cr h v "[]" now] by (simp add: probe_def)
    then show ?thesis using probes that(1) by force
  qed
  moreover obtain stale m' where g: "getLeaseHolder now1 now2 probes h (chunkServerManager ma) = (Return (ls, stale), m')"
    and ma': "chunkServerManager ma' = ForEachInSlice stale (\<lambda>v. addGarbage v h) m'"
    using renew
    by (cases "getLeaseHolder now1 now2 probes h (chunkServerManager ma)"; cases "fst (getLeaseHolder now1 now2 probes h (chunkServerManager ma))")
      (auto simp: RPCGetPrimaryAndSecondaryServersInfoHandler_def on_csm_def update_csm_def)
  moreover note gl = getLeaseHolder_stale [OF chk(1,3) g]
  moreover obtain sv' where "map_of (servers (chunkServerManager ma')) p = Some sv'"
    "set (garbages sv') = set (garbages sv) \<union> (if p \<in> set stale then {h} else {})"
    using addGarbage_all [of m' p sv stale h] gl(3) sv ma' by auto
  ultimately show ?thesis using ma' by (force simp: image_iff)
qed

text \<open>A write on a primary without replicas, for the example.\<close>

lemma performWrite_solo:
  assumes r: "ready h bs b ws cs" and c: "info cs h = Some c" "\<not> ci_completed c" and cl: "cl self = Some cs"
    and b: "b = \<lparr>bid_handle = h, bid_timestamp = t\<rparr>" and fit: "0 \<le> off" "off + int (length ws) < ChunkMaxSizeInByte"
  shows "\<exists>n cs' c'. performWrite env self deadline \<lparr>wc_Replicas = [], wc_BufferId = b, wc_Offset = off\<rparr> ws cl = (Return n, cl(self \<mapsto> cs')) \<and>
    ready h (write_at (nat off) ws bs) b ws cs' \<and> info cs' h = Some c' \<and> \<not> ci_completed c'"
proof -
  let ?n = "off + int (length ws)" and ?m = "\<lparr>mu_Data = ws, mu_Offset = off, mu_Type = MutationWrite\<rparr>"
  have p: "\<not> ci_abandoned c" "\<not> ci_isCompressed c" "flat_inv (rootDir cs)" "bytes cs h = Some bs" using r c(1) by (auto simp: ready_def)
  obtain cs1 where w: "writeChunk (ev_now env) h ws MutationWrite off cs = (Return ?n, cs1)"
    "info cs1 = (info cs)(h \<mapsto> written_info (ev_now env) ?n c)"
    by (rule writeChunk_fits [OF p(3) c(1) p(4), of MutationWrite off ws]) (use fit in auto)
  let ?cs2 = "set_info h (log_mutation ?m) cs1"
  have l: "write_local env h off ws cs = (Return ?n, ?cs2)"
    using w(1) c(2) fits_not_too_large [of off ws] fit by (simp add: write_local_eq [OF c(1) p(1,2)])
  have r2: "ready h (write_at (nat off) ws bs) b ws ?cs2" using write_local_ready [OF r fit(1) l] by blast
  let ?up = "\<lambda>c. if ?n > ci_length c then c\<lparr>ci_length := ?n\<rparr> else c"
  have "performWrite env self deadline \<lparr>wc_Replicas = [], wc_BufferId = b, wc_Offset = off\<rparr> ws cl = (Return ?n, cl(self \<mapsto> set_info h ?up ?cs2))"
    using l cl w(2) b by (simp add: performWrite_def at_server_def Let_def)
  moreover have "ready h (write_at (nat off) ws bs) b ws (set_info h ?up ?cs2)" by (rule ready_set_info [OF r2]) simp
  moreover have "info (set_info h ?up ?cs2) h = Some (?up (log_mutation ?m (written_info (ev_now env) ?n c)))" using w(2) by simp
  moreover have "\<not> ci_completed (?up (log_mutation ?m (written_info (ev_now env) ?n c)))" using c(2) fit(2) by (simp add: written_info_def)
  ultimately show ?thesis by blast
qed

lemma lease_renewed:
  assumes "map_of (chunks (chunkServerManager ma)) h = Some chk" and "filter snd probes \<noteq> []"
  shows "\<exists>ls ma'. RPCGetPrimaryAndSecondaryServersInfoHandler now1 now2 probes h ma = (Return ls, ma')"
  using assms
  by (auto simp: RPCGetPrimaryAndSecondaryServersInfoHandler_def on_csm_def getLeaseHolder_def Let_def split: prod.splits)

definition demo_master :: master_server where
  "demo_master = NewMasterServer\<lparr>chunkServerManager := NewChunkServerManager\<lparr>
     servers := [(''p'', \<lparr>lastHeartBeat = None, sv_chunks = [7], garbages = [], serverInfo = \<lparr>Hostname = '''', RoundTripProximityTime = 0\<rparr>\<rparr>)],
     chunks := [(7, \<lparr>expire = 0, primary = ''p'', ck_checksum = '''', ck_path = ''/f'', locations = [''p'', ''s''], ck_length = 1, version = 0\<rparr>)]\<rparr>\<rparr>"

theorem writes_make_primary_stale_witness:
  "\<exists>n1 cl1 n2 cl2 ls ma' sv'.
     performWrite demo_env ''p'' 5 \<lparr>wc_Replicas = [], wc_BufferId = demo_id, wc_Offset = 0\<rparr> [9] (demo_cluster [1] [9]) = (Return n1, cl1) \<and>
     performWrite demo_env ''p'' 5 \<lparr>wc_Replicas = [], wc_BufferId = demo_id, wc_Offset = 0\<rparr> [9] cl1 = (Return n2, cl2) \<and>
     RPCGetPrimaryAndSecondaryServersInfoHandler 1 1 (map (probe cl2 0 7 0) [''p'', ''s'']) 7 demo_master = (Return ls, ma') \<and>
     map_of (servers (chunkServerManager ma')) ''p'' = Some sv' \<and> 7 \<in> set (garbages sv')"
proof -
  let ?a = "\<lparr>wc_Replicas = [], wc_BufferId = demo_id, wc_Offset = 0\<rparr>" and ?cs = "demo_server [1] [9]"
  have fit: "(0::int) \<le> 0" "0 + int (length [9 :: byte]) < ChunkMaxSizeInByte" by (simp_all add: ChunkMaxSizeInByte_def)
  have i: "info ?cs 7 = Some ((new_chunk_info 0)\<lparr>ci_length := 1\<rparr>)" "\<not> ci_completed ((new_chunk_info 0)\<lparr>ci_length := 1\<rparr>)"
    by (simp_all add: demo_server_def new_chunk_info_def)
  have p: "demo_cluster [1] [9] ''p'' = Some ?cs" "demo_cluster [1] [9] ''s'' = Some ?cs" by (simp_all add: demo_cluster_def)
  have v: "vers ?cs 7 = Some (0, [])" using i(1) by (simp add: vers_def new_chunk_info_def)
  obtain n1 cs1 c1 where w1: "performWrite demo_env ''p'' 5 ?a [9] (demo_cluster [1] [9]) = (Return n1, (demo_cluster [1] [9])(''p'' \<mapsto> cs1))"
    "ready 7 (write_at (nat 0) [9] [1]) demo_id [9] cs1" "info cs1 7 = Some c1" "\<not> ci_completed c1"
    using performWrite_solo [where cl = "demo_cluster [1] [9]" and self = "''p''", OF demo_ready i p(1) demo_id_def fit] by blast
  let ?cl1 = "(demo_cluster [1] [9])(''p'' \<mapsto> cs1)"
  have p1: "?cl1 ''p'' = Some cs1" by simp
  obtain n2 cs2 where w2: "performWrite demo_env ''p'' 5 ?a [9] ?cl1 = (Return n2, ?cl1(''p'' \<mapsto> cs2))"
    using performWrite_solo [where cl = ?cl1 and self = "''p''", OF w1(2-4) p1 demo_id_def fit] by blast
  let ?cl2 = "?cl1(''p'' \<mapsto> cs2)" and ?chk = "the (map_of (chunks (chunkServerManager demo_master)) 7)"
  let ?probes = "map (probe ?cl2 0 7 0) [''p'', ''s'']"
  have chk: "map_of (chunks (chunkServerManager demo_master)) 7 = Some ?chk" "version ?chk = 0" "isExpired ?chk 1" "''p'' \<in> set (locations ?chk)"
    and loc: "set ?probes = probe ?cl2 0 7 0 ` set (locations ?chk)"
    and sv: "map_of (servers (chunkServerManager demo_master)) ''p'' = Some (the (map_of (servers (chunkServerManager demo_master)) ''p''))"
    by (simp_all add: demo_master_def isExpired_def)
  have "?cl2 ''s'' = Some ?cs" using p(2) by simp
  then have "probe ?cl2 0 7 0 ''s'' = (''s'', True)" using check_same [OF v] by (simp add: probe_def)
  then have "filter snd ?probes \<noteq> []" by simp
  then obtain ls ma' where renew: "RPCGetPrimaryAndSecondaryServersInfoHandler 1 1 ?probes 7 demo_master = (Return ls, ma')"
    using lease_renewed [OF chk(1)] by blast
  have h: "bid_handle (wc_BufferId ?a) = 7" by (simp add: demo_id_def)
  from writes_make_primary_stale [where ?cl0.0 = "demo_cluster [1] [9]" and p = "''p''" and h = 7, OF p(1) v w1(1) h w2 h chk sv loc renew] w1(1) w2 renew
  show ?thesis by blast
qed

end
