(* ===== verification/Hercules_Client.thy ===== *)
theory Hercules_Client
  imports Lease_Protocol "HOL-Library.Signed_Division"
begin

text \<open>
  The client library, \<^verbatim>\<open>src/hercules/hercules.go\<close>, on a whole system: the master, the chunk
  servers and the client's lease cache. The calls that the master makes while it serves a request
  are run on the chunk servers of the same system. The clock, the network and the random choices
  of one run of an operation are its environment; an operation that loops takes one environment
  per round.
\<close>

section \<open>The system\<close>

record system =
  sys_master :: master_server
  sys_servers :: cluster
  sys_cache :: "(chunk_handle \<times> lease) list"

text \<open>
  \<open>hc_cs\<close> is the environment of the chunk servers, \<open>hc_master\<close> what the network does to calls of
  the master, \<open>hc_perm\<close> the master's random permutation, \<open>hc_pick\<close> the random replica, \<open>hc_id\<close> the
  time stamp of a buffer id, \<open>hc_granted\<close> whether the lease has reached the primary by the time
  the client goes on, and \<open>hc_later\<close> the clock after the master's answer.
\<close>

record client_env =
  hc_cs :: cs_env
  hc_master :: "fate list"
  hc_perm :: "nat list"
  hc_pick :: nat
  hc_id :: time
  hc_granted :: bool
  hc_later :: time

abbreviation hc_now :: "client_env \<Rightarrow> time" where
  "hc_now env \<equiv> ev_now (hc_cs env)"

text \<open>An error with a code of the file system, or an error of a call.\<close>

datatype client_error = Code error_code | CallError go_error | OffsetBeyondFile offset | IsDirectory path | TooMuchData int
  | ExpiredBeforeUse | NoMoreRounds

type_synonym 'a client_result = "(client_error + 'a) \<times> system"

definition bind_client :: "'a client_result \<Rightarrow> ('a \<Rightarrow> system \<Rightarrow> 'b client_result) \<Rightarrow> 'b client_result" where
  "bind_client r f = (case r of (Inl e, s) \<Rightarrow> (Inl e, s) | (Inr x, s) \<Rightarrow> f x s)"

definition with_cache :: "((chunk_handle \<times> lease) list \<Rightarrow> (chunk_handle \<times> lease) list) \<Rightarrow> system \<Rightarrow> system" where
  "with_cache f s = s\<lparr>sys_cache := f (sys_cache s)\<rparr>"

text \<open>A call of a handler of the master, which may act on the whole system.\<close>

definition master_call :: "client_env \<Rightarrow> (system \<Rightarrow> 'a outcome \<times> system) \<Rightarrow> system \<Rightarrow> 'a client_result" where
  "master_call env handler s = (case UnicastToRPCServer DefaultRetryConfig (hc_master env) ''master'' handler s of
     (Return x, s) \<Rightarrow> (Inr x, s)
   | (Fail e, s) \<Rightarrow> (Inl (CallError e), s)
   | (_, s) \<Rightarrow> (Inl (CallError (RpcErr ReplyTimedOut ''master'')), s))"

definition on_master :: "(master_server \<Rightarrow> 'a ms_result) \<Rightarrow> system \<Rightarrow> 'a outcome \<times> system" where
  "on_master f s = (case f (sys_master s) of (r, ma) \<Rightarrow> (r, s\<lparr>sys_master := ma\<rparr>))"

definition server_call :: "client_env \<Rightarrow> server_addr \<Rightarrow> (cluster \<Rightarrow> 'a outcome \<times> cluster) \<Rightarrow> system \<Rightarrow> 'a client_result" where
  "server_call env addr handler s = (case call (hc_cs env) addr handler (sys_servers s) of
     (Return x, cl) \<Rightarrow> (Inr x, s\<lparr>sys_servers := cl\<rparr>)
   | (Fail e, cl) \<Rightarrow> (Inl (CallError e), s\<lparr>sys_servers := cl\<rparr>)
   | (_, cl) \<Rightarrow> (Inl (CallError (RpcErr ReplyTimedOut addr)), s\<lparr>sys_servers := cl\<rparr>))"

section \<open>Master handlers that call chunk servers\<close>

text \<open>The calls that create a new chunk, with the errors they return.\<close>

fun create_calls :: "client_env \<Rightarrow> chunk_handle \<Rightarrow> server_addr list \<Rightarrow> cluster \<Rightarrow> (server_addr \<times> go_error) list \<times> cluster" where
  "create_calls env h [] cl = ([], cl)"
| "create_calls env h (a # as) cl = (case call (hc_cs env) a (at_server a (RPCCreateChunkHandler (hc_now env) h)) cl of
     (Fail e, cl) \<Rightarrow> (case create_calls env h as cl of (es, cl) \<Rightarrow> ((a, e) # es, cl))
   | (_, cl) \<Rightarrow> create_calls env h as cl)"

definition serve_GetChunkHandle :: "client_env \<Rightarrow> path \<Rightarrow> int \<Rightarrow> system \<Rightarrow> chunk_handle outcome \<times> system" where
  "serve_GetChunkHandle env p idx s =
     (let m = chunkServerManager (sys_master s); h = numberOfCreatedChunkHandle m;
          addrs = (case chooseServers (hc_perm env) (int MinimumReplicationFactor + 1) m of
             Return addrs \<Rightarrow> FilterSlice addrs (\<lambda>x. x \<noteq> '''') | _ \<Rightarrow> []);
          (errs, cl) = create_calls env h addrs (sys_servers s);
          (r, ma) = RPCGetChunkHandleHandler (hc_now env) (hc_perm env) (map_of errs) p idx (sys_master s)
      in (r, s\<lparr>sys_master := ma,
           sys_servers := (if numberOfCreatedChunkHandle (chunkServerManager ma) = h then sys_servers s else cl)\<rparr>))"

text \<open>The version checks of a lease renewal, in the order of the locations.\<close>

fun probe_calls :: "client_env \<Rightarrow> chunk_handle \<Rightarrow> chunk_version \<Rightarrow> server_addr list \<Rightarrow> cluster \<Rightarrow> (server_addr \<times> bool) list \<times> cluster" where
  "probe_calls env h v [] cl = ([], cl)"
| "probe_calls env h v (a # as) cl =
     (case call (hc_cs env) a (at_server a (RPCCheckChunkVersionHandler (hc_now env) h v)) cl of (r, cl) \<Rightarrow>
       (case probe_calls env h v as cl of (ps, cl) \<Rightarrow> ((a, r = Return False) # ps, cl)))"

definition serve_GetLease :: "client_env \<Rightarrow> chunk_handle \<Rightarrow> system \<Rightarrow> lease outcome \<times> system" where
  "serve_GetLease env h s =
     (let (probes, cl) = (case getChunk h (chunkServerManager (sys_master s)) of
          Some chk \<Rightarrow> if isExpired chk (hc_now env) then probe_calls env h (version chk) (locations chk) (sys_servers s)
            else ([], sys_servers s)
        | None \<Rightarrow> ([], sys_servers s))
      in case RPCGetPrimaryAndSecondaryServersInfoHandler (hc_now env) (hc_now env) probes h (sys_master s) of
          (Return ls, ma) \<Rightarrow> (Return ls, s\<lparr>sys_master := ma, sys_servers := (if hc_granted env
             then snd (call (hc_cs env) (l_Primary ls) (at_server (l_Primary ls)
                (RPCGrantLeaseHandler (l_Expire ls) (l_Primary ls) (l_Secondaries ls) (l_Handle ls))) cl)
             else cl)\<rparr>)
        | (r, ma) \<Rightarrow> (r, s\<lparr>sys_master := ma, sys_servers := cl\<rparr>))"

section \<open>Leases\<close>

text \<open>A new client, joining a master and its servers, starts with an empty cache.\<close>

definition NewHerculesClient :: "master_server \<Rightarrow> cluster \<Rightarrow> system" where
  "NewHerculesClient ma cl = \<lparr>sys_master = ma, sys_servers = cl, sys_cache = []\<rparr>"

definition cleanLease :: "time \<Rightarrow> system \<Rightarrow> system" where
  "cleanLease now s = IterateOverMap (sys_cache s) (\<lambda>h ls s.
     if IsExpired ls now then with_cache (AList.delete (l_Handle ls)) s else s) s"

definition GetChunkServers :: "client_env \<Rightarrow> chunk_handle \<Rightarrow> system \<Rightarrow> lease client_result" where
  "GetChunkServers env h s =
     (let fetch = (\<lambda>s. bind_client (master_call env (serve_GetLease env h) s) (\<lambda>r s.
        let newLease = \<lparr>l_Expire = l_Expire r, l_Primary = l_Primary r, l_Secondaries = l_Secondaries r, l_Handle = h, l_InUse = False\<rparr>
        in if IsExpired newLease (hc_later env) then (Inl ExpiredBeforeUse, s)
           else (Inr newLease, with_cache (AList.update h newLease) s)))
      in case map_of (sys_cache s) h of
        Some ls \<Rightarrow> if \<not> IsExpired ls (hc_now env) then (Inr ls, s) else fetch (with_cache (AList.delete h) s)
      | None \<Rightarrow> fetch s)"

text \<open>The second component of the result is the offset that the caller goes on with.\<close>

definition ObtainLease :: "client_env \<Rightarrow> chunk_handle \<Rightarrow> offset \<Rightarrow> system \<Rightarrow> (lease \<times> offset) client_result" where
  "ObtainLease env h offset s =
     (let get = (\<lambda>s. (case GetChunkServers env h s of
          (Inr ls, s) \<Rightarrow> (Inr (ls, 0), s)
        | (Inl _, s) \<Rightarrow> (Inl (Code UnknownError), s)))
      in case map_of (sys_cache s) h of
        Some ls \<Rightarrow> if \<not> IsExpired ls (hc_now env) then (Inr (ls, 0), s) else get (with_cache (AList.delete h) s)
      | None \<Rightarrow> get s)"

section \<open>Names\<close>

definition GetChunkHandle :: "client_env \<Rightarrow> path \<Rightarrow> int \<Rightarrow> system \<Rightarrow> chunk_handle client_result" where
  "GetChunkHandle env p idx = master_call env (serve_GetChunkHandle env p idx)"

definition MkDir :: "client_env \<Rightarrow> path \<Rightarrow> system \<Rightarrow> unit client_result" where
  "MkDir env p = master_call env (on_master (RPCMkdirHandler p))"

definition CreateFile :: "client_env \<Rightarrow> path \<Rightarrow> system \<Rightarrow> unit client_result" where
  "CreateFile env p = master_call env (on_master (RPCCreateFileHandler p))"

definition List :: "client_env \<Rightarrow> path \<Rightarrow> system \<Rightarrow> path_info list client_result" where
  "List env p = master_call env (on_master (RPCListHandler p))"

definition DeleteFile :: "client_env \<Rightarrow> path \<Rightarrow> bool \<Rightarrow> system \<Rightarrow> unit client_result" where
  "DeleteFile env p deleteHandle = master_call env (on_master (RPCDeleteFileHandler p deleteHandle))"

definition RemoveDir :: "client_env \<Rightarrow> path \<Rightarrow> system \<Rightarrow> unit client_result" where
  "RemoveDir env p = master_call env (on_master (RPCRemoveDirHandler p))"

definition RenameFile :: "client_env \<Rightarrow> path \<Rightarrow> path \<Rightarrow> system \<Rightarrow> unit client_result" where
  "RenameFile env source target = master_call env (on_master (RPCRenameHandler source target))"

text \<open>The number of chunks, whether it is a directory, and the length.\<close>

definition GetFile :: "client_env \<Rightarrow> path \<Rightarrow> system \<Rightarrow> (int \<times> bool \<times> int) client_result" where
  "GetFile env p = master_call env (on_master (RPCGetFileInfoHandler p))"

section \<open>Reading\<close>

text \<open>
  A read returns the number of bytes, an error if there is one, and the buffer. When the server
  reports the end of the file the buffer is left as it is.
\<close>

type_synonym read_result = "int \<times> client_error option \<times> byte list"

definition ReadChunk :: "client_env \<Rightarrow> chunk_handle \<Rightarrow> offset \<Rightarrow> byte list \<Rightarrow> system \<Rightarrow> read_result \<times> system" where
  "ReadChunk env h offset buf s =
     (let readLength = (if ChunkMaxSizeInByte - offset > int (length buf) then int (length buf) else ChunkMaxSizeInByte - offset)
      in case master_call env (on_master (RPCGetReplicasHandler h)) s of
        (Inl e, s) \<Rightarrow> ((0, Some (Code UnknownError), buf), s)
      | (Inr locs, s) \<Rightarrow>
          if locs = [] then ((0, Some (Code UnknownError), buf), s)
          else let chosen = locs ! (hc_pick env mod length locs) in
            (case server_call env chosen (at_server chosen (RPCReadChunkHandler (hc_now env) h offset readLength)) s of
               (Inl e, s) \<Rightarrow> ((0, Some (Code UnknownError), buf), s)
             | (Inr rp, s) \<Rightarrow>
                 if rr_ErrorCode rp = ReadEOF then ((rr_Length rp, Some (Code ReadEOF), buf), s)
                 else ((rr_Length rp, None, take (length buf) (rr_Data rp) @ drop (length (rr_Data rp)) buf), s)))"

text \<open>
  The loop over the chunks. A round that returns without an error has read at least one byte, so
  one round per byte of the buffer is enough.
\<close>

fun read_loop :: "nat \<Rightarrow> (nat \<Rightarrow> client_env) \<Rightarrow> path \<Rightarrow> int \<Rightarrow> offset \<Rightarrow> nat \<Rightarrow> byte list \<Rightarrow> system \<Rightarrow> read_result \<times> system" where
  "read_loop 0 env p cnt offset pos buf s = ((-1, Some NoMoreRounds, buf), s)"
| "read_loop (Suc fuel) env p cnt offset pos buf s =
     (if \<not> pos < length buf then ((int pos, None, buf), s)
      else let index = offset sdiv ChunkMaxSizeInByte; chunkOffset = offset smod ChunkMaxSizeInByte in
        if index > cnt then ((-1, Some (Code ReadEOF), buf), s)
        else (case GetChunkHandle (env fuel) p index s of
            (Inl e, s) \<Rightarrow> ((-1, Some e, buf), s)
          | (Inr h, s) \<Rightarrow>
              (case ReadChunk (env fuel) h chunkOffset (drop pos buf) s of
                 ((rn, None, part), s) \<Rightarrow>
                   read_loop fuel env p cnt (offset + rn) (nat (int pos + rn)) (take pos buf @ part) s
               | ((rn, Some e, part), s) \<Rightarrow>
                   if e = Code ReadEOF then ((int pos + rn, Some (CallError (Os EOF)), take pos buf @ part), s)
                   else ((-1, Some e, take pos buf @ part), s))))"

definition Read :: "client_env \<Rightarrow> (nat \<Rightarrow> client_env) \<Rightarrow> path \<Rightarrow> offset \<Rightarrow> byte list \<Rightarrow> system \<Rightarrow> read_result \<times> system" where
  "Read env0 env p offset buf s = (case GetFile env0 p s of
     (Inl e, s) \<Rightarrow> ((-1, Some e, buf), s)
   | (Inr (cnt, isDir, len), s) \<Rightarrow>
       if offset sdiv ChunkMaxSizeInByte > cnt then ((-1, Some (OffsetBeyondFile offset), buf), s)
       else if isDir then ((-1, Some (IsDirectory p), buf), s)
       else read_loop (Suc (length buf)) env p cnt offset 0 buf s)"

section \<open>Writing\<close>

text \<open>
  Sending the data to every server of the list, each with the others as its chain; errors are only
  logged.
\<close>

fun forward_all :: "client_env \<Rightarrow> buffer_id \<Rightarrow> byte list \<Rightarrow> server_addr list \<Rightarrow> server_addr list \<Rightarrow> system \<Rightarrow> system" where
  "forward_all env b buf all [] s = s"
| "forward_all env b buf all (a # as) s =
     forward_all env b buf all as (snd (server_call env a (RPCForwardDataHandler (hc_cs env) a b buf (FilterSlice all (\<lambda>v. v \<noteq> a))) s))"

text \<open>A lease without a primary is completed in the cache, where it is kept by reference.\<close>

definition set_lease :: "chunk_handle \<Rightarrow> lease \<Rightarrow> system \<Rightarrow> system" where
  "set_lease h ls = with_cache (AList.map_entry h (\<lambda>_. ls))"

text \<open>
  The attempts; \<open>k\<close> counts those left of three. The offset of an attempt is the one that
  \<^verbatim>\<open>ObtainLease\<close> returned.
\<close>

fun write_attempts :: "nat \<Rightarrow> (nat \<Rightarrow> client_env) \<Rightarrow> chunk_handle \<Rightarrow> offset \<Rightarrow> byte list \<Rightarrow> system \<Rightarrow> int client_result" where
  "write_attempts 0 env h off buf s = (Inl (Code LeaseExpired), s)"
| "write_attempts (Suc k) env h off buf s =
     bind_client (ObtainLease (env k) h off s) (\<lambda>(writeLease, off) s.
       let servers = FilterSlice (l_Secondaries writeLease @ [l_Primary writeLease]) (\<lambda>v. v \<noteq> '''') in
       if servers = [] then (Inl (Code UnknownError), s)
       else let (prim, servers, s) = (if l_Primary writeLease = ''''
                  then (hd servers, tl servers, set_lease h (writeLease\<lparr>l_Primary := hd servers\<rparr>) s)
                  else (l_Primary writeLease, servers, s));
                b = NewDownloadBufferId (hc_id (env k)) h;
                s = forward_all (env k) b buf servers servers s
            in bind_client (server_call (env k) prim (RPCWriteChunkHandler (hc_cs (env k)) prim
                  \<lparr>wc_Replicas = servers, wc_BufferId = b, wc_Offset = off\<rparr>) s) (\<lambda>(n, code) s.
                 if code = WriteExceedChunkSize then (Inl (Code WriteExceedChunkSize), s)
                 else if code = LeaseExpired
                 then let s = with_cache (AList.delete h) s in
                   if k = 2 then write_attempts k env h off buf s else (Inl (Code LeaseExpired), s)
                 else (Inr n, s)))"

definition WriteChunk :: "(nat \<Rightarrow> client_env) \<Rightarrow> chunk_handle \<Rightarrow> offset \<Rightarrow> byte list \<Rightarrow> system \<Rightarrow> int client_result" where
  "WriteChunk env h off buf s =
     (if int (length buf) + off > ChunkMaxSizeInByte then (Inl (TooMuchData (int (length buf) + off)), s)
      else write_attempts 3 env h off buf s)"

text \<open>
  Up to two attempts at one piece: its length, or the information that the chunk is full, or an
  error that ends the whole write. Only an expired lease is tried again.
\<close>

datatype piece = Written int | ChunkFull | GiveUp client_error

fun write_piece :: "nat \<Rightarrow> (nat \<Rightarrow> nat \<Rightarrow> client_env) \<Rightarrow> chunk_handle \<Rightarrow> offset \<Rightarrow> byte list \<Rightarrow> system \<Rightarrow> piece \<times> system" where
  "write_piece 0 env h off buf s = (GiveUp (Code LeaseExpired), s)"
| "write_piece (Suc k) env h off buf s = (case WriteChunk (env k) h off buf s of
     (Inr n, s) \<Rightarrow> (Written n, s)
   | (Inl e, s) \<Rightarrow>
       if e = Code WriteExceedChunkSize then (ChunkFull, s)
       else if e \<noteq> Code LeaseExpired \<or> k = 0 then (GiveUp e, s)
       else write_piece k env h off buf s)"

text \<open>\<open>cnt\<close> is the number of chunks as the client last heard of it; it is only refreshed.\<close>

fun write_loop :: "nat \<Rightarrow> (nat \<Rightarrow> nat \<Rightarrow> nat \<Rightarrow> client_env) \<Rightarrow> path \<Rightarrow> int \<Rightarrow> offset \<Rightarrow> nat \<Rightarrow> byte list \<Rightarrow> system \<Rightarrow> (nat \<times> int) client_result" where
  "write_loop 0 env p cnt off pos buf s = (Inl NoMoreRounds, s)"
| "write_loop (Suc fuel) env p cnt off pos buf s =
     (if \<not> pos < length buf then (Inr (pos, cnt), s)
      else let index = off sdiv ChunkMaxSizeInByte; chunkOffset = off smod ChunkMaxSizeInByte;
               (cnt, s) = (if index \<ge> cnt
                 then (case GetFile (env fuel 0 0) p s of (Inr (n, _), s) \<Rightarrow> (n, s) | (Inl _, s) \<Rightarrow> (cnt, s))
                 else (cnt, s))
        in bind_client (GetChunkHandle (env fuel 0 0) p index s) (\<lambda>h s.
             let writeMax = ChunkMaxSizeInByte - chunkOffset;
                 writeLength = (if int pos + writeMax > int (length buf) then int (length buf) - int pos else writeMax)
             in case write_piece 2 (env fuel) h chunkOffset (take (nat writeLength) (drop pos buf)) s of
                  (GiveUp e, s) \<Rightarrow> (Inl e, s)
                | (ChunkFull, s) \<Rightarrow> write_loop fuel env p cnt ((index + 1) * ChunkMaxSizeInByte) pos buf s
                | (Written n, s) \<Rightarrow> write_loop fuel env p cnt (off + n) (nat (int pos + n)) buf s))"

definition Write :: "nat \<Rightarrow> client_env \<Rightarrow> (nat \<Rightarrow> nat \<Rightarrow> nat \<Rightarrow> client_env) \<Rightarrow> path \<Rightarrow> offset \<Rightarrow> byte list \<Rightarrow> system \<Rightarrow> int client_result" where
  "Write fuel env0 env p off buf s =
     bind_client (GetFile env0 p s) (\<lambda>(cnt, isDir, len) s.
       if off sdiv ChunkMaxSizeInByte > cnt then (Inl (OffsetBeyondFile off), s)
       else if isDir then (Inl (IsDirectory p), s)
       else bind_client (write_loop fuel env p cnt off 0 buf s) (\<lambda>(pos, cnt) s.
         let newLength = off + int (length buf);
             newChunks = (if buf = [] then cnt else (newLength - 1) sdiv ChunkMaxSizeInByte + 1)
         in if newLength > len
            then (Inr (int pos), snd (master_call env0 (on_master (RPCUpdateFileMetadataHandler p newLength newChunks)) s))
            else (Inr (int pos), s)))"

section \<open>Appending\<close>

fun append_attempts :: "nat \<Rightarrow> (nat \<Rightarrow> client_env) \<Rightarrow> chunk_handle \<Rightarrow> byte list \<Rightarrow> system \<Rightarrow> offset client_result" where
  "append_attempts 0 env h buf s = (Inl (Code LeaseExpired), s)"
| "append_attempts (Suc k) env h buf s =
     bind_client (ObtainLease (env k) h 0 s) (\<lambda>(appendLease, _) s.
       if l_Primary appendLease = '''' \<and> l_Secondaries appendLease = [] then (Inl (Code NotAvailableForCopy), s)
       else let (appendLease, s) = (if l_Primary appendLease = ''''
                  then let ls = appendLease\<lparr>l_Primary := hd (l_Secondaries appendLease), l_Secondaries := tl (l_Secondaries appendLease)\<rparr>
                       in (ls, set_lease h ls s)
                  else (appendLease, s));
                prim = l_Primary appendLease; secs = l_Secondaries appendLease;
                b = NewDownloadBufferId (hc_id (env k)) h
            in bind_client (server_call (env k) prim (RPCForwardDataHandler (hc_cs (env k)) prim b buf secs) s) (\<lambda>_ s.
               (case server_call (env k) prim (RPCAppendChunkHandler (hc_cs (env k)) prim secs b) s of
                  (Inl e, s) \<Rightarrow> (Inl (Code UnknownError), s)
                | (Inr (off, code), s) \<Rightarrow>
                    if code = LeaseExpired
                    then let s = with_cache (AList.delete h) s in
                      if k = 1 then append_attempts k env h buf s else (Inl (Code LeaseExpired), s)
                    else if code = AppendExceedChunkSize then (Inl (Code AppendExceedChunkSize), s)
                    else (Inr off, s))))"

definition AppendChunk :: "(nat \<Rightarrow> client_env) \<Rightarrow> chunk_handle \<Rightarrow> byte list \<Rightarrow> system \<Rightarrow> offset client_result" where
  "AppendChunk env h buf s =
     (if int (length buf) > AppendMaxSizeInByte then (Inl (Code UnknownError), s) else append_attempts 2 env h buf s)"

text \<open>The loop goes on with the next chunk as long as chunks turn out to be full.\<close>

fun append_loop :: "nat \<Rightarrow> (nat \<Rightarrow> nat \<Rightarrow> client_env) \<Rightarrow> path \<Rightarrow> int \<Rightarrow> byte list \<Rightarrow> system \<Rightarrow> (int \<times> offset) client_result" where
  "append_loop 0 env p start buf s = (Inl NoMoreRounds, s)"
| "append_loop (Suc fuel) env p start buf s =
     bind_client (GetChunkHandle (env fuel 0) p start s) (\<lambda>h s.
       (case AppendChunk (env fuel) h buf s of
          (Inr off, s) \<Rightarrow> (Inr (start, off), s)
        | (Inl e, s) \<Rightarrow> if e = Code AppendExceedChunkSize then append_loop fuel env p (start + 1) buf s else (Inl e, s)))"

text \<open>Unlike \<^verbatim>\<open>Write\<close>, \<^verbatim>\<open>Append\<close> returns the error of the metadata update.\<close>

definition Append :: "nat \<Rightarrow> client_env \<Rightarrow> (nat \<Rightarrow> nat \<Rightarrow> client_env) \<Rightarrow> path \<Rightarrow> byte list \<Rightarrow> system \<Rightarrow> offset client_result" where
  "Append fuel env0 env p buf s =
     (if int (length buf) > AppendMaxSizeInByte then (Inl (TooMuchData (int (length buf))), s)
      else bind_client (GetFile env0 p s) (\<lambda>(cnt, isDir, len) s.
        bind_client (append_loop fuel env p (max (cnt - 1) 0) buf s) (\<lambda>(start, chunkOffset) s.
          let off = start * ChunkMaxSizeInByte + chunkOffset
          in bind_client (master_call env0 (on_master (RPCUpdateFileMetadataHandler p (off + int (length buf)) (start + 1))) s)
               (\<lambda>_ s. (Inr off, s)))))"

end
