(* ===== verification/Client_Writes.thy ===== *)
theory Client_Writes
  imports Hercules_Client Chunk_Server_Lifecycle
begin

text \<open>
  Writing through the client library: staging the data on all replicas, committing it at the
  primary, and where in the chunk it ends up.
\<close>

section \<open>Staging along the chain\<close>

text \<open>Two servers that differ in their staging buffer only, with the given change of its contents.\<close>

definition restaged :: "((buffer_id \<rightharpoonup> byte list) \<Rightarrow> (buffer_id \<rightharpoonup> byte list)) \<Rightarrow> chunk_server \<Rightarrow> chunk_server \<Rightarrow> bool" where
  "restaged f cs cs' \<longleftrightarrow> (\<exists>db. cs' = cs\<lparr>downloadBuffer := db\<rparr> \<and> staged db = f (staged (downloadBuffer cs)) \<and>
     (db_inv (downloadBuffer cs) \<longrightarrow> db_inv db))"

lemma restaged_simps:
  assumes "restaged f cs cs'"
  shows "rootDir cs' = rootDir cs" "cs_chunks cs' = cs_chunks cs" "leases cs' = leases cs" "staged (downloadBuffer cs') = f (staged (downloadBuffer cs))"
  using assms by (auto simp: restaged_def)

lemma restaged_trans: "restaged f cs cs' \<Longrightarrow> restaged id cs' cs'' \<Longrightarrow> restaged f cs cs''"
  by (auto simp: restaged_def)

lemma restaged_inv: "restaged f cs cs' \<Longrightarrow> cs_inv cs \<Longrightarrow> cs_inv cs'"
  by (auto simp: restaged_def cs_inv_buffer cs_invD)

lemma restaged_refl: "restaged id cs cs"
  by (auto simp: restaged_def intro: exI [of _ "downloadBuffer cs"])

definition added :: "buffer_id \<Rightarrow> byte list \<Rightarrow> (buffer_id \<rightharpoonup> byte list) \<Rightarrow> (buffer_id \<rightharpoonup> byte list)" where
  "added b ws m = m(b \<mapsto> ws)"

lemma added_apply [simp]: "added b ws m b = Some ws"
  by (simp add: added_def)

text \<open>One server stores the data, or has it already.\<close>

lemma stage_here:
  assumes "cl a = Some cs"
  shows "\<exists>cs'. at_server a (\<lambda>cs. case getBuffer now b cs of
          (Some _, cs) \<Rightarrow> (Return True, cs)
        | (None, cs) \<Rightarrow> (Return False, cs\<lparr>downloadBuffer := Set now b ws (downloadBuffer cs)\<rparr>)) cl =
      (Return (staged (downloadBuffer cs) b \<noteq> None), cl(a \<mapsto> cs')) \<and>
    restaged (if staged (downloadBuffer cs) b = None then (added b ws) else id) cs cs'"
proof -
  obtain db where "getBuffer now b cs = (staged (downloadBuffer cs) b, cs\<lparr>downloadBuffer := db\<rparr>)" "staged db = staged (downloadBuffer cs)"
    "db_inv (downloadBuffer cs) \<longrightarrow> db_inv db" by (rule getBuffer_eq [of now b cs]) blast
  note g = this
  show ?thesis
  proof (cases "staged (downloadBuffer cs) b")
    case None
    then show ?thesis using assms g
      by (intro exI [of _ "cs\<lparr>downloadBuffer := Set now b ws db\<rparr>"]) (auto simp: at_server_def restaged_def staged_Set added_def Set_inv)
  next
    case (Some x)
    then show ?thesis using assms g by (intro exI [of _ "cs\<lparr>downloadBuffer := db\<rparr>"]) (auto simp: at_server_def restaged_def)
  qed
qed

lemma forward_new:
  assumes "\<And>r. r \<in> set (a # rs) \<Longrightarrow> \<exists>cs. cl r = Some cs \<and> staged (downloadBuffer cs) b = None" and "distinct (a # rs)"
    and "\<And>r. \<exists>fates. ev_net env r = Delivered # fates"
  shows "\<exists>cl'. RPCForwardDataHandler env a b ws rs cl = (Return (), cl') \<and>
    (\<forall>r\<in>set (a # rs). \<exists>cs cs'. cl r = Some cs \<and> cl' r = Some cs' \<and> restaged (added b ws) cs cs') \<and>
    (\<forall>r. r \<notin> set (a # rs) \<longrightarrow> cl' r = cl r)"
  using assms(1,2)
proof (induction rs arbitrary: a cl)
  case Nil
  obtain cs where cs: "cl a = Some cs" "staged (downloadBuffer cs) b = None" using Nil(1) [of a] by auto
  obtain cs' where "at_server a (\<lambda>cs. case getBuffer (ev_now env) b cs of
        (Some _, cs) \<Rightarrow> (Return True, cs)
      | (None, cs) \<Rightarrow> (Return False, cs\<lparr>downloadBuffer := Set (ev_now env) b ws (downloadBuffer cs)\<rparr>)) cl = (Return False, cl(a \<mapsto> cs'))"
    "restaged (added b ws) cs cs'"
    using stage_here [of cl a cs "ev_now env" b ws] cs by auto
  with cs show ?case by (simp add: RPCForwardDataHandler.simps)
next
  case (Cons r rs)
  obtain cs where cs: "cl a = Some cs" "staged (downloadBuffer cs) b = None" using Cons.prems(1) [of a] by auto
  obtain cs' where st: "at_server a (\<lambda>cs. case getBuffer (ev_now env) b cs of
        (Some _, cs) \<Rightarrow> (Return True, cs)
      | (None, cs) \<Rightarrow> (Return False, cs\<lparr>downloadBuffer := Set (ev_now env) b ws (downloadBuffer cs)\<rparr>)) cl = (Return False, cl(a \<mapsto> cs'))"
    "restaged (added b ws) cs cs'"
    using stage_here [of cl a cs "ev_now env" b ws] cs by auto
  let ?cl = "cl(a \<mapsto> cs')"
  have pre: "\<exists>cs. ?cl r' = Some cs \<and> staged (downloadBuffer cs) b = None" if "r' \<in> set (r # rs)" for r'
    using Cons.prems(1) [of r'] Cons.prems(2) that by auto
  have "distinct (r # rs)" using Cons.prems(2) by simp
  from Cons.IH [where cl = ?cl, OF pre this] obtain cl' where f: "RPCForwardDataHandler env r b ws rs ?cl = (Return (), cl')"
    "\<forall>r'\<in>set (r # rs). \<exists>cs cs'. ?cl r' = Some cs \<and> cl' r' = Some cs' \<and> restaged (added b ws) cs cs'"
    "\<forall>r'. r' \<notin> set (r # rs) \<longrightarrow> cl' r' = ?cl r'"
    by blast
  obtain fates where "ev_net env r = Delivered # fates" using assms(3) by blast
  then have "call env r (RPCForwardDataHandler env r b ws rs) ?cl = (Return (), cl')" by (rule call_delivered) (rule f(1))
  then have "RPCForwardDataHandler env a b ws (r # rs) cl = (Return (), cl')"
    using st(1) by (simp add: RPCForwardDataHandler.simps [of env a] del: fun_upd_apply)
  moreover have "\<exists>cs cs'. cl r' = Some cs \<and> cl' r' = Some cs' \<and> restaged (added b ws) cs cs'" if "r' \<in> set (a # r # rs)" for r'
    using that f(2,3) Cons.prems(2) cs(1) st(2) by (cases "r' = a") auto
  moreover have "cl' r' = cl r'" if "r' \<notin> set (a # r # rs)" for r' using that f(3) by auto
  ultimately show ?case by blast
qed

lemma forward_known:
  assumes "cl a = Some cs" and "staged (downloadBuffer cs) b \<noteq> None"
  shows "\<exists>cs'. RPCForwardDataHandler env a b ws rs cl = (Return (), cl(a \<mapsto> cs')) \<and> restaged id cs cs'"
  using stage_here [of cl a cs "ev_now env" b ws] assms by (auto simp: RPCForwardDataHandler.simps [of env a] simp del: fun_upd_apply)

lemma server_call_delivered:
  assumes "\<And>r. \<exists>fates. ev_net (hc_cs env) r = Delivered # fates" and "f (sys_servers s) = (Return x, cl)"
  shows "server_call env a f s = (Inr x, s\<lparr>sys_servers := cl\<rparr>)"
proof -
  obtain fates where "ev_net (hc_cs env) a = Delivered # fates" using assms(1) by blast
  then have "call (hc_cs env) a f (sys_servers s) = (Return x, cl)" by (rule call_delivered) (rule assms(2))
  then show ?thesis by (simp add: server_call_def)
qed

text \<open>The cluster after staging: every listed server holds the data, nothing else has changed.\<close>

definition staged_on :: "buffer_id \<Rightarrow> byte list \<Rightarrow> server_addr set \<Rightarrow> cluster \<Rightarrow> cluster \<Rightarrow> bool" where
  "staged_on b ws R cl cl' \<longleftrightarrow> (\<forall>r. r \<notin> R \<longrightarrow> cl' r = cl r) \<and>
     (\<forall>r\<in>R. \<exists>cs cs'. cl r = Some cs \<and> cl' r = Some cs' \<and> restaged (added b ws) cs cs')"

lemma forward_all_known:
  assumes net: "\<And>r. \<exists>fates. ev_net (hc_cs env) r = Delivered # fates" and "staged_on b ws R cl (sys_servers s)" and "set as \<subseteq> R"
  shows "\<exists>cl'. forward_all env b ws all as s = s\<lparr>sys_servers := cl'\<rparr> \<and> staged_on b ws R cl cl'"
  using assms(2,3)
proof (induction as arbitrary: s)
  case Nil
  then show ?case by (intro exI [of _ "sys_servers s"]) simp
next
  case (Cons a as)
  obtain cs cs1 where cs: "cl a = Some cs" "sys_servers s a = Some cs1" "restaged (added b ws) cs cs1"
    using Cons.prems by (auto simp: staged_on_def)
  then have "staged (downloadBuffer cs1) b \<noteq> None" by (simp add: restaged_simps)
  with forward_known [of "sys_servers s" a cs1 b] cs(2) obtain cs2
    where f: "RPCForwardDataHandler (hc_cs env) a b ws (FilterSlice all (\<lambda>v. v \<noteq> a)) (sys_servers s) = (Return (), (sys_servers s)(a \<mapsto> cs2))"
      "restaged id cs1 cs2" by blast
  let ?s = "s\<lparr>sys_servers := (sys_servers s)(a \<mapsto> cs2)\<rparr>"
  have "server_call env a (RPCForwardDataHandler (hc_cs env) a b ws (FilterSlice all (\<lambda>v. v \<noteq> a))) s = (Inr (), ?s)"
    by (rule server_call_delivered [where s = s and env = env]) (use net f(1) in auto)
  moreover have "staged_on b ws R cl (sys_servers ?s)"
    using Cons.prems cs restaged_trans [OF cs(3) f(2)] by (auto simp: staged_on_def)
  ultimately show ?case using Cons.IH [of ?s] Cons.prems(2) by (simp del: fun_upd_apply)
qed

lemma forward_all_stages:
  assumes net: "\<And>r. \<exists>fates. ev_net (hc_cs env) r = Delivered # fates" and "distinct all" and "all = a # as"
    and "\<And>r. r \<in> set all \<Longrightarrow> \<exists>cs. sys_servers s r = Some cs \<and> staged (downloadBuffer cs) b = None"
  shows "\<exists>cl'. forward_all env b ws all all s = s\<lparr>sys_servers := cl'\<rparr> \<and> staged_on b ws (set all) (sys_servers s) cl'"
proof -
  have others: "FilterSlice all (\<lambda>v. v \<noteq> a) = as" using assms(2,3) by (auto simp: FilterSlice_eq filter_id_conv)
  obtain cl1 where f: "RPCForwardDataHandler (hc_cs env) a b ws as (sys_servers s) = (Return (), cl1)" "staged_on b ws (set all) (sys_servers s) cl1"
    using forward_new [where cl = "sys_servers s" and a = a and rs = as and b = b and ws = ws and env = "hc_cs env"] assms
    unfolding staged_on_def by blast
  have "server_call env a (RPCForwardDataHandler (hc_cs env) a b ws (FilterSlice all (\<lambda>v. v \<noteq> a))) s = (Inr (), s\<lparr>sys_servers := cl1\<rparr>)"
    unfolding others by (rule server_call_delivered [where s = s and env = env]) (use net f(1) in auto)
  with forward_all_known [OF net, of b ws "set all" "sys_servers s" "s\<lparr>sys_servers := cl1\<rparr>" as all] f(2) assms(3) show ?thesis by auto
qed

section \<open>Committing at the primary\<close>

text \<open>A request with its data staged everywhere and an unexpired lease succeeds.\<close>

lemma RPCWriteChunk_delivers:
  assumes hold: "replicas_hold h {bs} b ws (insert self (set (wc_Replicas args))) cl" and b: "wc_BufferId args = b"
    and off: "0 \<le> wc_Offset args" and fits: "wc_Offset args + int (length ws) \<le> ChunkMaxSizeInByte"
    and net: "\<And>r. \<exists>fates. ev_net env r = Delivered # fates"
    and cs: "cl self = Some cs" "info cs h = Some c" "\<not> ci_completed c"
    and lease: "lifo_inv (leases cs)" "fst (split_lease h (contents (leases cs))) = Some l" "\<not> IsExpired l (ev_now env)" "ev_written env < l_Expire l"
  shows "\<exists>cl'. RPCWriteChunkHandler env self args cl = (Return (wc_Offset args + int (length ws), Success), cl') \<and>
    replicas_hold h {write_at (nat (wc_Offset args)) ws bs} b ws (insert self (set (wc_Replicas args))) cl'"
proof -
  let ?R = "insert self (set (wc_Replicas args))" and ?n = "wc_Offset args + int (length ws)"
  have "ready h bs b ws cs" using hold cs(1) by (auto simp: replicas_hold_def)
  then have r: "bid_handle b = h" "staged (downloadBuffer cs) b = Some ws" by (auto simp: ready_def)
  obtain db where db: "getBuffer (ev_now env) b cs = (Some ws, cs\<lparr>downloadBuffer := db\<rparr>)" "staged db = staged (downloadBuffer cs)"
    by (rule getBuffer_staged [OF r(2)])
  obtain q where q: "take_lease h (cs\<lparr>downloadBuffer := db\<rparr>) = (Return (Some l), cs\<lparr>downloadBuffer := db, leases := q\<rparr>)" "lifo_inv q"
    using take_lease_law [of "cs\<lparr>downloadBuffer := db\<rparr>" h] lease(1,2) by auto
  let ?cs = "cs\<lparr>downloadBuffer := db, leases := q\<rparr>"
  let ?cl = "cl(self \<mapsto> ?cs)"
  have "ready h bs b ws ?cs" using \<open>ready h bs b ws cs\<close> db(2) by (simp add: ready_def)
  with hold have hold': "replicas_hold h {bs} b ws ?R ?cl" by (auto simp: replicas_hold_def)
  have s: "?cl self = Some ?cs" "info ?cs h = Some c" using cs(2) by simp_all
  obtain cl1 where p: "performWrite env self (l_Expire l) args ws ?cl = (Return ?n, cl1)"
    using performWrite_delivers [OF hold' b off fits net lease(4) s cs(3)] by blast
  have hold1: "replicas_hold h {write_at (nat (wc_Offset args)) ws bs} b ws ?R cl1"
    using performWrite_replicates [OF hold' b off p] by blast
  obtain cs1 where cs1: "cl1 self = Some cs1" "leases cs1 = q" using leases_performWrite [OF p s(1)] by auto
  obtain q1 where q1: "PushBack (Some l) q = Return q1" using dq_lifo.push_law [OF q(2), of "Some l"] by blast
  have run: "RPCWriteChunkHandler env self args cl =
      (if IsExpired l (ev_end env) then (Return (?n, Success), cl1)
       else bind_st (at_server self (push_lease l) cl1) (\<lambda>_ cl. (Return (?n, Success), cl)))"
    using db(1) q(1) p cs(1) lease(3) b r(1) fits_not_too_large [OF off fits]
    by (simp add: RPCWriteChunkHandler_def at_server_def Let_def)
  have "ready h v b ws (cs1\<lparr>leases := q1\<rparr>) = ready h v b ws cs1" for v by (simp add: ready_def)
  then have "replicas_hold h {write_at (nat (wc_Offset args)) ws bs} b ws ?R (cl1(self \<mapsto> cs1\<lparr>leases := q1\<rparr>))"
    using hold1 cs1(1) by (auto simp: replicas_hold_def)
  then show ?thesis using run hold1 cs1 q1 by (auto simp: at_server_def push_lease_def simp del: fun_upd_apply)
qed

section \<open>A write of the client\<close>

text \<open>
  A server with an uncompressed copy of the chunk that has not seen the buffer id yet, and a
  primary that can accept a write under the lease at the head of its queue.
\<close>

definition idle_replica :: "chunk_handle \<Rightarrow> byte list \<Rightarrow> buffer_id \<Rightarrow> chunk_server \<Rightarrow> bool" where
  "idle_replica h bs b cs \<longleftrightarrow> flat_inv (rootDir cs) \<and> bytes cs h = Some bs \<and> staged (downloadBuffer cs) b = None \<and>
     (\<exists>c. info cs h = Some c \<and> \<not> ci_abandoned c \<and> \<not> ci_isCompressed c)"

definition leads :: "cs_env \<Rightarrow> chunk_handle \<Rightarrow> chunk_server \<Rightarrow> bool" where
  "leads env h cs \<longleftrightarrow> lifo_inv (leases cs) \<and> (\<exists>c. info cs h = Some c \<and> \<not> ci_completed c) \<and>
     (\<exists>l. fst (split_lease h (contents (leases cs))) = Some l \<and> \<not> IsExpired l (ev_now env) \<and> ev_written env < l_Expire l)"

lemma staged_on_hold:
  assumes "staged_on b ws R cl cl'" and "bid_handle b = h" and "\<And>r. r \<in> R \<Longrightarrow> \<exists>cs. cl r = Some cs \<and> idle_replica h bs b cs"
  shows "replicas_hold h {bs} b ws R cl'"
  unfolding replicas_hold_def
proof
  fix r assume r: "r \<in> R"
  then obtain cs cs' where cs: "cl r = Some cs" "cl' r = Some cs'" "restaged (added b ws) cs cs'"
    using assms(1) unfolding staged_on_def by blast
  moreover have "idle_replica h bs b cs" using assms(3) [OF r] cs(1) by auto
  ultimately show "\<exists>cs v. cl' r = Some cs \<and> v \<in> {bs} \<and> ready h v b ws cs"
    using assms(2) by (auto simp: idle_replica_def ready_def restaged_simps)
qed

lemma staged_on_leads:
  assumes "staged_on b ws R cl cl'" and "p \<in> R" and "cl p = Some cs" and "leads env h cs"
  shows "\<exists>cs'. cl' p = Some cs' \<and> leads env h cs'"
proof -
  obtain cs' where "cl' p = Some cs'" "restaged (added b ws) cs cs'" using assms(1-3) by (auto simp: staged_on_def)
  with assms(4) show ?thesis by (auto simp: leads_def restaged_simps)
qed

lemma write_attempt_ok:
  assumes "ObtainLease (env k) h off s = (Inr (ls, off'), s)" and "l_Primary ls = p" and "l_Secondaries ls = secs" and "p \<noteq> ''''"
    and "FilterSlice (secs @ [p]) (\<lambda>v. v \<noteq> '''') = secs @ [p]" and "b = NewDownloadBufferId (hc_id (env k)) h"
    and "forward_all (env k) b ws (secs @ [p]) (secs @ [p]) s = s1"
    and "server_call (env k) p (RPCWriteChunkHandler (hc_cs (env k)) p \<lparr>wc_Replicas = secs @ [p], wc_BufferId = b, wc_Offset = off'\<rparr>) s1 =
      (Inr (n, Success), s2)"
  shows "write_attempts (Suc k) env h off ws s = (Inr n, s2)"
  using assms by (simp add: bind_client_def Let_def)

text \<open>
  C5. Where a client's write goes. Take a client with an unexpired lease in its cache, a network
  that delivers, a fresh buffer id, replicas that all hold the bytes \<open>bs\<close> and a primary with an
  unexpired lease. Writing \<open>ws\<close> at any offset of the chunk at which it fits succeeds, reports the
  length of \<open>ws\<close>, and leaves on every replica the bytes \<open>bs\<close> overwritten with \<open>ws\<close> from position 0
  of the chunk: the offset that the caller asked for is replaced by the one that
  \<^verbatim>\<open>ObtainLease\<close> returns, which is always 0.
\<close>

theorem WriteChunk_writes_at_start:
  assumes cache: "map_of (sys_cache s) h = Some ls" "\<not> IsExpired ls (hc_now (env 2))"
    and servers: "l_Primary ls = p" "l_Secondaries ls = secs" "distinct (secs @ [p])" "'''' \<notin> set (secs @ [p])"
    and net: "\<And>r. \<exists>fates. ev_net (hc_cs (env 2)) r = Delivered # fates"
    and idle: "\<And>r. r \<in> set (secs @ [p]) \<Longrightarrow> \<exists>cs. sys_servers s r = Some cs \<and> idle_replica h bs (NewDownloadBufferId (hc_id (env 2)) h) cs"
    and lead: "sys_servers s p = Some cs" "leads (hc_cs (env 2)) h cs"
    and fits: "0 \<le> off" "off + int (length ws) \<le> ChunkMaxSizeInByte"
  shows "\<exists>cl'. WriteChunk env h off ws s = (Inr (int (length ws)), s\<lparr>sys_servers := cl'\<rparr>) \<and>
    (\<forall>r \<in> set (secs @ [p]). \<exists>cs'. cl' r = Some cs' \<and> bytes cs' h = Some (write_at 0 ws bs))"
proof -
  let ?all = "secs @ [p]" and ?env = "hc_cs (env 2)" and ?b = "NewDownloadBufferId (hc_id (env 2)) h"
  let ?args = "\<lparr>wc_Replicas = ?all, wc_BufferId = ?b, wc_Offset = 0\<rparr>"
  have all: "FilterSlice ?all (\<lambda>v. v \<noteq> '''') = ?all" "?all = hd ?all # tl ?all"
    using servers(4) by (auto simp: FilterSlice_eq filter_id_conv)
  have fresh: "\<exists>cs. sys_servers s r = Some cs \<and> staged (downloadBuffer cs) ?b = None" if "r \<in> set ?all" for r
    using idle [OF that] by (auto simp: idle_replica_def)
  obtain cl1 where f: "forward_all (env 2) ?b ws ?all ?all s = s\<lparr>sys_servers := cl1\<rparr>" "staged_on ?b ws (set ?all) (sys_servers s) cl1"
    using forward_all_stages [where s = s, OF net servers(3) all(2) fresh] by blast
  have b: "bid_handle ?b = h" by (simp add: NewDownloadBufferId_def)
  have hold: "replicas_hold h {bs} ?b ws (insert p (set (wc_Replicas ?args))) cl1"
    using staged_on_hold [OF f(2) b idle] by (simp add: insert_absorb)
  obtain cs1 where cs1: "cl1 p = Some cs1" "leads ?env h cs1" using staged_on_leads [OF f(2) _ lead] by auto
  then obtain c l where l: "info cs1 h = Some c" "\<not> ci_completed c" "lifo_inv (leases cs1)" "fst (split_lease h (contents (leases cs1))) = Some l"
    "\<not> IsExpired l (ev_now ?env)" "ev_written ?env < l_Expire l" unfolding leads_def by blast
  have fit0: "0 \<le> wc_Offset ?args" "wc_Offset ?args + int (length ws) \<le> ChunkMaxSizeInByte" using fits by simp_all
  obtain cl2 where w: "RPCWriteChunkHandler ?env p ?args cl1 = (Return (int (length ws), Success), cl2)"
      "replicas_hold h {write_at 0 ws bs} ?b ws (insert p (set ?all)) cl2"
    using RPCWriteChunk_delivers [where env = ?env and cl = cl1 and args = ?args, OF hold _ fit0 net cs1(1) l] by auto
  have "server_call (env 2) p (RPCWriteChunkHandler ?env p ?args) (s\<lparr>sys_servers := cl1\<rparr>) = (Inr (int (length ws), Success), s\<lparr>sys_servers := cl2\<rparr>)"
    using server_call_delivered [where env = "env 2" and s = "s\<lparr>sys_servers := cl1\<rparr>" and f = "RPCWriteChunkHandler ?env p ?args"] net w(1) by simp
  moreover have "ObtainLease (env 2) h off s = (Inr (ls, 0), s)" using cache by (simp add: ObtainLease_def)
  moreover have "p \<noteq> ''''" using servers(4) by auto
  ultimately have "write_attempts (Suc 2) env h off ws s = (Inr (int (length ws)), s\<lparr>sys_servers := cl2\<rparr>)"
    using write_attempt_ok [where env = env and k = 2, OF _ servers(1,2) _ all(1) refl f(1)] by blast
  then have "WriteChunk env h off ws s = (Inr (int (length ws)), s\<lparr>sys_servers := cl2\<rparr>)"
    using fits(2) by (simp add: WriteChunk_def)
  moreover have "\<exists>cs'. cl2 r = Some cs' \<and> bytes cs' h = Some (write_at 0 ws bs)" if "r \<in> set ?all" for r
    using w(2) that by (auto simp: replicas_hold_def ready_def)
  ultimately show ?thesis by blast
qed

text \<open>A client and two servers; the primary has the lease that the client has in its cache.\<close>

definition demo_lease :: lease where
  "demo_lease = \<lparr>l_Expire = 50, l_Primary = ''p'', l_Secondaries = [''s''], l_Handle = 7, l_InUse = True\<rparr>"

definition demo_client_env :: client_env where
  "demo_client_env = \<lparr>hc_cs = demo_env, hc_master = [Delivered], hc_perm = [0], hc_pick = 0, hc_id = 2, hc_granted = True, hc_later = 0\<rparr>"

definition leased :: "chunk_server \<Rightarrow> chunk_server" where
  "leased cs = snd (push_lease demo_lease cs)"

definition demo_system :: "byte list \<Rightarrow> system" where
  "demo_system bs = \<lparr>sys_master = demo_master, sys_servers = [''p'' \<mapsto> leased (demo_server bs []), ''s'' \<mapsto> demo_server bs []],
     sys_cache = [(7, demo_lease)]\<rparr>"

lemma leased_eq: "\<exists>q. leased (demo_server bs ws) = (demo_server bs ws)\<lparr>leases := q\<rparr> \<and> lifo_inv q \<and> contents q = [Some demo_lease]"
proof -
  have e: "leases (demo_server bs ws) = empty_deque" by (simp add: demo_server_def empty_server_def)
  obtain q where "PushBack (Some demo_lease) empty_deque = Return q" "lifo_inv q" "contents q = contents empty_deque @ [Some demo_lease]"
    using dq_lifo.push_law [OF dq_lifo.inv_empty, of "Some demo_lease"] by blast
  with dq_lifo.items_empty e show ?thesis by (auto simp: leased_def push_lease_def)
qed

lemma demo_idle: "b \<noteq> demo_id \<Longrightarrow> idle_replica 7 bs b (demo_server bs ws)"
  by (simp add: idle_replica_def demo_server_def empty_server_def demo_fs staged_def new_chunk_info_def)

theorem WriteChunk_writes_at_start_witness:
  "\<exists>cl'. WriteChunk (\<lambda>_. demo_client_env) 7 1 [9] (demo_system [4, 2, 3]) = (Inr 1, (demo_system [4, 2, 3])\<lparr>sys_servers := cl'\<rparr>) \<and>
     (\<exists>cs'. cl' ''s'' = Some cs' \<and> bytes cs' 7 = Some [9, 2, 3])"
proof -
  let ?bs = "[4, 2, 3] :: byte list" and ?b = "NewDownloadBufferId (hc_id demo_client_env) 7" and ?s = "demo_system [4, 2, 3]"
  obtain q where q: "leased (demo_server ?bs []) = (demo_server ?bs [])\<lparr>leases := q\<rparr>" "lifo_inv q" "contents q = [Some demo_lease]"
    using leased_eq by blast
  have b: "?b \<noteq> demo_id" by (simp add: demo_id_def NewDownloadBufferId_def demo_client_env_def)
  have p: "idle_replica 7 ?bs ?b (leased (demo_server ?bs []))" using demo_idle [OF b] q(1) by (simp add: idle_replica_def)
  have lead: "leads (hc_cs demo_client_env) 7 (leased (demo_server ?bs []))"
    using q by (simp add: leads_def demo_lease_def IsExpired_def demo_client_env_def demo_env_def demo_server_def new_chunk_info_def)
  have idle: "\<exists>cs. sys_servers ?s r = Some cs \<and> idle_replica 7 ?bs ?b cs" if "r \<in> set ([''s''] @ [''p''])" for r
    using that p demo_idle [OF b] by (auto simp: demo_system_def)
  have "\<exists>cl'. WriteChunk (\<lambda>_. demo_client_env) 7 1 [9] ?s = (Inr (int (length [9 :: byte])), ?s\<lparr>sys_servers := cl'\<rparr>) \<and>
      (\<forall>r \<in> set ([''s''] @ [''p'']). \<exists>cs'. cl' r = Some cs' \<and> bytes cs' 7 = Some (write_at 0 [9] ?bs))"
    by (rule WriteChunk_writes_at_start [where ls = demo_lease and cs = "leased (demo_server ?bs [])"])
      (use idle lead in \<open>simp_all add: demo_system_def demo_lease_def IsExpired_def demo_client_env_def demo_env_def ChunkMaxSizeInByte_def\<close>)
  then show ?thesis by (simp add: write_at_def) blast
qed

end
