(* ===== verification/Client_Reads.thy ===== *)
theory Client_Reads
  imports Client_Writes Master_Properties
begin

text \<open>
  Reading through the client library: a read inside the file returns the bytes of its chunks in
  order, and a read at the end of the file allocates a chunk.
\<close>

section \<open>Files cut into chunks\<close>

text \<open>All chunks but the last are full.\<close>

definition chunked :: "nat \<Rightarrow> 'a list list \<Rightarrow> bool" where
  "chunked n bss \<longleftrightarrow> (\<forall>i < length bss. length (bss ! i) \<le> n \<and> (Suc i < length bss \<longrightarrow> length (bss ! i) = n))"

lemma chunked_Cons: "chunked n (bs # bss) \<longleftrightarrow> length bs \<le> n \<and> (bss \<noteq> [] \<longrightarrow> length bs = n) \<and> chunked n bss"
  by (simp add: chunked_def All_less_Suc2)

lemma chunk_at:
  assumes "chunked n bss" and "x < length (concat bss)" and n: "0 < n"
  shows "x div n < length bss \<and> x mod n < length (bss ! (x div n)) \<and>
    drop x (concat bss) = drop (x mod n) (bss ! (x div n)) @ concat (drop (Suc (x div n)) bss)"
  using assms(1,2)
proof (induction bss arbitrary: x)
  case (Cons bs bss)
  have c: "length bs \<le> n" "bss \<noteq> [] \<Longrightarrow> length bs = n" "chunked n bss" using Cons.prems(1) by (auto simp: chunked_Cons)
  show ?case
  proof (cases "x < n")
    case True
    then show ?thesis using c(1,2) Cons.prems(2) by (cases "bss = []") auto
  next
    case False
    then have "bss \<noteq> []" using Cons.prems(2) c(1) by auto
    then show ?thesis using False c(2) n Cons.prems(2) Cons.IH [OF c(3), of "x - n"] by (auto simp: le_div_geq le_mod_geq)
  qed
qed simp

lemma chunked_length: "chunked n bss \<Longrightarrow> length (concat bss) \<le> n * length bss"
  by (induction bss) (auto simp: chunked_Cons)

section \<open>A file on the servers\<close>

definition chunk_held :: "system \<Rightarrow> chunk_handle \<Rightarrow> byte list \<Rightarrow> bool" where
  "chunk_held s h bs \<longleftrightarrow> (\<exists>locs. getReplicas h (chunkServerManager (sys_master s)) = Return locs \<and> locs \<noteq> [] \<and>
     (\<forall>a \<in> set locs. \<exists>cs c. sys_servers s a = Some cs \<and> cs_inv cs \<and> info cs h = Some c \<and> \<not> ci_abandoned c \<and> bytes cs h = Some bs))"

text \<open>A file whose chunks hold the given bytes on all their replicas.\<close>

definition file_held :: "string list \<Rightarrow> byte list list \<Rightarrow> system \<Rightarrow> bool" where
  "file_held a bss s \<longleftrightarrow> ms_inv (sys_master s) \<and>
     (\<exists>att. ns_view (sys_master s) a = Some att \<and> \<not> a_isdir att \<and> a_chunks att = int (length bss)) \<and>
     list_all2 (chunk_held s) (handles_of (chunkServerManager (sys_master s)) (abs_path a)) bss"

definition delivers :: "client_env \<Rightarrow> bool" where
  "delivers env \<longleftrightarrow> (\<exists>fs. hc_master env = Delivered # fs) \<and> (\<forall>r. \<exists>fs. ev_net (hc_cs env) r = Delivered # fs)"

lemma master_call_delivered: "delivers env \<Longrightarrow> f s = (Return x, s') \<Longrightarrow> master_call env f s = (Inr x, s')"
  by (auto simp: delivers_def master_call_def UnicastToRPCServer_def DefaultRetryConfig_def)

lemma chunk_held_cong:
  "chunkServerManager (sys_master s') = chunkServerManager (sys_master s) \<Longrightarrow> sys_servers s' = sys_servers s \<Longrightarrow> chunk_held s' = chunk_held s"
  by (intro ext) (simp add: chunk_held_def)

lemma GetChunkHandle_nth:
  assumes held: "file_held (d @ [b]) bss s" and i: "i < length bss" and env: "delivers env"
    and val: "list_all valid_comp d" and name: "ValidateFilename b (abs_path (d @ [b])) = None"
    and h: "h = handles_of (chunkServerManager (sys_master s)) (abs_path (d @ [b])) ! i"
  shows "\<exists>ma. GetChunkHandle env (abs_path (d @ [b])) (int i) s = (Inr h, s\<lparr>sys_master := ma\<rparr>) \<and>
    chunkServerManager ma = chunkServerManager (sys_master s) \<and> ns_view ma = ns_view (sys_master s) \<and>
    file_held (d @ [b]) bss (s\<lparr>sys_master := ma\<rparr>) \<and> chunk_held (s\<lparr>sys_master := ma\<rparr>) h (bss ! i)"
proof -
  let ?p = "abs_path (d @ [b])" and ?m = "chunkServerManager (sys_master s)"
  obtain att where att: "ms_inv (sys_master s)" "ns_view (sys_master s) (d @ [b]) = Some att" "\<not> a_isdir att" "a_chunks att = int (length bss)"
    and hs: "list_all2 (chunk_held s) (handles_of ?m ?p) bss" using held unfolding file_held_def by blast
  have len: "length (handles_of ?m ?p) = length bss" using hs by (rule list_all2_lengthD)
  obtain errs cl where c: "create_calls env (numberOfCreatedChunkHandle ?m)
      (case chooseServers (hc_perm env) (int MinimumReplicationFactor + 1) ?m of Return addrs \<Rightarrow> FilterSlice addrs (\<lambda>x. x \<noteq> '''') | _ \<Rightarrow> [])
      (sys_servers s) = (errs, cl)" by fastforce
  have ne: "int i \<noteq> a_chunks att" using i att(4) by simp
  obtain ma' where ma': "RPCGetChunkHandleHandler (hc_now env) (hc_perm env) (map_of errs) ?p (int i) (sys_master s) = (getChunkHandle ?p (int i) ?m, ma')"
    "ms_inv ma'" "ns_view ma' = ns_view (sys_master s)" "chunkServerManager ma' = ?m"
    using GetChunkHandle_known [OF att(1) val name att(2) ne] by blast
  have "getChunkHandle ?p (int i) ?m = Return (handles_of ?m ?p ! i)"
    using len i by (auto simp: getChunkHandle_def handles_of_def split: option.splits)
  then have "serve_GetChunkHandle env ?p (int i) s = (Return (handles_of ?m ?p ! i), s\<lparr>sys_master := ma'\<rparr>)"
    using ma'(1,4) c by (simp add: serve_GetChunkHandle_def Let_def del: FilterSlice_eq)
  then have "GetChunkHandle env ?p (int i) s = (Inr (handles_of ?m ?p ! i), s\<lparr>sys_master := ma'\<rparr>)"
    unfolding GetChunkHandle_def by (rule master_call_delivered [OF env])
  moreover have ch: "chunk_held (s\<lparr>sys_master := ma'\<rparr>) = chunk_held s" using ma'(4) by (intro chunk_held_cong) simp_all
  moreover have "chunk_held s (handles_of ?m ?p ! i) (bss ! i)" using hs i by (auto simp: list_all2_conv_all_nth)
  ultimately show ?thesis using ma' att hs by (auto simp: file_held_def h)
qed

lemma GetChunkHandle_held:
  assumes "file_held (d @ [b]) bss s" and "i < length bss" and "delivers env"
    and "list_all valid_comp d" and "ValidateFilename b (abs_path (d @ [b])) = None"
  shows "\<exists>h s'. GetChunkHandle env (abs_path (d @ [b])) (int i) s = (Inr h, s') \<and> file_held (d @ [b]) bss s' \<and> chunk_held s' h (bss ! i)"
  using GetChunkHandle_nth [OF assms refl] by blast

lemma chunk_held_touch:
  assumes "chunk_held s h' bs'" and "sys_servers s a = Some cs" and "cs_inv cs"
  shows "chunk_held (s\<lparr>sys_servers := (sys_servers s)(a \<mapsto> set_info h (\<lambda>c. c\<lparr>ci_accessTime := t\<rparr>) cs)\<rparr>) h' bs'"
proof -
  let ?cs = "set_info h (\<lambda>c. c\<lparr>ci_accessTime := t\<rparr>) cs"
  have "cs_inv ?cs" using assms(3) by (auto simp: cs_inv_def chunk_ok_def)
  moreover have "bytes ?cs = bytes cs" by (simp add: fun_eq_iff)
  ultimately show ?thesis using assms unfolding chunk_held_def by (auto 4 4)
qed

lemma ReadChunk_chunk:
  assumes held: "file_held a bss s" and ch: "chunk_held s h bs" and env: "delivers env" and off: "0 \<le> off" "off \<le> ChunkMaxSizeInByte"
    and n: "n = min (length buf) (nat (ChunkMaxSizeInByte - off))" and got: "got = take n (drop (nat off) bs)"
  shows "\<exists>s'. ReadChunk env h off buf s = ((int (length got),
      if length got < n then Some (Code ReadEOF) else None, if length got < n then buf else got @ drop n buf), s') \<and> file_held a bss s'"
proof -
  obtain locs where locs: "getReplicas h (chunkServerManager (sys_master s)) = Return locs" "locs \<noteq> []"
    "\<And>a. a \<in> set locs \<Longrightarrow> \<exists>cs c. sys_servers s a = Some cs \<and> cs_inv cs \<and> info cs h = Some c \<and> \<not> ci_abandoned c \<and> bytes cs h = Some bs"
    using ch unfolding chunk_held_def by blast
  let ?a = "locs ! (hc_pick env mod length locs)"
  have "?a \<in> set locs" using locs(2) by simp
  from locs(3) [OF this] obtain cs c where cs: "sys_servers s ?a = Some cs" "cs_inv cs" "info cs h = Some c" "\<not> ci_abandoned c" "bytes cs h = Some bs" by blast
  let ?cl = "(sys_servers s)(?a \<mapsto> set_info h (\<lambda>c. c\<lparr>ci_accessTime := Some (hc_now env)\<rparr>) cs)"
  let ?rp = "\<lparr>rr_Data = got @ replicate (n - length got) 0, rr_Length = int (length got), rr_ErrorCode = (if length got < n then ReadEOF else Success)\<rparr>"
  have "RPCReadChunkHandler (hc_now env) h off (int n) cs = (Return ?rp, set_info h (\<lambda>c. c\<lparr>ci_accessTime := Some (hc_now env)\<rparr>) cs)"
    using ReadChunk_exact [OF cs(2-5) off(1), of "int n"] got by (simp add: Let_def)
  then have "at_server ?a (RPCReadChunkHandler (hc_now env) h off (int n)) (sys_servers s) = (Return ?rp, ?cl)" using cs(1) by (simp add: at_server_def)
  then have srv: "server_call env ?a (at_server ?a (RPCReadChunkHandler (hc_now env) h off (int n))) s = (Inr ?rp, s\<lparr>sys_servers := ?cl\<rparr>)"
    by (rule server_call_delivered [where s = s and env = env, rotated]) (use env in \<open>auto simp: delivers_def\<close>)
  have "on_master (RPCGetReplicasHandler h) s = (Return locs, s)"
    using locs(1) by (simp add: on_master_def RPCGetReplicasHandler_def on_csm_def)
  then have rep: "master_call env (on_master (RPCGetReplicasHandler h)) s = (Inr locs, s)" by (rule master_call_delivered [OF env])
  have len: "(if ChunkMaxSizeInByte - off > int (length buf) then int (length buf) else ChunkMaxSizeInByte - off) = int n"
    using n off(2) by auto
  have le: "n \<le> length buf" using n by simp
  have le': "length got \<le> n" by (simp add: got)
  have "ReadChunk env h off buf s = ((int (length got), if length got < n then Some (Code ReadEOF) else None,
      if length got < n then buf else got @ drop n buf), s\<lparr>sys_servers := ?cl\<rparr>)"
    using le le' unfolding ReadChunk_def Let_def len rep by (simp add: locs(2) srv)
  moreover have "chunk_held (s\<lparr>sys_servers := ?cl\<rparr>) h' bs'" if "chunk_held s h' bs'" for h' bs'
    by (rule chunk_held_touch [OF that cs(1,2)])
  then have "file_held a bss (s\<lparr>sys_servers := ?cl\<rparr>)"
    using held unfolding file_held_def by (auto elim: list_all2_mono)
  ultimately show ?thesis by blast
qed

lemma ReadChunk_held:
  assumes "file_held a bss s" and "chunk_held s h bs" and "delivers env" and "0 \<le> off" "off \<le> ChunkMaxSizeInByte"
    and n: "n = min (length buf) (nat (ChunkMaxSizeInByte - off))" and fits: "nat off + n \<le> length bs"
  shows "\<exists>s'. ReadChunk env h off buf s = ((int n, None, take n (drop (nat off) bs) @ drop n buf), s') \<and> file_held a bss s'"
  using ReadChunk_chunk [OF assms(1-5) n refl] fits by simp

section \<open>The loop over the chunks\<close>

lemma chunk_position:
  assumes "0 < ChunkMaxSizeInByte"
  shows "int x sdiv ChunkMaxSizeInByte = int (x div nat ChunkMaxSizeInByte)" "int x smod ChunkMaxSizeInByte = int (x mod nat ChunkMaxSizeInByte)"
proof -
  show "int x sdiv ChunkMaxSizeInByte = int (x div nat ChunkMaxSizeInByte)"
    using assms by (cases "x = 0") (simp_all add: signed_divide_int_def zdiv_int)
  then show "int x smod ChunkMaxSizeInByte = int (x mod nat ChunkMaxSizeInByte)"
    using assms by (cases "x = 0") (simp_all add: signed_modulo_int_def zmod_int minus_div_mult_eq_mod zdiv_int)
qed

lemma ChunkMax_pos: "0 < ChunkMaxSizeInByte"
  by (simp add: ChunkMaxSizeInByte_def)

lemma read_loop_exact:
  assumes env: "\<And>k. delivers (env k)" and c: "chunked (nat ChunkMaxSizeInByte) bss" and val: "list_all valid_comp d"
    and name: "ValidateFilename b (abs_path (d @ [b])) = None" and fits: "off + length buf \<le> length (concat bss)"
    and held: "file_held (d @ [b]) bss s" and pos: "pos \<le> length buf" "take pos buf = take pos (drop off (concat bss))"
    and fuel: "length buf - pos < fuel"
  shows "\<exists>s'. read_loop fuel env (abs_path (d @ [b])) (int (length bss)) (int (off + pos)) pos buf s =
      ((int (length buf), None, take (length buf) (drop off (concat bss))), s') \<and> file_held (d @ [b]) bss s'"
  using fits held pos fuel
proof (induction fuel arbitrary: pos buf s)
  case (Suc fuel)
  let ?M = "nat ChunkMaxSizeInByte" and ?p = "abs_path (d @ [b])" and ?x = "off + pos"
  show ?case
  proof (cases "pos < length buf")
    case False
    then have "pos = length buf" using Suc.prems(3) by simp
    then show ?thesis using Suc.prems by simp
  next
    case True
    let ?i = "?x div ?M" and ?o = "?x mod ?M"
    have M: "0 < ?M" using ChunkMax_pos by simp
    have at: "?i < length bss" "?o < length (bss ! ?i)" "drop ?x (concat bss) = drop ?o (bss ! ?i) @ concat (drop (Suc ?i) bss)"
      using chunk_at [OF c, of ?x] M True Suc.prems(1) by auto
    obtain h s1 where g: "GetChunkHandle (env fuel) ?p (int ?i) s = (Inr h, s1)" "file_held (d @ [b]) bss s1" "chunk_held s1 h (bss ! ?i)"
      using GetChunkHandle_held [OF Suc.prems(2) at(1) env val name] by blast
    define n where "n = min (length (drop pos buf)) (nat (ChunkMaxSizeInByte - int ?o))"
    have o: "int ?o < ChunkMaxSizeInByte" using M mod_less_divisor [OF M, of ?x] by linarith
    then have n: "0 < n" "n \<le> length buf - pos" "n \<le> ?M - ?o" using True by (auto simp: n_def)
    have fit: "nat (int ?o) + n \<le> length (bss ! ?i)"
    proof (cases "Suc ?i < length bss")
      case True
      then have "length (bss ! ?i) = ?M" using c at(1) by (simp add: chunked_def)
      then show ?thesis using n(3) at(2) by simp
    next
      case False
      then have "length (drop ?x (concat bss)) = length (bss ! ?i) - ?o" using at by simp
      then show ?thesis using n(2) Suc.prems(1) at(2) by simp
    qed
    let ?got = "take n (drop ?o (bss ! ?i))"
    obtain s2 where r: "ReadChunk (env fuel) h (int ?o) (drop pos buf) s1 = ((int n, None, ?got @ drop n (drop pos buf)), s2)"
      "file_held (d @ [b]) bss s2"
      using ReadChunk_held [OF g(2,3) env _ _ n_def fit] o by auto
    define buf' where "buf' = take pos buf @ ?got @ drop n (drop pos buf)"
    have got: "?got = take n (drop ?x (concat bss))" "length ?got = n" using fit at by simp_all
    have len: "length buf' = length buf" using got(2) n(2) True by (simp add: buf'_def)
    have tk: "take (pos + n) buf' = take (pos + n) (drop off (concat bss))"
    proof -
      have "take (pos + n) buf' = take pos buf @ ?got" using got(2) True by (simp add: buf'_def)
      also have "\<dots> = take pos (drop off (concat bss)) @ take n (drop pos (drop off (concat bss)))"
        using Suc.prems(4) got(1) by (simp add: add.commute)
      finally show ?thesis by (simp only: take_add)
    qed
    have "\<exists>s'. read_loop fuel env ?p (int (length bss)) (int (off + (pos + n))) (pos + n) buf' s2 =
      ((int (length buf'), None, take (length buf') (drop off (concat bss))), s') \<and> file_held (d @ [b]) bss s'"
      by (rule Suc.IH [OF _ r(2) _ tk]) (use len Suc.prems(1,5) n True in linarith)+
    moreover have "\<not> int ?i > int (length bss)" "nat (int pos + int n) = pos + n" "int ?x + int n = int (off + (pos + n))" using at(1) by simp_all
    then have "read_loop (Suc fuel) env ?p (int (length bss)) (int ?x) pos buf s =
        read_loop fuel env ?p (int (length bss)) (int (off + (pos + n))) (pos + n) buf' s2"
      unfolding read_loop.simps(2) Let_def chunk_position [OF ChunkMax_pos] g(1) using r(1) True by (simp add: buf'_def add.assoc)
    ultimately show ?thesis using len by simp
  qed
qed simp

lemma Read_enters_loop:
  assumes "delivers env0" and "list_all valid_comp d" and "ValidateFilename b (abs_path (d @ [b])) = None" and "file_held (d @ [b]) bss s"
    and "off div nat ChunkMaxSizeInByte \<le> length bss"
  shows "Read env0 env (abs_path (d @ [b])) (int off) buf s =
    read_loop (Suc (length buf)) env (abs_path (d @ [b])) (int (length bss)) (int off) 0 buf s"
proof -
  let ?p = "abs_path (d @ [b])"
  obtain att where att: "ms_inv (sys_master s)" "ns_view (sys_master s) (d @ [b]) = Some att" "\<not> a_isdir att" "a_chunks att = int (length bss)"
    using assms(4) unfolding file_held_def by blast
  have "list_all valid_comp (d @ [b])" using assms(2) valid_name [OF assms(3)] by simp
  then have "on_master (RPCGetFileInfoHandler ?p) s = (Return (int (length bss), False, a_length att), s)"
    using GetFileInfo_known [OF att(1) _ att(2)] att(3,4) by (simp add: on_master_def)
  then have f: "GetFile env0 ?p s = (Inr (int (length bss), False, a_length att), s)"
    unfolding GetFile_def by (rule master_call_delivered [OF assms(1)])
  then show ?thesis using assms(5) by (simp add: Read_def chunk_position [OF ChunkMax_pos] del: read_loop.simps)
qed

text \<open>A read that reaches beyond the bytes of the last chunk leaves the buffer as it was.\<close>

lemma Read_beyond_end:
  assumes "delivers env0" and "\<And>k. delivers (env k)" and c: "chunked (nat ChunkMaxSizeInByte) bss" and "list_all valid_comp d"
    and "ValidateFilename b (abs_path (d @ [b])) = None" and off: "off < length (concat bss)" "off div nat ChunkMaxSizeInByte = length bss - 1"
    and "length (last bss) < nat ChunkMaxSizeInByte" and "length (concat bss) < off + length buf" and held: "file_held (d @ [b]) bss s"
  shows "\<exists>s'. Read env0 env (abs_path (d @ [b])) (int off) buf s =
    ((int (length (concat bss) - off), Some (CallError (Os EOF)), buf), s') \<and> file_held (d @ [b]) bss s'"
proof -
  let ?M = "nat ChunkMaxSizeInByte" and ?p = "abs_path (d @ [b])" and ?i = "length bss - 1" and ?env = "env (length buf)"
  let ?o = "off mod ?M"
  have at: "?i < length bss" "?o < length (bss ! ?i)" "drop off (concat bss) = drop ?o (bss ! ?i)"
    using chunk_at [OF c off(1)] ChunkMax_pos off(2) by auto
  have last: "bss ! ?i = last bss" using at(1) by (cases bss) (simp_all add: last_conv_nth)
  have left: "length (bss ! ?i) - ?o = length (concat bss) - off" using arg_cong [OF at(3), of length] by simp
  obtain h s1 where g: "GetChunkHandle ?env ?p (int ?i) s = (Inr h, s1)" "file_held (d @ [b]) bss s1" "chunk_held s1 h (bss ! ?i)"
    using GetChunkHandle_held [OF held at(1) assms(2,4,5)] by blast
  define n where "n = min (length buf) (nat (ChunkMaxSizeInByte - int ?o))"
  have "int ?o \<le> ChunkMaxSizeInByte" using ChunkMax_pos mod_less_divisor [of ?M off] by linarith
  moreover have lt: "length (concat bss) - off < n"
  proof -
    have "nat (ChunkMaxSizeInByte - int ?o) = ?M - ?o" by simp
    moreover have "length (bss ! ?i) < ?M" using assms(8) last by simp
    ultimately show ?thesis using left assms(9) at(2) off(1) unfolding n_def by linarith
  qed
  moreover have "length (take n (drop ?o (bss ! ?i))) = length (concat bss) - off" using left lt by simp
  ultimately obtain s2 where "ReadChunk ?env h (int ?o) buf s1 = ((int (length (concat bss) - off), Some (Code ReadEOF), buf), s2)"
    "file_held (d @ [b]) bss s2"
    using ReadChunk_chunk [OF g(2,3) assms(2) _ _ n_def refl] by auto
  moreover have "buf \<noteq> []" using assms(9) off(1) by auto
  moreover have "Read env0 env ?p (int off) buf s = read_loop (Suc (length buf)) env ?p (int (length bss)) (int off) 0 buf s"
    by (rule Read_enters_loop [OF assms(1,4,5) held]) (use off(2) in simp)
  ultimately show ?thesis using g(1) at(1) off(2) by (simp add: Let_def chunk_position [OF ChunkMax_pos])
qed

lemma Read_exact:
  assumes "delivers env0" and "\<And>k. delivers (env k)" and "chunked (nat ChunkMaxSizeInByte) bss" and "list_all valid_comp d"
    and "ValidateFilename b (abs_path (d @ [b])) = None" and "off + length buf \<le> length (concat bss)" and "file_held (d @ [b]) bss s"
  shows "\<exists>s'. Read env0 env (abs_path (d @ [b])) (int off) buf s = ((int (length buf), None, take (length buf) (drop off (concat bss))), s') \<and>
    file_held (d @ [b]) bss s'"
proof -
  have "off div nat ChunkMaxSizeInByte \<le> length bss"
  proof (cases "off < length (concat bss)")
    case True
    then show ?thesis using chunk_at [OF assms(3)] ChunkMax_pos by fastforce
  next
    case False
    then have "off = length (concat bss)" using assms(6) by simp
    then have "off div nat ChunkMaxSizeInByte \<le> (nat ChunkMaxSizeInByte * length bss) div nat ChunkMaxSizeInByte"
      using chunked_length [OF assms(3)] by (intro div_le_mono) simp
    then show ?thesis using ChunkMax_pos by simp
  qed
  from Read_enters_loop [OF assms(1,4,5,7) this] show ?thesis
    using read_loop_exact [where env = env, OF assms(2-7), of 0 "Suc (length buf)"] by (simp del: read_loop.simps)
qed

text \<open>
  C2. A read inside a file returns the file. Take a file whose chunks, all full but the last, are
  held by all their replicas, and a network that delivers: reading into a buffer at an offset from
  which the file has enough bytes succeeds, whatever replicas are chosen, and fills the buffer with
  exactly the file's bytes from the offset on, across chunk boundaries; the fuel of the loop is
  enough. The file is unchanged.
\<close>

theorem Read_returns_file:
  assumes "delivers env0" and "\<And>k. delivers (env k)" and "chunked (nat ChunkMaxSizeInByte) bss" and "list_all valid_comp d"
    and "ValidateFilename b (abs_path (d @ [b])) = None" and "off + length buf \<le> length (concat bss)" and "file_held (d @ [b]) bss s"
  shows "\<exists>s'. Read env0 env (abs_path (d @ [b])) (int off) buf s = ((int (length buf), None, take (length buf) (drop off (concat bss))), s') \<and>
    file_held (d @ [b]) bss s'"
  by (rule Read_exact [OF assms])

text \<open>One file with one chunk, which two servers hold.\<close>

definition read_master :: master_server where
  "read_master = demo_master\<lparr>
     namespaceManager := NewNameSpaceManager\<lparr>ns_root := NsTree ''*'' 0 0 True (Some [(''f.txt'', set_size 3 1 (file_node ''/f.txt''))])\<rparr>,
     chunkServerManager := (chunkServerManager demo_master)\<lparr>files := [(''/f.txt'', \<lparr>handles = [7]\<rparr>)],
       chunks := [(7, \<lparr>expire = 0, primary = ''p'', ck_checksum = '''', ck_path = ''/f.txt'', locations = [''p'', ''s''], ck_length = 3, version = 0\<rparr>)],
       handleToPathMapping := [(7, ''/f.txt'')], numberOfCreatedChunkHandle := 8\<rparr>\<rparr>"

definition read_system :: "byte list \<Rightarrow> system" where
  "read_system bs = \<lparr>sys_master = read_master, sys_servers = [''p'' \<mapsto> demo_server bs [], ''s'' \<mapsto> demo_server bs []], sys_cache = []\<rparr>"

lemma read_system_held: "int (length bs) \<le> ChunkMaxSizeInByte \<Longrightarrow> file_held ([] @ [''f.txt'']) [bs] (read_system bs)"
proof -
  assume l: "int (length bs) \<le> ChunkMaxSizeInByte"
  have inv: "ms_inv read_master"
    by (auto simp: ms_inv_def read_master_def nm_inv_def NewNameSpaceManager_def csm_inv_def demo_master_def NewChunkServerManager_def handles_of_def)
  have view: "ns_view read_master [''f.txt''] = Some (Ns_Tree.info (set_size 3 1 (file_node ''/f.txt'')))"
    by (simp add: read_master_def view_Cons child_def kids_def)
  have hs: "handles_of (chunkServerManager read_master) (abs_path [''f.txt'']) = [7]"
    by (simp add: read_master_def handles_of_def abs_path_def)
  have "bytes (demo_server bs []) 7 = Some bs" "info (demo_server bs []) 7 = Some ((new_chunk_info 0)\<lparr>ci_length := int (length bs)\<rparr>)"
    by (simp_all add: demo_server_def empty_server_def demo_fs)
  then have "chunk_held (read_system bs) 7 bs"
    using demo_server_inv [OF l] by (simp add: chunk_held_def read_system_def read_master_def demo_master_def getReplicas_def new_chunk_info_def)
  then show ?thesis using inv view hs by (simp add: file_held_def read_system_def Ns_Tree.info_def)
qed

theorem Read_returns_file_witness:
  "\<exists>s'. Read demo_client_env (\<lambda>_. demo_client_env) ''/f.txt'' 1 [0, 0] (read_system [4, 2, 3]) = ((2, None, [2, 3]), s')"
proof -
  have p: "abs_path [''f.txt''] = ''/f.txt''" by (simp add: abs_path_def)
  have e: "delivers demo_client_env" by (simp add: delivers_def demo_client_env_def demo_env_def)
  have c: "chunked (nat ChunkMaxSizeInByte) [[4, 2, 3] :: byte list]" by (simp add: chunked_def ChunkMaxSizeInByte_def)
  have h: "file_held ([] @ [''f.txt'']) [[4, 2, 3]] (read_system [4, 2, 3])" by (rule read_system_held) (simp add: ChunkMaxSizeInByte_def)
  have n: "ValidateFilename ''f.txt'' (abs_path ([] @ [''f.txt''])) = None" by (simp add: ValidateFilename_def)
  show ?thesis
    using Read_returns_file [where env = "\<lambda>_. demo_client_env" and off = 1 and buf = "[0, 0]", OF e e c _ n _ h] by (auto simp: p)
qed

section \<open>Reading at the end of a file\<close>

text \<open>What every run of a handler keeps, a call keeps, however often it is repeated.\<close>

lemma master_call_inv:
  assumes "\<And>s. P s \<Longrightarrow> P (snd (f s))" and "P s"
  shows "P (snd (master_call env f s))"
proof -
  have "P (iterate f k s)" for k using assms by (induction k) (simp_all add: iterate_def)
  moreover obtain k where "snd (UnicastToRPCServer DefaultRetryConfig (hc_master env) ''master'' f s) = iterate f k s"
    using unicast_loop_iterates unfolding UnicastToRPCServer_def by metis
  moreover have "snd (master_call env f s) = snd (UnicastToRPCServer DefaultRetryConfig (hc_master env) ''master'' f s)"
    by (auto simp: master_call_def split: prod.splits outcome.splits)
  ultimately show ?thesis by simp
qed

lemma server_call_master: "sys_master (snd (server_call env a f s)) = sys_master s"
  by (auto simp: server_call_def split: prod.splits outcome.splits)

lemma ReadChunk_master: "sys_master (snd (ReadChunk env h off buf s)) = sys_master s"
proof -
  let ?f = "on_master (RPCGetReplicasHandler h)"
  have m: "sys_master (snd (master_call env ?f s)) = sys_master s"
    by (rule master_call_inv [where P = "\<lambda>s'. sys_master s' = sys_master s"]) (simp_all add: on_master_def RPCGetReplicasHandler_def on_csm_def)
  have "sys_master (snd (server_call env a (at_server a (RPCReadChunkHandler (hc_now env) h off n)) s1)) = sys_master s1" for a n s1
    by (rule server_call_master)
  then have "sys_master s2 = sys_master s1"
    if "server_call env a (at_server a (RPCReadChunkHandler (hc_now env) h off n)) s1 = (r, s2)" for a n s1 s2 r
    using that by (metis snd_conv)
  then show ?thesis using m by (auto simp: ReadChunk_def Let_def split: prod.splits sum.splits)
qed

text \<open>The master's record of a file with a given number of chunks.\<close>

definition has_chunks :: "string list \<Rightarrow> attrs \<Rightarrow> system \<Rightarrow> bool" where
  "has_chunks a att s \<longleftrightarrow> ms_inv (sys_master s) \<and> ns_view (sys_master s) a = Some att"

lemma GetChunkHandle_keeps:
  assumes "has_chunks (d @ [b]) att s" and "idx \<noteq> a_chunks att" and "list_all valid_comp d" and "ValidateFilename b (abs_path (d @ [b])) = None"
  shows "has_chunks (d @ [b]) att (snd (GetChunkHandle env (abs_path (d @ [b])) idx s))"
  unfolding GetChunkHandle_def
proof (rule master_call_inv [where P = "has_chunks (d @ [b]) att", OF _ assms(1)])
  fix s assume s: "has_chunks (d @ [b]) att s"
  let ?p = "abs_path (d @ [b])"
  have "\<exists>ma'. RPCGetChunkHandleHandler (hc_now env) (hc_perm env) rpc ?p idx (sys_master s) =
      (getChunkHandle ?p idx (chunkServerManager (sys_master s)), ma') \<and> ms_inv ma' \<and> ns_view ma' = ns_view (sys_master s)" for rpc
    using GetChunkHandle_known [OF _ assms(3,4) _ assms(2), of "sys_master s"] s unfolding has_chunks_def by blast
  then show "has_chunks (d @ [b]) att (snd (serve_GetChunkHandle env ?p idx s))"
    using s by (auto simp: serve_GetChunkHandle_def Let_def has_chunks_def split: prod.splits) (metis prod.inject)+
qed

lemma read_loop_keeps:
  assumes "list_all valid_comp d" and "ValidateFilename b (abs_path (d @ [b])) = None" and att: "a_chunks att = cnt + 1"
  shows "has_chunks (d @ [b]) att s \<Longrightarrow>
    has_chunks (d @ [b]) att (snd (read_loop fuel env (abs_path (d @ [b])) cnt off pos buf s))"
proof (induction fuel arbitrary: off pos buf s)
  case (Suc fuel)
  let ?p = "abs_path (d @ [b])" and ?i = "off sdiv ChunkMaxSizeInByte" and ?o = "off smod ChunkMaxSizeInByte"
  show ?case
  proof (cases "pos < length buf \<and> \<not> ?i > cnt")
    case True
    obtain r s1 where g: "GetChunkHandle (env fuel) ?p ?i s = (r, s1)" by fastforce
    have s1: "has_chunks (d @ [b]) att s1"
      using GetChunkHandle_keeps [OF Suc.prems _ assms(1,2), of ?i "env fuel"] True att g by simp
    show ?thesis
    proof (cases r)
      case (Inr h)
      obtain rn e part s2 where rc: "ReadChunk (env fuel) h ?o (drop pos buf) s1 = ((rn, e, part), s2)" by (metis prod.collapse)
      have s2: "has_chunks (d @ [b]) att s2" using ReadChunk_master [of "env fuel" h ?o "drop pos buf" s1] s1 rc by (simp add: has_chunks_def)
      show ?thesis using True g Inr rc s2 Suc.IH [OF s2] by (cases e) (simp_all add: Let_def)
    qed (use True g s1 in \<open>simp add: Let_def\<close>)
  qed (use Suc.prems in \<open>auto simp: Let_def\<close>)
qed simp

text \<open>
  C16. Reading at the end of a file changes it. The client asks the master for a chunk even when the
  offset lies in the chunk after the last one (the test lets an index equal to the number of chunks
  through), and the master allocates a chunk that does not exist yet. So a read that starts there,
  for instance any read of an empty file, leaves the file with one chunk more once the request for
  the handle succeeds, whatever becomes of the rest of the read.
\<close>

theorem Read_at_end_allocates:
  assumes inv: "ms_inv (sys_master s)" and val: "list_all valid_comp d" and name: "ValidateFilename b (abs_path (d @ [b])) = None"
    and att: "ns_view (sys_master s) (d @ [b]) = Some att" "\<not> a_isdir att" and off: "off sdiv ChunkMaxSizeInByte = a_chunks att"
    and env: "delivers env0" "hc_master (env (length buf)) = [Delivered]" and "buf \<noteq> []"
    and handle: "GetChunkHandle (env (length buf)) (abs_path (d @ [b])) (a_chunks att) s = (Inr h, s1)"
  shows "ns_view (sys_master (snd (Read env0 env (abs_path (d @ [b])) off buf s))) (d @ [b]) = Some (att\<lparr>a_chunks := a_chunks att + 1\<rparr>)"
proof -
  let ?p = "abs_path (d @ [b])" and ?env = "env (length buf)" and ?att = "att\<lparr>a_chunks := a_chunks att + 1\<rparr>"
  have "list_all valid_comp (d @ [b])" using val valid_name [OF name] by simp
  then have "on_master (RPCGetFileInfoHandler ?p) s = (Return (a_chunks att, False, a_length att), s)"
    using GetFileInfo_known [OF inv _ att(1)] att(2) by (simp add: on_master_def)
  then have f: "GetFile env0 ?p s = (Inr (a_chunks att, False, a_length att), s)"
    unfolding GetFile_def by (rule master_call_delivered [OF env(1)])
  have "serve_GetChunkHandle ?env ?p (a_chunks att) s = (Return h, s1)"
    using handle env(2)
    by (auto simp: GetChunkHandle_def master_call_def UnicastToRPCServer_def DefaultRetryConfig_def split: prod.splits outcome.splits)
  then obtain errs where "RPCGetChunkHandleHandler (hc_now ?env) (hc_perm ?env) (map_of errs) ?p (a_chunks att) (sys_master s) = (Return h, sys_master s1)"
    by (auto simp: serve_GetChunkHandle_def Let_def split: prod.splits)
  then have s1: "has_chunks (d @ [b]) ?att s1" using GetChunkHandle_existing(1) [OF inv val name att(1)] by (auto simp: has_chunks_def)
  obtain rn e part s2 where rc: "ReadChunk ?env h (off smod ChunkMaxSizeInByte) buf s1 = ((rn, e, part), s2)" by (metis prod.collapse)
  have s2: "has_chunks (d @ [b]) ?att s2"
    using ReadChunk_master [of ?env h "off smod ChunkMaxSizeInByte" buf s1] s1 rc by (simp add: has_chunks_def)
  have keeps: "has_chunks (d @ [b]) ?att (snd (read_loop (length buf) env ?p (a_chunks att) off' pos buf' s2))" for off' pos buf'
    by (rule read_loop_keeps [OF val name _ s2]) simp
  have "has_chunks (d @ [b]) ?att (snd (Read env0 env ?p off buf s))"
    using f off \<open>buf \<noteq> []\<close> handle rc s2 keeps by (cases e) (simp_all add: Read_def Let_def)
  then show ?thesis by (simp add: has_chunks_def)
qed

text \<open>On servers in good order the calls that create a chunk succeed.\<close>

lemma CreateChunk_returns:
  assumes inv: "cs_inv cs"
  shows "fst (RPCCreateChunkHandler now h cs) = Return ()"
proof (cases "info cs h")
  case None
  then have "bytes cs h = None" using inv by (auto simp: cs_inv_def)
  then obtain fs where "File_System.CreateFile (chunk_file h) (rootDir cs) = (Return (), fs)"
    using fstore.create_new [OF cs_invD(1) [OF inv] chunk_file_valid] by blast
  then show ?thesis using None by (simp add: RPCCreateChunkHandler_def on_root_def)
qed (simp add: RPCCreateChunkHandler_def)

lemma create_calls_ok:
  assumes "delivers env"
  shows "(\<And>a. a \<in> set addrs \<Longrightarrow> \<exists>cs. cl a = Some cs \<and> cs_inv cs) \<Longrightarrow> fst (create_calls env h addrs cl) = []"
proof (induction addrs arbitrary: cl)
  case (Cons a addrs)
  obtain cs where cs: "cl a = Some cs" "cs_inv cs" using Cons.prems [of a] by auto
  obtain cs' where r: "RPCCreateChunkHandler (hc_now env) h cs = (Return (), cs')" "cs_inv cs'"
    using CreateChunk_returns [OF cs(2), of "hc_now env" h] CreateChunk_inv [OF cs(2), of "hc_now env" h] by (metis prod.collapse)
  obtain fs where "ev_net (hc_cs env) a = Delivered # fs" using assms by (auto simp: delivers_def)
  then have "call (hc_cs env) a (at_server a (RPCCreateChunkHandler (hc_now env) h)) cl = (Return (), cl(a \<mapsto> cs'))"
    by (rule call_delivered) (use cs(1) r(1) in \<open>simp add: at_server_def\<close>)
  moreover have "fst (create_calls env h addrs (cl(a \<mapsto> cs'))) = []" by (rule Cons.IH) (use Cons.prems r(2) in auto)
  ultimately show ?case by (simp del: fun_upd_apply)
qed simp

theorem Read_at_end_allocates_witness:
  "\<exists>s :: system. ns_view (sys_master s) [''f.txt''] = Some (new_attrs ''/f.txt'' False) \<and>
     ns_view (sys_master (snd (Read demo_client_env (\<lambda>_. demo_client_env\<lparr>hc_perm := [0, 1, 2, 3]\<rparr>) ''/f.txt'' 0 [0] s))) [''f.txt''] =
       Some ((new_attrs ''/f.txt'' False)\<lparr>a_chunks := 1\<rparr>)"
proof -
  let ?s = "\<lparr>sys_master = four_servers one_file, sys_servers = (\<lambda>_. Some (empty_server data_fs)), sys_cache = []\<rparr>"
  let ?env = "demo_client_env\<lparr>hc_perm := [0, 1, 2, 3]\<rparr>" and ?att = "new_attrs ''/f.txt'' False"
  have e: "delivers demo_client_env" "delivers ?env" "hc_master ?env = [Delivered]"
    by (simp_all add: delivers_def demo_client_env_def demo_env_def)
  have p: "abs_path [''f.txt''] = ''/f.txt''" by (simp add: abs_path_def)
  have inv: "ms_inv (sys_master ?s)" by (simp add: four_servers_inv nm_inv_def one_file_def NewNameSpaceManager_def)
  have name: "ValidateFilename ''f.txt'' (abs_path ([] @ [''f.txt''])) = None" by (simp add: ValidateFilename_def)
  have att: "ns_view (sys_master ?s) ([] @ [''f.txt'']) = Some ?att" by (simp add: one_file_def view_Cons child_def kids_def)
  have "cs_inv (empty_server data_fs)" by (rule empty_server_inv) (simp_all add: data_fs_flat data_fs_empty)
  then have none: "fst (create_calls ?env 0 addrs (sys_servers ?s)) = []" for addrs by (intro create_calls_ok [OF e(2)]) simp
  have "fst (serve_GetChunkHandle ?env (abs_path ([] @ [''f.txt''])) (a_chunks ?att) ?s) = Return 0"
  proof -
    obtain cl1 where "create_calls ?env 0 (FilterSlice [''a'', ''b'', ''c'', ''d''] (\<lambda>x. x \<noteq> '''')) (sys_servers ?s) = ([], cl1)"
      using none by (metis prod.collapse)
    moreover have "fst (RPCGetChunkHandleHandler (hc_now ?env) [0, 1, 2, 3] Map.empty (abs_path ([] @ [''f.txt''])) (a_chunks ?att) (sys_master ?s)) = Return 0"
      using GetChunkHandle_existing(2) [OF inv _ name att, of "[0, 1, 2, 3]"] four_servers_choose by (simp del: One_nat_def)
    ultimately show ?thesis
      by (auto simp: serve_GetChunkHandle_def Let_def four_servers_choose simp del: One_nat_def FilterSlice_eq split: prod.splits)
  qed
  then obtain s1 where "serve_GetChunkHandle ?env (abs_path ([] @ [''f.txt''])) (a_chunks ?att) ?s = (Return 0, s1)" by (metis prod.collapse)
  then have g: "GetChunkHandle ?env (abs_path ([] @ [''f.txt''])) (a_chunks ?att) ?s = (Inr 0, s1)"
    unfolding GetChunkHandle_def by (rule master_call_delivered [OF e(2)])
  have "ns_view (sys_master (snd (Read demo_client_env (\<lambda>_. ?env) (abs_path ([] @ [''f.txt''])) 0 [0] ?s))) ([] @ [''f.txt'']) =
      Some (?att\<lparr>a_chunks := a_chunks ?att + 1\<rparr>)"
    by (rule Read_at_end_allocates [OF inv _ name att _ _ e(1) _ _ g]) (simp_all add: e new_attrs_def demo_client_env_def)
  then show ?thesis using att by (intro exI [of _ ?s]) (simp add: p new_attrs_def)
qed

end
