(* ===== verification/Gateway.thy ===== *)
theory Gateway
  imports Hercules_Client
begin

text \<open>
  The HTTP gateway, \<^verbatim>\<open>src/gateway/server.go\<close>: every handler, from the parsed request to the
  response, on the system of the client library. What the web framework has parsed (the route, the
  query, the decoded JSON body, the bytes of the body) is the request; encoding a response is left
  to the framework.
\<close>

section \<open>Requests and responses\<close>

text \<open>\<open>rq_json\<close> is what \<^verbatim>\<open>BindJSON\<close> makes of the body: the decoded fields, or nothing when it fails.\<close>

datatype http_method = GET | POST | PATCH | DELETE | PUT | OPTIONS

record request =
  rq_method :: http_method
  rq_route :: string
  rq_query :: "(string \<times> string) list"
  rq_json :: "(string \<times> string) list option"
  rq_body :: "byte list option"

text \<open>A missing field is the empty string.\<close>

definition field :: "string \<Rightarrow> (string \<times> string) list \<Rightarrow> string" where
  "field k fs = (case map_of fs k of None \<Rightarrow> '''' | Some v \<Rightarrow> v)"

datatype gateway_error = BadBody | Required string | Invalid string | ClientError client_error | Recovered | NoRoute

text \<open>The contents of a success response, one constructor per message.\<close>

datatype payload =
    DirectoryCreated path | FileCreated path | DirectoryDeleted path | FileDeleted path | Renamed path path
  | Entries path "path_info list" | FileInfo path bool int int | Bytes "byte list" | BytesWritten int offset
  | BytesAdded offset int | ChunkHandle chunk_handle path int | ChunkServers lease | Healthy time
  | ErrorResponse gateway_error "error_code option"

record response =
  rs_status :: nat
  rs_header :: "(string \<times> string) list"
  rs_payload :: payload

definition respondJSON :: "nat \<Rightarrow> payload \<Rightarrow> response" where
  "respondJSON status p = \<lparr>rs_status = status, rs_header = [], rs_payload = p\<rparr>"

text \<open>The code of the response is that of the file system's own errors.\<close>

fun error_code_of :: "gateway_error \<Rightarrow> error_code option" where
  "error_code_of (ClientError (Code c)) = Some c"
| "error_code_of _ = None"

definition respondError :: "nat \<Rightarrow> gateway_error \<Rightarrow> response" where
  "respondError status e = respondJSON status (ErrorResponse e (error_code_of e))"

abbreviation OK :: nat where "OK \<equiv> 200"
abbreviation BadRequest :: nat where "BadRequest \<equiv> 400"
abbreviation InternalServerError :: nat where "InternalServerError \<equiv> 500"

text \<open>\<^verbatim>\<open>strconv.ParseInt\<close> in base 10 with 64 bits: an optional sign, digits, and a value in range.\<close>

definition ParseInt :: "string \<Rightarrow> int option" where
  "ParseInt s =
     (let neg = (s \<noteq> [] \<and> hd s = CHR ''-''); ds = (if s \<noteq> [] \<and> hd s \<in> {CHR ''-'', CHR ''+''} then tl s else s);
          n = digits_value 0 ds
      in if ds = [] \<or> \<not> list_all is_digit ds then None
         else if (if neg then n > 2 ^ 63 else n \<ge> 2 ^ 63) then None
         else Some (if neg then - int n else int n))"

section \<open>Handlers\<close>

text \<open>
  The environments of the calls that a handler makes: two single calls, and those of the loops of
  reading, writing and appending, with the number of rounds for the last two.
\<close>

record gateway_env =
  gw_first :: client_env
  gw_second :: client_env
  gw_read :: "nat \<Rightarrow> client_env"
  gw_write :: "nat \<Rightarrow> nat \<Rightarrow> nat \<Rightarrow> client_env"
  gw_append :: "nat \<Rightarrow> nat \<Rightarrow> client_env"
  gw_rounds :: nat

type_synonym handler = "gateway_env \<Rightarrow> request \<Rightarrow> system \<Rightarrow> response \<times> system"

text \<open>The error of a call is an internal server error.\<close>

definition reply_with :: "'a client_result \<Rightarrow> ('a \<Rightarrow> system \<Rightarrow> response \<times> system) \<Rightarrow> response \<times> system" where
  "reply_with r k = (case r of (Inl e, s) \<Rightarrow> (respondError InternalServerError (ClientError e), s) | (Inr x, s) \<Rightarrow> k x s)"

definition with_json :: "request \<Rightarrow> ((string \<times> string) list \<Rightarrow> system \<Rightarrow> response \<times> system) \<Rightarrow> system \<Rightarrow> response \<times> system" where
  "with_json rq k s = (case rq_json rq of None \<Rightarrow> (respondError BadRequest BadBody, s) | Some fs \<Rightarrow> k fs s)"

definition handleMkDir :: handler where
  "handleMkDir env rq = with_json rq (\<lambda>fs s.
     let p = field ''path'' fs in
     if p = '''' then (respondError BadRequest (Required ''path''), s)
     else reply_with (MkDir (gw_first env) p s) (\<lambda>_ s. (respondJSON OK (DirectoryCreated p), s)))"

definition handleCreateFile :: handler where
  "handleCreateFile env rq = with_json rq (\<lambda>fs s.
     let p = field ''path'' fs; dirPath = Dir p in
     if p = '''' then (respondError BadRequest (Required ''path''), s)
     else reply_with (if dirPath \<noteq> ''/'' \<and> dirPath \<noteq> ''.'' then MkDir (gw_first env) dirPath s else (Inr (), s)) (\<lambda>_ s.
          reply_with (CreateFile (gw_second env) p s) (\<lambda>_ s. (respondJSON OK (FileCreated p), s))))"

definition handleDeleteFile :: handler where
  "handleDeleteFile env rq = with_json rq (\<lambda>fs s.
     let p = field ''path'' fs in
     if p = '''' then (respondError BadRequest (Required ''path''), s)
     else reply_with (GetFile (gw_first env) p s) (\<lambda>(_, isDir, _) s.
       if isDir then reply_with (RemoveDir (gw_second env) p s) (\<lambda>_ s. (respondJSON OK (DirectoryDeleted p), s))
       else reply_with (DeleteFile (gw_second env) p False s) (\<lambda>_ s. (respondJSON OK (FileDeleted p), s))))"

definition handleRenameFile :: handler where
  "handleRenameFile env rq = with_json rq (\<lambda>fs s.
     let source = field ''source'' fs; target = field ''target'' fs in
     if source = '''' \<or> target = '''' then (respondError BadRequest (Required ''source and target paths''), s)
     else reply_with (RenameFile (gw_first env) source target s) (\<lambda>_ s. (respondJSON OK (Renamed source target), s)))"

definition handleList :: handler where
  "handleList env rq s =
     (let q = field ''path'' (rq_query rq); p = (if q = '''' then ''/'' else q)
      in reply_with (List (gw_first env) p s) (\<lambda>entries s. (respondJSON OK (Entries p entries), s)))"

definition handleGetFileInfo :: handler where
  "handleGetFileInfo env rq s =
     (let p = field ''path'' (rq_query rq) in
      if p = '''' then (respondError BadRequest (Required ''path''), s)
      else reply_with (GetFile (gw_first env) p s) (\<lambda>(n, isDir, len) s. (respondJSON OK (FileInfo p isDir len n), s)))"

text \<open>An offset that cannot be parsed is 0; a length that cannot be parsed, or is not positive, is 4096.\<close>

definition parse_offset :: "string \<Rightarrow> offset" where
  "parse_offset s = (case ParseInt s of None \<Rightarrow> 0 | Some i \<Rightarrow> i)"

definition maxReadLen :: int where
  "maxReadLen = 67108864"

definition read_length :: "string \<Rightarrow> int" where
  "read_length s =
     (let len = (case ParseInt s of None \<Rightarrow> 4096 | Some i \<Rightarrow> if i \<le> 0 then 4096 else i)
      in if len > maxReadLen then maxReadLen else len)"

text \<open>Cutting the buffer at a length outside it panics, and the framework turns that into a 500.\<close>

definition handleRead :: handler where
  "handleRead env rq s =
     (let p = field ''path'' (rq_query rq); off = parse_offset (field ''offset'' (rq_query rq));
          len = read_length (field ''length'' (rq_query rq))
      in if p = '''' then (respondError BadRequest (Required ''path''), s)
         else (case Read (gw_first env) (gw_read env) p off (replicate (nat len) 0) s of
             ((n, err, buf), s) \<Rightarrow>
               (case err of
                  Some e \<Rightarrow> if e \<noteq> CallError (Os EOF) then (respondError InternalServerError (ClientError e), s)
                    else if n < 0 \<or> n > int (length buf) then (respondError InternalServerError Recovered, s)
                    else (\<lparr>rs_status = OK, rs_header = [(''X-Bytes-Read'', itoa n)], rs_payload = Bytes (take (nat n) buf)\<rparr>, s)
                | None \<Rightarrow> if n < 0 \<or> n > int (length buf) then (respondError InternalServerError Recovered, s)
                    else (\<lparr>rs_status = OK, rs_header = [(''X-Bytes-Read'', itoa n)], rs_payload = Bytes (take (nat n) buf)\<rparr>, s))))"

definition handleWrite :: handler where
  "handleWrite env rq s =
     (let p = field ''path'' (rq_query rq); off = parse_offset (field ''offset'' (rq_query rq)) in
      if p = '''' then (respondError BadRequest (Required ''path''), s)
      else (case rq_body rq of
          None \<Rightarrow> (respondError BadRequest BadBody, s)
        | Some bs \<Rightarrow> reply_with (Write (gw_rounds env) (gw_first env) (gw_write env) p off bs s) (\<lambda>n s.
            (respondJSON OK (BytesWritten n off), s))))"

definition handleAppend :: handler where
  "handleAppend env rq s =
     (let p = field ''path'' (rq_query rq) in
      if p = '''' then (respondError BadRequest (Required ''path''), s)
      else (case rq_body rq of
          None \<Rightarrow> (respondError BadRequest BadBody, s)
        | Some bs \<Rightarrow> reply_with (Append (gw_rounds env) (gw_first env) (gw_append env) p bs s) (\<lambda>off s.
            (respondJSON OK (BytesAdded off (int (length bs))), s))))"

definition handleGetChunkHandle :: handler where
  "handleGetChunkHandle env rq s =
     (let p = field ''path'' (rq_query rq); indexStr = field ''index'' (rq_query rq) in
      if p = '''' \<or> indexStr = '''' then (respondError BadRequest (Required ''path and index''), s)
      else (case ParseInt indexStr of
          None \<Rightarrow> (respondError BadRequest (Invalid ''index''), s)
        | Some index \<Rightarrow> reply_with (GetChunkHandle (gw_first env) p index s) (\<lambda>h s. (respondJSON OK (ChunkHandle h p index), s))))"

definition handleGetChunkServers :: handler where
  "handleGetChunkServers env rq s =
     (let handleStr = field ''handle'' (rq_query rq) in
      if handleStr = '''' then (respondError BadRequest (Required ''handle''), s)
      else (case ParseInt handleStr of
          None \<Rightarrow> (respondError BadRequest (Invalid ''handle''), s)
        | Some h \<Rightarrow> reply_with (GetChunkServers (gw_first env) h s) (\<lambda>ls s. (respondJSON OK (ChunkServers ls), s))))"

definition handleHealth :: handler where
  "handleHealth env rq s = (respondJSON OK (Healthy (hc_now (gw_first env) div Second)), s)"

section \<open>Routes\<close>

definition routes :: "((http_method \<times> string) \<times> handler) list" where
  "routes = [
     ((GET, ''/api/v1/chunk/handle''), handleGetChunkHandle),
     ((GET, ''/api/v1/chunk/servers''), handleGetChunkServers),
     ((POST, ''/api/v1/mkdir''), handleMkDir),
     ((POST, ''/api/v1/create''), handleCreateFile),
     ((DELETE, ''/api/v1/delete''), handleDeleteFile),
     ((PATCH, ''/api/v1/rename''), handleRenameFile),
     ((GET, ''/api/v1/list''), handleList),
     ((GET, ''/api/v1/fileinfo''), handleGetFileInfo),
     ((GET, ''/api/v1/read''), handleRead),
     ((POST, ''/api/v1/write''), handleWrite),
     ((PATCH, ''/api/v1/append''), handleAppend),
     ((GET, ''/health''), handleHealth)]"

definition serve_request :: handler where
  "serve_request env rq s = (case map_of routes (rq_method rq, rq_route rq) of
     Some h \<Rightarrow> h env rq s
   | None \<Rightarrow> (respondError 404 NoRoute, s))"

end
