(* ===== verification/Gateway_Properties.thy ===== *)
theory Gateway_Properties
  imports Gateway Client_Reads
begin

text \<open>
  The HTTP gateway over the whole system: rejected requests, numbers in requests, and what a read
  request returns.
\<close>

section \<open>Numbers\<close>

lemma digits_value_eq: "digits_value = undigits"
proof (intro ext)
  show "digits_value acc cs = undigits acc cs" for acc cs by (induction acc cs rule: undigits.induct) simp_all
qed

lemma digits_are_digits: "list_all is_digit (digits n)"
  using digits_chars by (auto simp: list_all_iff is_digit_def)

lemma digits_no_sign: "hd (digits n) \<noteq> CHR ''-''" "hd (digits n) \<noteq> CHR ''+''"
  using digits_chars [of "hd (digits n)" n] by auto

lemma ParseInt_itoa: "- (2 ^ 63) \<le> i \<Longrightarrow> i < 2 ^ 63 \<Longrightarrow> ParseInt (itoa i) = Some i"
  using digits_are_digits digits_no_sign undigits_digits
  by (auto simp: ParseInt_def itoa_def Let_def digits_value_eq nat_less_iff)

section \<open>Rejected requests\<close>

text \<open>
  A handler in good order: a request that is neither served nor failed leaves the system alone, and
  no request makes the handler panic.
\<close>

definition orderly :: "handler \<Rightarrow> bool" where
  "orderly h \<longleftrightarrow> (\<forall>env rq s. rs_payload (fst (h env rq s)) \<noteq> ErrorResponse Recovered None \<and>
     (rs_status (fst (h env rq s)) \<in> {OK, InternalServerError} \<or> rs_status (fst (h env rq s)) = BadRequest \<and> snd (h env rq s) = s))"

lemmas response_simps = respondError_def respondJSON_def

lemma orderly_handlers:
  "orderly handleMkDir" "orderly handleCreateFile" "orderly handleDeleteFile" "orderly handleRenameFile" "orderly handleList"
  "orderly handleGetFileInfo" "orderly handleWrite" "orderly handleAppend" "orderly handleGetChunkHandle" "orderly handleGetChunkServers"
  "orderly handleHealth"
  unfolding orderly_def handleMkDir_def handleCreateFile_def handleDeleteFile_def handleRenameFile_def handleList_def handleGetFileInfo_def
    handleWrite_def handleAppend_def handleGetChunkHandle_def handleGetChunkServers_def handleHealth_def with_json_def Let_def
  by (auto simp: response_simps reply_with_def split: option.splits prod.splits sum.splits)

text \<open>A read never reports more bytes than the buffer holds, whatever the servers and the network do.\<close>

lemma server_call_return:
  assumes "server_call env a f s = (Inr x, s')"
  shows "\<exists>cl. fst (f cl) = Return x"
proof -
  obtain cl' where c: "call (hc_cs env) a f (sys_servers s) = (Return x, cl')"
    using assms by (auto simp: server_call_def split: prod.splits outcome.splits)
  then show ?thesis
    using unicast_loop_iterates [of "take 3 (ev_net (hc_cs env) a)" a f "RpcErr DialFailed a" "sys_servers s"]
    by (auto simp: call_def UnicastToRPCServer_def DefaultRetryConfig_def) (metis fst_conv)
qed

lemma ReadChunk_reply_bounds:
  "fst (at_server a (RPCReadChunkHandler now h off n) cl) = Return rp \<Longrightarrow> 0 \<le> rr_Length rp \<and> rr_Length rp \<le> n"
  by (auto simp: at_server_def RPCReadChunkHandler_def readChunk_def ReadAt_def Let_def
      split: option.splits prod.splits outcome.splits if_splits)

lemma ReadChunk_bounds:
  assumes "ReadChunk env h off buf s = ((rn, e, part), s')"
  shows "length part = length buf \<and> 0 \<le> rn \<and> rn \<le> int (length buf) \<and> e \<noteq> Some (CallError x)"
proof -
  define n where "n = (if ChunkMaxSizeInByte - off > int (length buf) then int (length buf) else ChunkMaxSizeInByte - off)"
  have le: "n \<le> int (length buf)" by (simp add: n_def)
  consider "rn = 0" "e = Some (Code UnknownError)" "part = buf" |
      a s1 rp where "server_call env a (at_server a (RPCReadChunkHandler (hc_now env) h off n)) s1 = (Inr rp, s')" "rn = rr_Length rp"
        "e \<in> {None, Some (Code ReadEOF)}" "part \<in> {buf, take (length buf) (rr_Data rp) @ drop (length (rr_Data rp)) buf}"
    using assms unfolding ReadChunk_def Let_def n_def [symmetric] by (auto split: prod.splits sum.splits if_splits)
  then show ?thesis
  proof cases
    case 2
    have "0 \<le> rr_Length rp \<and> rr_Length rp \<le> n"
      using server_call_return [where f = "at_server a (RPCReadChunkHandler (hc_now env) h off n)", OF 2(1)] ReadChunk_reply_bounds by blast
    then show ?thesis using le 2 by auto
  qed simp
qed

lemma master_call_error: "master_call env f s = (Inl e, s') \<Longrightarrow> e \<noteq> CallError (Os x)"
proof -
  assume m: "master_call env f s = (Inl e, s')"
  have "fst (unicast_loop fates addr f e0 s) \<noteq> Fail (Os x)" if "e0 \<noteq> Os x" for fates addr e0 s
    using that by (induction fates addr f e0 s rule: unicast_loop.induct) (auto split: prod.splits outcome.splits)
  then show ?thesis using m
    by (auto simp: master_call_def UnicastToRPCServer_def DefaultRetryConfig_def split: prod.splits outcome.splits) (metis fst_conv go_error.distinct)+
qed

lemma read_loop_bounds:
  assumes "read_loop fuel env p cnt off pos buf s = ((n, e, buf'), s')" and "pos \<le> length buf" and "e \<in> {None, Some (CallError (Os EOF))}"
  shows "0 \<le> n \<and> n \<le> int (length buf')"
  using assms
proof (induction fuel arbitrary: off pos buf s)
  case (Suc fuel)
  let ?i = "off sdiv ChunkMaxSizeInByte" and ?o = "off smod ChunkMaxSizeInByte"
  show ?case
  proof (cases "pos < length buf \<and> \<not> ?i > cnt")
    case True
    obtain r s1 where g: "GetChunkHandle (env fuel) p ?i s = (r, s1)" by fastforce
    show ?thesis
    proof (cases r)
      case (Inl x)
      then show ?thesis
        using Suc.prems(1,3) True g master_call_error [where f = "serve_GetChunkHandle (env fuel) p ?i" and x = EOF] by (auto simp: Let_def GetChunkHandle_def)
    next
      case (Inr h)
      obtain rn x part s2 where rc: "ReadChunk (env fuel) h ?o (drop pos buf) s1 = ((rn, x, part), s2)" by (metis prod.collapse)
      have b: "length part = length buf - pos" "0 \<le> rn" "rn \<le> int (length buf - pos)" "x \<noteq> Some (CallError (Os EOF))"
        using ReadChunk_bounds [OF rc, of "Os EOF"] by auto
      show ?thesis
      proof (cases x)
        case None
        then have "read_loop fuel env p cnt (off + rn) (nat (int pos + rn)) (take pos buf @ part) s2 = ((n, e, buf'), s')"
          using Suc.prems(1) True g Inr rc by (simp add: Let_def)
        then show ?thesis by (rule Suc.IH) (use b True Suc.prems(3) in auto)
      next
        case (Some y)
        then show ?thesis using Suc.prems True g Inr rc b by (auto simp: Let_def split: if_splits)
      qed
    qed
  next
    case False
    then show ?thesis using Suc.prems by (auto simp: Let_def split: if_splits)
  qed
qed auto

lemma Read_bounds:
  assumes "Read env0 env p off buf s = ((n, e, buf'), s')" and "e \<in> {None, Some (CallError (Os EOF))}"
  shows "0 \<le> n \<and> n \<le> int (length buf')"
proof -
  obtain r s1 where g: "GetFile env0 p s = (r, s1)" by fastforce
  show ?thesis
  proof (cases r)
    case (Inl x)
    then show ?thesis
      using assms g master_call_error [where f = "on_master (RPCGetFileInfoHandler p)" and x = EOF] by (auto simp: Read_def GetFile_def)
  next
    case (Inr y)
    then obtain cnt d l where "r = Inr (cnt, d, l)" by (metis prod.collapse)
    with assms g have "read_loop (Suc (length buf)) env p cnt off 0 buf s1 = ((n, e, buf'), s')"
      by (auto simp: Read_def simp del: read_loop.simps split: if_splits)
    then show ?thesis by (rule read_loop_bounds) (use assms(2) in auto)
  qed
qed

lemma orderly_Read: "orderly handleRead"
  unfolding orderly_def
proof (intro allI)
  fix env :: gateway_env and rq :: request and s :: system
  let ?buf = "replicate (nat (read_length (field ''length'' (rq_query rq)))) 0"
  obtain n e buf s' where r: "Read (gw_first env) (gw_read env) (field ''path'' (rq_query rq)) (parse_offset (field ''offset'' (rq_query rq))) ?buf s = ((n, e, buf), s')"
    by (metis prod.collapse)
  show "rs_payload (fst (handleRead env rq s)) \<noteq> ErrorResponse Recovered None \<and>
     (rs_status (fst (handleRead env rq s)) \<in> {OK, InternalServerError} \<or>
      rs_status (fst (handleRead env rq s)) = BadRequest \<and> snd (handleRead env rq s) = s)"
    using Read_bounds [OF r] by (auto simp: handleRead_def Let_def r response_simps split: option.splits)
qed


definition demo_gateway_env :: gateway_env where
  "demo_gateway_env = \<lparr>gw_first = demo_client_env, gw_second = demo_client_env, gw_read = (\<lambda>_. demo_client_env),
     gw_write = (\<lambda>_ _ _. demo_client_env), gw_append = (\<lambda>_ _. demo_client_env), gw_rounds = 9\<rparr>"

definition get_request :: "string \<Rightarrow> (string \<times> string) list \<Rightarrow> request" where
  "get_request route q = \<lparr>rq_method = GET, rq_route = route, rq_query = q, rq_json = None, rq_body = None\<rparr>"


section \<open>Reading over HTTP\<close>

text \<open>
  C4. What a read request returns. For a file whose chunks are held by all their replicas, a
  network that delivers, and an offset inside the file: when the request stays within the file the
  answer is 200 with exactly the bytes of the file from the offset on. When it reaches beyond the
  end, in a last chunk that is not full, the answer is also 200 and has the right length, but its
  bytes are all zero, because the client does not copy the data of a reply that reports the end of
  the file. A request without a length asks for 4096 bytes, so any shorter file reads as zeros.
\<close>

theorem handleRead_returns_bytes_or_zeros:
  fixes off :: nat and len :: nat
  assumes "delivers (gw_first env)" and "\<And>k. delivers (gw_read env k)" and "chunked (nat ChunkMaxSizeInByte) bss" and "list_all valid_comp d"
    and "ValidateFilename b (abs_path (d @ [b])) = None" and "file_held (d @ [b]) bss s"
    and rq: "field ''path'' (rq_query rq) = abs_path (d @ [b])" "parse_offset (field ''offset'' (rq_query rq)) = int off"
      "read_length (field ''length'' (rq_query rq)) = int len"
    and off: "off < length (concat bss)"
    and "off + len \<le> length (concat bss) \<or> off div nat ChunkMaxSizeInByte = length bss - 1 \<and> length (last bss) < nat ChunkMaxSizeInByte"
  shows "\<exists>s'. handleRead env rq s = (\<lparr>rs_status = OK, rs_header = [(''X-Bytes-Read'', itoa (int (min len (length (concat bss) - off))))],
      rs_payload = Bytes (if off + len \<le> length (concat bss) then take len (drop off (concat bss))
        else replicate (length (concat bss) - off) 0)\<rparr>, s') \<and> file_held (d @ [b]) bss s'"
proof (cases "off + len \<le> length (concat bss)")
  case True
  then obtain s' where "Read (gw_first env) (gw_read env) (abs_path (d @ [b])) (int off) (replicate len 0) s =
      ((int len, None, take len (drop off (concat bss))), s')" "file_held (d @ [b]) bss s'"
    using Read_exact [where env = "gw_read env" and buf = "replicate len 0", OF assms(1-5) _ assms(6)] by auto
  moreover have "min len (length (concat bss) - off) = len" using True by simp
  ultimately show ?thesis using True rq by (simp add: handleRead_def Let_def abs_path_def)
next
  case False
  then have l: "off div nat ChunkMaxSizeInByte = length bss - 1" "length (last bss) < nat ChunkMaxSizeInByte" "length (concat bss) < off + len"
    using assms(11) by auto
  obtain s' where "Read (gw_first env) (gw_read env) (abs_path (d @ [b])) (int off) (replicate len 0) s =
      ((int (length (concat bss) - off), Some (CallError (Os EOF)), replicate len 0), s')" "file_held (d @ [b]) bss s'"
    using Read_beyond_end [where env = "gw_read env" and buf = "replicate len 0", OF assms(1-5) off l(1,2) _ assms(6)] l(3) by auto
  moreover have "min len (length (concat bss) - off) = length (concat bss) - off" "length (concat bss) - off \<le> len" using l(3) by simp_all
  ultimately show ?thesis using False rq by (simp add: handleRead_def Let_def abs_path_def)
qed

theorem handleRead_returns_bytes_or_zeros_witness:
  "\<exists>s' s''. handleRead demo_gateway_env (get_request ''/api/v1/read'' [(''path'', ''/f.txt''), (''length'', ''2'')]) (read_system [4, 2, 3]) =
     (\<lparr>rs_status = 200, rs_header = [(''X-Bytes-Read'', itoa 2)], rs_payload = Bytes [4, 2]\<rparr>, s') \<and>
   handleRead demo_gateway_env (get_request ''/api/v1/read'' [(''path'', ''/f.txt'')]) (read_system [4, 2, 3]) =
     (\<lparr>rs_status = 200, rs_header = [(''X-Bytes-Read'', itoa 3)], rs_payload = Bytes [0, 0, 0]\<rparr>, s'')"
proof -
  have p: "abs_path [''f.txt''] = ''/f.txt''" by (simp add: abs_path_def)
  have e: "delivers (gw_first demo_gateway_env)" "delivers (gw_read demo_gateway_env k)" for k
    by (simp_all add: demo_gateway_env_def delivers_def demo_client_env_def demo_env_def)
  have c: "chunked (nat ChunkMaxSizeInByte) [[4, 2, 3] :: byte list]" "length (last [[4, 2, 3] :: byte list]) < nat ChunkMaxSizeInByte"
    by (simp_all add: chunked_def ChunkMaxSizeInByte_def)
  have h: "file_held ([] @ [''f.txt'']) [[4, 2, 3]] (read_system [4, 2, 3])" by (rule read_system_held) (simp add: ChunkMaxSizeInByte_def)
  have n: "ValidateFilename ''f.txt'' (abs_path ([] @ [''f.txt''])) = None" by (simp add: ValidateFilename_def)
  have q: "parse_offset '''' = int 0" "read_length ''2'' = int 2" "read_length '''' = int 4096"
    by (simp_all add: parse_offset_def read_length_def ParseInt_def is_digit_def maxReadLen_def Let_def)
  have rq: "field ''path'' (rq_query (get_request r [(''path'', ''/f.txt''), x])) = abs_path ([] @ [''f.txt''])"
    "field ''path'' (rq_query (get_request r [(''path'', ''/f.txt'')])) = abs_path ([] @ [''f.txt''])"
    "field ''offset'' (rq_query (get_request r [(''path'', ''/f.txt'')])) = ''''"
    "field ''length'' (rq_query (get_request r [(''path'', ''/f.txt'')])) = ''''" for r x
    by (simp_all add: p field_def get_request_def)
  note read = handleRead_returns_bytes_or_zeros [where env = demo_gateway_env and s = "read_system [4, 2, 3]" and off = 0, OF e c(1) _ n h]
  let ?rq1 = "get_request ''/api/v1/read'' [(''path'', ''/f.txt''), (''length'', ''2'')]" and ?rq2 = "get_request ''/api/v1/read'' [(''path'', ''/f.txt'')]"
  have q1: "parse_offset (field ''offset'' (rq_query ?rq1)) = int 0" "read_length (field ''length'' (rq_query ?rq1)) = int 2"
    and q2: "parse_offset (field ''offset'' (rq_query ?rq2)) = int 0" "read_length (field ''length'' (rq_query ?rq2)) = int 4096"
    using q by (simp_all add: field_def get_request_def)
  obtain s' where "handleRead demo_gateway_env ?rq1 (read_system [4, 2, 3]) =
      (\<lparr>rs_status = 200, rs_header = [(''X-Bytes-Read'', itoa 2)], rs_payload = Bytes [4, 2]\<rparr>, s')"
    using read [OF _ rq(1) q1] by auto
  moreover obtain s'' where "handleRead demo_gateway_env ?rq2 (read_system [4, 2, 3]) =
      (\<lparr>rs_status = 200, rs_header = [(''X-Bytes-Read'', itoa 3)], rs_payload = Bytes [0, 0, 0]\<rparr>, s'')"
    using read [OF _ rq(2) q2] c(2) by auto
  ultimately show ?thesis by auto
qed

end
