(* ===== verification/Failure_Detector.thy ===== *)
theory Failure_Detector
  imports Helpers "HOL-Library.Multiset" "HOL-Library.Char_ord" "HOL-Library.List_Lexorder" "HOL-Library.Product_Lexorder"
begin

text \<open>
  The failure detector, \<^verbatim>\<open>src/detector/sampling_window.go\<close> and \<^verbatim>\<open>src/detector/failure_detector.go\<close>:
  samples of heartbeats in a sorted set of a Redis server, and the suspicion computed from them.
  The Redis commands, the JSON encoding of a sample and the error function are parameters.
  Floating-point numbers are real numbers here; rounding is not modelled.
\<close>

section \<open>Samples\<close>

record entry =
  e_Eta :: time
  e_Id :: string
  e_Duration :: time

definition Millisecond :: time where
  "Millisecond = 1000000"

abbreviation UnixMilli :: "time \<Rightarrow> int" where
  "UnixMilli t \<equiv> t div Millisecond"

definition Score :: "entry \<Rightarrow> int" where
  "Score e = UnixMilli (e_Eta e)"

text \<open>The zero value of a time stamp is \<^const>\<open>None\<close>.\<close>

record trip_info =
  SentAt :: "time option"
  ReceivedAt :: "time option"

definition trip_Valid :: "trip_info \<Rightarrow> bool" where
  "trip_Valid tf = (case (SentAt tf, ReceivedAt tf) of (Some a, Some b) \<Rightarrow> a < b | _ \<Rightarrow> False)"

definition Latency :: "trip_info \<Rightarrow> time" where
  "Latency tf = (if trip_Valid tf then the (ReceivedAt tf) - the (SentAt tf) else 0)"

record network_data =
  ForwardTrip :: trip_info
  BackwardTrip :: trip_info
  RoundTrip :: time

definition Valid :: "network_data \<Rightarrow> bool" where
  "Valid nd \<longleftrightarrow> trip_Valid (ForwardTrip nd) \<and> trip_Valid (BackwardTrip nd)"

definition CalculateRoundTrip :: "network_data \<Rightarrow> network_data" where
  "CalculateRoundTrip nd = nd\<lparr>RoundTrip := (if Valid nd then Latency (ForwardTrip nd) + Latency (BackwardTrip nd) else 0)\<rparr>"

section \<open>The sampling window\<close>

text \<open>
  The commands on one sorted set that the window uses, the encoding of its members, and whether the
  server can be reached.
\<close>

record 's redis =
  ZREMRANGEBYSCORE :: "int \<Rightarrow> 's \<Rightarrow> 's"
  ZADD :: "int \<Rightarrow> string \<Rightarrow> 's \<Rightarrow> 's"
  ZCARD :: "'s \<Rightarrow> nat"
  ZREMRANGEBYRANK :: "nat \<Rightarrow> nat \<Rightarrow> 's \<Rightarrow> 's"
  ZRANGEBYSCORE :: "int \<Rightarrow> 's \<Rightarrow> string list"
  Marshal :: "entry \<Rightarrow> string"
  Unmarshal :: "string \<Rightarrow> entry option"
  Reachable :: bool

datatype detector_error = AlreadyShutdown | InvalidTrip | ConnectionFailed | MalformedMember string | UnmarshalFailed string
  | HistoricalSampling | NotEnoughHistoricalSamples | InsufficientIntervalData | ZeroVariance | MakeSlicePanic

record sampling_window =
  sw_key :: string
  sw_size :: int
  sw_ttl :: time

definition NewSamplingWindow :: "bool \<Rightarrow> string \<Rightarrow> int \<Rightarrow> time \<Rightarrow> detector_error + sampling_window" where
  "NewSamplingWindow online key sz ttl =
     (let sz = (if sz \<le> 0 then 10 else sz); ttl = (if ttl \<le> 0 then Second else ttl)
      in if \<not> online then Inl ConnectionFailed else Inr \<lparr>sw_key = key, sw_size = sz, sw_ttl = ttl\<rparr>)"

text \<open>The script that runs atomically on the server.\<close>

definition addScript :: "'s redis \<Rightarrow> int \<Rightarrow> int \<Rightarrow> int \<Rightarrow> int \<Rightarrow> string \<Rightarrow> 's \<Rightarrow> 's" where
  "addScript rd now ttlMs sz score member st =
     (let st = ZREMRANGEBYSCORE rd (now - ttlMs) st;
          st = ZADD rd score member st;
          card = int (ZCARD rd st)
      in if card > sz then ZREMRANGEBYRANK rd 0 (nat (card - sz - 1)) st else st)"

definition member_of :: "'s redis \<Rightarrow> entry \<Rightarrow> string" where
  "member_of rd e = e_Id e @ ''|'' @ Marshal rd e"

definition Add :: "'s redis \<Rightarrow> time \<Rightarrow> sampling_window \<Rightarrow> entry \<Rightarrow> 's \<Rightarrow> (detector_error + unit) \<times> 's" where
  "Add rd now sw e st =
     (if \<not> Reachable rd then (Inl ConnectionFailed, st)
      else (Inr (), addScript rd (UnixMilli now) (UnixMilli (sw_ttl sw)) (sw_size sw) (Score e) (member_of rd e) st))"

text \<open>\<^verbatim>\<open>strings.Cut\<close> at the first separator.\<close>

definition cut_bar :: "string \<Rightarrow> string option" where
  "cut_bar raw = (case dropWhile (\<lambda>c. c \<noteq> CHR ''|'') raw of [] \<Rightarrow> None | _ # rest \<Rightarrow> Some rest)"

fun decode_members :: "'s redis \<Rightarrow> string list \<Rightarrow> detector_error + entry list" where
  "decode_members rd [] = Inr []"
| "decode_members rd (raw # ms) = (case cut_bar raw of
     None \<Rightarrow> Inl (MalformedMember raw)
   | Some after \<Rightarrow> (case Unmarshal rd after of
       None \<Rightarrow> Inl (UnmarshalFailed after)
     | Some e \<Rightarrow> (case decode_members rd ms of Inl x \<Rightarrow> Inl x | Inr es \<Rightarrow> Inr (e # es))))"

text \<open>The members come in ascending order and are returned newest first.\<close>

definition Get :: "'s redis \<Rightarrow> time \<Rightarrow> sampling_window \<Rightarrow> 's \<Rightarrow> detector_error + entry list" where
  "Get rd now sw st =
     (if \<not> Reachable rd then Inl ConnectionFailed
      else decode_members rd (rev (ZRANGEBYSCORE rd (UnixMilli now - UnixMilli (sw_ttl sw)) st)))"

section \<open>Suspicion\<close>

datatype action = AccumulationThresholdAlert | UpperBoundThresholdAlert | ResetThresholdAlert

record suspicion_level =
  AccumulationThreshold :: real
  UpperBoundThreshold :: real

datatype phi_value = Finite real | Infinite

definition at_least :: "phi_value \<Rightarrow> real \<Rightarrow> bool" where
  "at_least p t = (case p of Infinite \<Rightarrow> True | Finite x \<Rightarrow> x \<ge> t)"

definition Interpret :: "suspicion_level \<Rightarrow> phi_value \<Rightarrow> action" where
  "Interpret l p =
     (if at_least p (AccumulationThreshold l) then AccumulationThresholdAlert
      else if at_least p (UpperBoundThreshold l) then UpperBoundThresholdAlert
      else ResetThresholdAlert)"

definition phi :: "(real \<Rightarrow> real) \<Rightarrow> real \<Rightarrow> real \<Rightarrow> real \<Rightarrow> phi_value" where
  "phi erf timeDiff mean stdDeviation =
     (if stdDeviation = 0 then Infinite
      else let z = (timeDiff - mean) / stdDeviation; cdf = 1 / 2 * (1 + erf (z / sqrt 2))
           in if cdf \<ge> 1 then Infinite else Finite (- log 10 (1 - cdf)))"

record 's failure_detector =
  fd_Window :: sampling_window
  fd_SuspicionLevel :: suspicion_level
  fd_isShutdown :: bool
  fd_store :: 's

definition NewFailureDetector :: "bool \<Rightarrow> string \<Rightarrow> int \<Rightarrow> time \<Rightarrow> suspicion_level \<Rightarrow> 's \<Rightarrow> detector_error + 's failure_detector" where
  "NewFailureDetector online key sz ttl l st = (case NewSamplingWindow online key sz ttl of
     Inl e \<Rightarrow> Inl e
   | Inr sw \<Rightarrow> Inr \<lparr>fd_Window = sw, fd_SuspicionLevel = l, fd_isShutdown = False, fd_store = st\<rparr>)"

definition Track :: "'s redis \<Rightarrow> time \<Rightarrow> string \<Rightarrow> network_data \<Rightarrow> 's failure_detector \<Rightarrow> (detector_error + unit) \<times> 's failure_detector" where
  "Track rd now uuid nd fd =
     (if fd_isShutdown fd then (Inl AlreadyShutdown, fd)
      else if \<not> Valid nd then (Inl InvalidTrip, fd)
      else let heartbeat = \<lparr>e_Eta = now, e_Id = uuid, e_Duration = RoundTrip (CalculateRoundTrip nd)\<rparr>
           in (case Add rd now (fd_Window fd) heartbeat (fd_store fd) of (r, st) \<Rightarrow> (r, fd\<lparr>fd_store := st\<rparr>)))"

text \<open>The differences of neighbouring arrival times.\<close>

fun gaps :: "int list \<Rightarrow> int list" where
  "gaps (x # y # xs) = (y - x) # gaps (y # xs)"
| "gaps _ = []"

definition mean_of :: "int list \<Rightarrow> real" where
  "mean_of xs = real_of_int (sum_list xs) / real (length xs)"

definition variance_of :: "int list \<Rightarrow> real" where
  "variance_of xs = sum_list (map (\<lambda>x. (real_of_int x - mean_of xs)\<^sup>2) xs) / real (length xs)"

definition Predict :: "'s redis \<Rightarrow> (real \<Rightarrow> real) \<Rightarrow> time \<Rightarrow> 's failure_detector \<Rightarrow> detector_error + action \<times> phi_value" where
  "Predict rd erf now fd =
     (if fd_isShutdown fd then Inl AlreadyShutdown
      else (case Get rd now (fd_Window fd) (fd_store fd) of
          Inl _ \<Rightarrow> Inl HistoricalSampling
        | Inr entries \<Rightarrow>
            if int (length entries) < sw_size (fd_Window fd) div 2 then Inl NotEnoughHistoricalSamples
            else let arrivalTimes = map Score (sort_key e_Eta entries); intervals = gaps arrivalTimes in
              if arrivalTimes = [] then Inl MakeSlicePanic
              else if intervals = [] then Inl InsufficientIntervalData
              else if variance_of intervals = 0 then Inl ZeroVariance
              else let p = phi erf (real_of_int (UnixMilli now - last arrivalTimes)) (mean_of intervals) (sqrt (variance_of intervals))
                   in Inr (Interpret (fd_SuspicionLevel fd) p, p)))"

definition Shutdown :: "'s failure_detector \<Rightarrow> 's failure_detector" where
  "Shutdown fd = fd\<lparr>fd_isShutdown := True\<rparr>"

section \<open>The window keeps the newest samples\<close>

text \<open>
  What the window relies on: the documented effect of the commands on the members of the sorted
  set, ordered by score and then by name, and that decoding undoes encoding.
\<close>

definition redis_ok :: "'s redis \<Rightarrow> ('s \<Rightarrow> (int \<times> string) list) \<Rightarrow> bool" where
  "redis_ok rd mem \<longleftrightarrow>
     (\<forall>st m. mem (ZREMRANGEBYSCORE rd m st) = filter (\<lambda>x. fst x > m) (mem st)) \<and>
     (\<forall>st sc m. mem (ZADD rd sc m st) = insort (sc, m) (filter (\<lambda>x. snd x \<noteq> m) (mem st))) \<and>
     (\<forall>st. ZCARD rd st = length (mem st)) \<and>
     (\<forall>st k. mem (ZREMRANGEBYRANK rd 0 k st) = drop (Suc k) (mem st)) \<and>
     (\<forall>st m. ZRANGEBYSCORE rd m st = map snd (filter (\<lambda>x. fst x \<ge> m) (mem st))) \<and>
     (\<forall>e. Unmarshal rd (Marshal rd e) = Some e) \<and> Reachable rd"

lemma filter_takeWhile:
  "sorted_wrt (\<lambda>a b. f a > f b) xs \<Longrightarrow> (\<And>a b. f a > f b \<Longrightarrow> P b \<Longrightarrow> P a) \<Longrightarrow> filter P xs = takeWhile P xs"
proof (induction xs)
  case (Cons x xs)
  have "filter P xs = []" if "\<not> P x" using Cons.prems that by (auto simp: filter_empty_conv)
  with Cons show ?case by auto
qed simp

lemma takeWhile_narrow: "(\<And>x. Q x \<Longrightarrow> P x) \<Longrightarrow> takeWhile Q (take n (takeWhile P xs)) = take n (takeWhile Q xs)"
proof (induction xs arbitrary: n)
  case (Cons x xs)
  then show ?case by (cases n) auto
qed simp

lemma insort_last: "(\<And>y. y \<in> set xs \<Longrightarrow> y < x) \<Longrightarrow> insort x xs = xs @ [x]"
proof (induction xs)
  case (Cons y ys)
  have "y < x" using Cons.prems by simp
  then show ?case using Cons by (auto dest: leD)
qed simp

lemma sorted_wrt_prefix: "sorted_wrt P xs \<Longrightarrow> prefix ys xs \<Longrightarrow> sorted_wrt P ys"
  by (auto simp: prefix_def sorted_wrt_append)

abbreviation key :: "'s redis \<Rightarrow> entry \<Rightarrow> int \<times> string" where
  "key rd e \<equiv> (Score e, member_of rd e)"

definition kept :: "nat \<Rightarrow> int \<Rightarrow> int \<Rightarrow> entry list \<Rightarrow> entry list" where
  "kept n ttl now es = rev (take n (takeWhile (\<lambda>x. Score x > now - ttl) (rev es)))"

lemma kept_subset: "set (kept n ttl now es) \<subseteq> set es"
  by (auto simp: kept_def dest!: in_set_takeD set_takeWhileD)

lemma kept_length: "length (kept n ttl now es) \<le> n"
  by (simp add: kept_def)

lemma Add_step:
  assumes ok: "redis_ok rd mem" and "0 < sw_size sw" and "0 < UnixMilli (sw_ttl sw)"
    and st: "mem st = map (key rd) (kept (nat (sw_size sw)) (UnixMilli (sw_ttl sw)) t es)"
    and t: "t \<le> Score e" and new: "\<And>x. x \<in> set es \<Longrightarrow> Score x < Score e \<and> member_of rd x \<noteq> member_of rd e"
    and sorted: "sorted_wrt (\<lambda>a b. Score a < Score b) es"
  shows "mem (snd (Add rd (e_Eta e) sw e st)) = map (key rd) (kept (nat (sw_size sw)) (UnixMilli (sw_ttl sw)) (Score e) (es @ [e]))"
proof -
  let ?n = "nat (sw_size sw)" and ?T = "UnixMilli (sw_ttl sw)"
  let ?Q = "\<lambda>x. Score x > Score e - ?T"
  have dec: "sorted_wrt (\<lambda>a b. Score a > Score b) (rev es)" using sorted by (simp add: sorted_wrt_rev)
  define L where "L = rev (take ?n (takeWhile ?Q (rev es)))"
  have "filter ?Q (take ?n (takeWhile (\<lambda>x. Score x > t - ?T) (rev es))) = takeWhile ?Q (take ?n (takeWhile (\<lambda>x. Score x > t - ?T) (rev es)))"
    by (rule filter_takeWhile [where f = Score]) (use dec in \<open>auto intro!: sorted_wrt_take sorted_wrt_prefix [OF _ takeWhile_is_prefix]\<close>)
  also have "\<dots> = take ?n (takeWhile ?Q (rev es))" by (rule takeWhile_narrow) (use t in simp)
  finally have "filter (\<lambda>x. fst x > Score e - ?T) (mem st) = map (key rd) L"
    by (simp add: st kept_def filter_map comp_def rev_filter [symmetric] L_def)
  then have 1: "mem (ZREMRANGEBYSCORE rd (UnixMilli (e_Eta e) - ?T) st) = map (key rd) L"
    using ok by (simp add: redis_ok_def Score_def)
  have sub: "set L \<subseteq> set es" by (auto simp: L_def dest!: in_set_takeD set_takeWhileD)
  have "filter (\<lambda>x. snd x \<noteq> member_of rd e) (map (key rd) L) = map (key rd) L" using sub new by (auto simp: filter_id_conv)
  moreover have "insort (key rd e) (map (key rd) L) = map (key rd) L @ [key rd e]"
    by (rule insort_last) (use sub new in \<open>auto simp: less_prod_def\<close>)
  ultimately have 2: "mem (ZADD rd (Score e) (member_of rd e) (ZREMRANGEBYSCORE rd (UnixMilli (e_Eta e) - ?T) st)) = map (key rd) (L @ [e])"
    using ok 1 by (simp add: redis_ok_def)
  have "length L \<le> ?n" by (simp add: L_def)
  let ?st = "ZADD rd (Score e) (member_of rd e) (ZREMRANGEBYSCORE rd (UnixMilli (e_Eta e) - ?T) st)"
  have up: "Reachable rd" using ok by (simp add: redis_ok_def)
  have card: "ZCARD rd ?st = Suc (length L)" and rank: "mem (ZREMRANGEBYRANK rd 0 k ?st) = drop (Suc k) (map (key rd) (L @ [e]))" for k
    using ok 2 by (simp_all add: redis_ok_def)
  have "Suc (nat (int (Suc (length L)) - sw_size sw - 1)) = length (L @ [e]) - ?n" if "int (Suc (length L)) > sw_size sw" using that assms(2) by simp
  then have "mem (snd (Add rd (e_Eta e) sw e st)) = map (key rd) (drop (length (L @ [e]) - ?n) (L @ [e]))"
    using 2 rank up unfolding Add_def addScript_def Let_def card drop_map [symmetric] by (cases "int (Suc (length L)) > sw_size sw") simp_all
  also have "drop (length (L @ [e]) - ?n) (L @ [e]) = kept ?n ?T (Score e) (es @ [e])"
  proof -
    have "take ?n (e # take ?n (takeWhile ?Q (rev es))) = take ?n (e # takeWhile ?Q (rev es))" by (cases ?n) simp_all
    then have "rev (take ?n (rev (L @ [e]))) = kept ?n ?T (Score e) (es @ [e])" using assms(3) by (simp add: kept_def L_def)
    then show ?thesis by (simp only: rev_take rev_rev_ident length_rev)
  qed
  finally show ?thesis .
qed

lemma split_at_bar: "CHR ''|'' \<notin> set xs \<Longrightarrow> takeWhile (\<lambda>c. c \<noteq> CHR ''|'') (xs @ CHR ''|'' # ys) = xs"
    "CHR ''|'' \<notin> set xs \<Longrightarrow> dropWhile (\<lambda>c. c \<noteq> CHR ''|'') (xs @ CHR ''|'' # ys) = CHR ''|'' # ys"
  by (induction xs) auto

lemma members_distinct:
  assumes "CHR ''|'' \<notin> set (e_Id a)" and "CHR ''|'' \<notin> set (e_Id b)" and "e_Id a \<noteq> e_Id b"
  shows "member_of rd a \<noteq> member_of rd b"
proof
  assume "member_of rd a = member_of rd b"
  then have "takeWhile (\<lambda>c. c \<noteq> CHR ''|'') (member_of rd a) = takeWhile (\<lambda>c. c \<noteq> CHR ''|'') (member_of rd b)" by simp
  moreover have "takeWhile (\<lambda>c. c \<noteq> CHR ''|'') (member_of rd x) = e_Id x" if "CHR ''|'' \<notin> set (e_Id x)" for x
    using that by (simp add: member_of_def split_at_bar)
  ultimately show False using assms by simp
qed

lemma cut_member: "CHR ''|'' \<notin> set (e_Id e) \<Longrightarrow> cut_bar (member_of rd e) = Some (Marshal rd e)"
  by (simp add: cut_bar_def member_of_def split_at_bar)

lemma decode_kept:
  assumes "redis_ok rd mem" and "\<And>e. e \<in> set es \<Longrightarrow> CHR ''|'' \<notin> set (e_Id e)"
  shows "decode_members rd (map (member_of rd) es) = Inr es"
  using assms(2)
proof (induction es)
  case (Cons e es)
  moreover have "Unmarshal rd (Marshal rd e) = Some e" using assms(1) by (simp add: redis_ok_def)
  ultimately show ?case by (simp add: cut_member)
qed simp

lemma window_after:
  assumes ok: "redis_ok rd mem" and "0 < sw_size sw" and "0 < UnixMilli (sw_ttl sw)" and "mem st = []"
  shows "sorted_wrt (\<lambda>a b. Score a < Score b) es \<Longrightarrow> distinct (map e_Id es) \<Longrightarrow> (\<And>e. e \<in> set es \<Longrightarrow> CHR ''|'' \<notin> set (e_Id e)) \<Longrightarrow>
    (\<And>e. e \<in> set es \<Longrightarrow> Score e \<le> t) \<Longrightarrow> es \<noteq> [] \<longrightarrow> t = Score (last es) \<Longrightarrow>
    mem (fold (\<lambda>e st. snd (Add rd (e_Eta e) sw e st)) es st) = map (key rd) (kept (nat (sw_size sw)) (UnixMilli (sw_ttl sw)) t es)"
proof (induction es arbitrary: t rule: rev_induct)
  case Nil
  then show ?case using assms(4) by (simp add: kept_def)
next
  case (snoc e es)
  let ?t = "if es = [] then Score e else Score (last es)"
  have lt: "Score x < Score e" if "x \<in> set es" for x using snoc.prems(1) that by (simp add: sorted_wrt_append)
  have le: "Score x \<le> ?t" if "x \<in> set es" for x
    using that snoc.prems(1) by (cases es rule: rev_cases) (auto simp: sorted_wrt_append order.order_iff_strict)
  have "e_Id x \<noteq> e_Id e" if "x \<in> set es" for x using snoc.prems(2) imageI [OF that, of e_Id] by auto
  then have "member_of rd x \<noteq> member_of rd e" if "x \<in> set es" for x
    using that snoc.prems(3) by (intro members_distinct) auto
  moreover have "mem (fold (\<lambda>e st. snd (Add rd (e_Eta e) sw e st)) es st) = map (key rd) (kept (nat (sw_size sw)) (UnixMilli (sw_ttl sw)) ?t es)"
    by (rule snoc.IH) (use snoc.prems le in \<open>auto simp: sorted_wrt_append\<close>)
  moreover have "?t \<le> Score e" using lt by (auto intro: less_imp_le)
  ultimately show ?case
    using Add_step [OF ok assms(2,3), where es = es and e = e] lt snoc.prems(1,5) by (simp add: sorted_wrt_append)
qed

lemma Get_newest:
  assumes "redis_ok rd mem" and "0 < sw_size sw" and "0 < UnixMilli (sw_ttl sw)" and "mem st = []"
    and "sorted_wrt (\<lambda>a b. Score a < Score b) es" and "distinct (map e_Id es)" and "\<forall>e \<in> set es. CHR ''|'' \<notin> set (e_Id e)"
    and "\<forall>e \<in> set es. Score e < UnixMilli now"
  shows "Get rd now sw (fold (\<lambda>e st. snd (Add rd (e_Eta e) sw e st)) es st) =
    Inr (take (nat (sw_size sw)) (rev (filter (\<lambda>e. Score e \<ge> UnixMilli now - UnixMilli (sw_ttl sw)) es)))"
proof -
  let ?n = "nat (sw_size sw)" and ?T = "UnixMilli (sw_ttl sw)" and ?m = "UnixMilli now - UnixMilli (sw_ttl sw)"
  let ?t = "if es = [] then 0 else Score (last es)" and ?P = "\<lambda>e. Score e \<ge> ?m"
  have le: "Score x \<le> ?t" if "x \<in> set es" for x
    using that assms(5) by (cases es rule: rev_cases) (auto simp: sorted_wrt_append order.order_iff_strict)
  have dec: "sorted_wrt (\<lambda>a b. Score a > Score b) (rev es)" using assms(5) by (simp add: sorted_wrt_rev)
  have w: "mem (fold (\<lambda>e st. snd (Add rd (e_Eta e) sw e st)) es st) = map (key rd) (kept ?n ?T ?t es)"
    by (rule window_after [OF assms(1-4,5,6)]) (use assms(7) le in auto)
  have "filter ?P (take ?n (takeWhile (\<lambda>x. Score x > ?t - ?T) (rev es))) = takeWhile ?P (take ?n (takeWhile (\<lambda>x. Score x > ?t - ?T) (rev es)))"
    by (rule filter_takeWhile [where f = Score]) (use dec in \<open>auto intro!: sorted_wrt_take sorted_wrt_prefix [OF _ takeWhile_is_prefix]\<close>)
  also have "\<dots> = take ?n (takeWhile ?P (rev es))"
  proof (cases "es = []")
    case False
    then have "?t < UnixMilli now" using assms(8) by simp
    then show ?thesis by (intro takeWhile_narrow) linarith
  qed simp
  also have "takeWhile ?P (rev es) = rev (filter ?P es)"
    using filter_takeWhile [where f = Score and P = ?P, OF dec] by (simp add: rev_filter)
  finally have f: "rev (filter ?P (kept ?n ?T ?t es)) = take ?n (rev (filter ?P es))" by (simp add: kept_def rev_filter)
  have "ZRANGEBYSCORE rd ?m (fold (\<lambda>e st. snd (Add rd (e_Eta e) sw e st)) es st) = map (member_of rd) (filter ?P (kept ?n ?T ?t es))"
    using assms(1) w by (simp add: redis_ok_def filter_map comp_def)
  then have "Get rd now sw (fold (\<lambda>e st. snd (Add rd (e_Eta e) sw e st)) es st) = decode_members rd (map (member_of rd) (take ?n (rev (filter ?P es))))"
    using assms(1) by (simp add: Get_def rev_map f redis_ok_def)
  also have "\<dots> = Inr (take ?n (rev (filter ?P es)))" by (rule decode_kept [OF assms(1)]) (use assms(7) in \<open>auto dest: in_set_takeD\<close>)
  finally show ?thesis .
qed

text \<open>
  C31. The sampling window is a window of the newest samples. Start with an empty sorted set and add
  samples with different ids at increasing milliseconds; later the window returns, newest first,
  exactly those samples that are not older than the time to live, cut to the size of the window.
\<close>

theorem window_returns_newest:
  assumes "redis_ok rd mem" and "0 < sw_size sw" and "0 < UnixMilli (sw_ttl sw)" and "mem st = []"
    and "sorted_wrt (\<lambda>a b. Score a < Score b) es" and "distinct (map e_Id es)" and "\<forall>e \<in> set es. CHR ''|'' \<notin> set (e_Id e)"
    and "\<forall>e \<in> set es. Score e < UnixMilli now"
  shows "Get rd now sw (fold (\<lambda>e st. snd (Add rd (e_Eta e) sw e st)) es st) =
    Inr (take (nat (sw_size sw)) (rev (filter (\<lambda>e. Score e \<ge> UnixMilli now - UnixMilli (sw_ttl sw)) es)))"
  by (rule Get_newest [OF assms])

text \<open>The commands on a sorted list, and samples encoded in unary.\<close>

definition unary :: "int \<Rightarrow> string" where
  "unary i = replicate (nat i) CHR ''p'' @ replicate (nat (- i)) CHR ''n''"

definition ununary :: "string \<Rightarrow> int" where
  "ununary s = int (length (filter (\<lambda>c. c = CHR ''p'') s)) - int (length (filter (\<lambda>c. c = CHR ''n'') s))"

lemma ununary_unary: "ununary (unary i) = i"
  by (simp add: ununary_def unary_def)

definition list_redis :: "(int \<times> string) list redis" where
  "list_redis = \<lparr>ZREMRANGEBYSCORE = (\<lambda>m. filter (\<lambda>x. fst x > m)), ZADD = (\<lambda>sc m xs. insort (sc, m) (filter (\<lambda>x. snd x \<noteq> m) xs)),
     ZCARD = length, ZREMRANGEBYRANK = (\<lambda>i k xs. take i xs @ drop (Suc k) xs), ZRANGEBYSCORE = (\<lambda>m xs. map snd (filter (\<lambda>x. fst x \<ge> m) xs)),
     Marshal = (\<lambda>e. unary (e_Eta e) @ CHR '':'' # unary (e_Duration e) @ CHR '':'' # e_Id e),
     Unmarshal = (\<lambda>s. let t = tl (dropWhile (\<lambda>c. c \<noteq> CHR '':'') s) in
       Some \<lparr>e_Eta = ununary (takeWhile (\<lambda>c. c \<noteq> CHR '':'') s), e_Id = tl (dropWhile (\<lambda>c. c \<noteq> CHR '':'') t),
         e_Duration = ununary (takeWhile (\<lambda>c. c \<noteq> CHR '':'') t)\<rparr>),
     Reachable = True\<rparr>"

lemma list_redis_ok: "redis_ok list_redis (\<lambda>xs. xs)"
proof -
  have no: "CHR '':'' \<notin> set (unary i)" for i by (auto simp: unary_def)
  have split: "takeWhile (\<lambda>c. c \<noteq> x) (xs @ x # ys) = xs" "dropWhile (\<lambda>c. c \<noteq> x) (xs @ x # ys) = x # ys" if "x \<notin> set xs" for x :: char and xs ys
    using that by (induction xs) auto
  show ?thesis unfolding redis_ok_def by (simp add: list_redis_def Let_def no split ununary_unary)
qed

definition sample :: "int \<Rightarrow> string \<Rightarrow> entry" where
  "sample ms i = \<lparr>e_Eta = ms * Millisecond, e_Id = i, e_Duration = 0\<rparr>"

lemma sample_simps [simp]: "Score (sample ms i) = ms" "e_Id (sample ms i) = i" "UnixMilli (ms * Millisecond) = ms"
  by (simp_all add: sample_def Score_def Millisecond_def)

theorem window_returns_newest_witness:
  "Get list_redis (9 * Millisecond) \<lparr>sw_key = ''k'', sw_size = 2, sw_ttl = 5 * Millisecond\<rparr>
     (fold (\<lambda>e st. snd (Add list_redis (e_Eta e) \<lparr>sw_key = ''k'', sw_size = 2, sw_ttl = 5 * Millisecond\<rparr> e st))
        [sample 1 ''a'', sample 5 ''b'', sample 6 ''c'', sample 8 ''d''] []) = Inr [sample 8 ''d'', sample 6 ''c'']"
  using window_returns_newest [OF list_redis_ok, where sw = "\<lparr>sw_key = ''k'', sw_size = 2, sw_ttl = 5 * Millisecond\<rparr>" and st = "[]"
      and now = "9 * Millisecond" and es = "[sample 1 ''a'', sample 5 ''b'', sample 6 ''c'', sample 8 ''d'']"]
  by simp

section \<open>Regular heartbeats\<close>

lemma gaps_regular: "(\<And>i. Suc i < length xs \<Longrightarrow> xs ! Suc i - xs ! i = d) \<Longrightarrow> gaps xs = replicate (length xs - 1) d"
proof (induction xs rule: gaps.induct)
  case (1 x y xs)
  have "(y # xs) ! Suc i - (y # xs) ! i = d" if "Suc i < length (y # xs)" for i using "1.prems" [of "Suc i"] that by simp
  then show ?case using "1.IH" "1.prems" [of 0] by simp
qed simp_all

lemma variance_replicate: "variance_of (replicate (Suc k) d) = 0"
  by (simp add: variance_of_def mean_of_def sum_list_replicate del: replicate.simps)

lemma window_suffix:
  assumes "sorted_wrt (\<lambda>a b. Score a < Score b) es"
  shows "\<exists>j. take n (rev (filter (\<lambda>e. Score e \<ge> m) es)) = rev (drop j es)"
proof -
  have "sorted_wrt (\<lambda>a b. Score a > Score b) (rev es)" using assms by (simp add: sorted_wrt_rev)
  then have "rev (filter (\<lambda>e. Score e \<ge> m) es) = takeWhile (\<lambda>e. Score e \<ge> m) (rev es)"
    using filter_takeWhile [where f = Score and xs = "rev es" and P = "\<lambda>e. Score e \<ge> m"] by (simp add: rev_filter)
  also have "\<dots> = take (length (takeWhile (\<lambda>e. Score e \<ge> m) (rev es))) (rev es)" by (rule takeWhile_eq_take)
  finally show ?thesis by (simp add: take_rev exI)
qed

text \<open>
  A server that is perfectly regular is never suspected. When its heartbeats have come at equal
  distances of whole milliseconds, with at least two and at least half a window of them still
  alive, the prediction fails for lack of variance, however long the server has been silent since
  and whatever the thresholds.
\<close>

theorem regular_heartbeats_give_no_prediction:
  assumes "redis_ok rd mem" and "0 < sw_size (fd_Window fd)" and "0 < UnixMilli (sw_ttl (fd_Window fd))" and "\<not> fd_isShutdown fd" and "mem st = []"
    and store: "fd_store fd = fold (\<lambda>e st. snd (Add rd (e_Eta e) (fd_Window fd) e st)) es st"
    and "0 < d" and regular: "\<forall>i < length es. Score (es ! i) = a + d * int i"
    and "distinct (map e_Id es)" and "\<forall>e \<in> set es. CHR ''|'' \<notin> set (e_Id e)" and "\<forall>e \<in> set es. Score e < UnixMilli now"
    and alive: "take (nat (sw_size (fd_Window fd))) (rev (filter (\<lambda>e. Score e \<ge> UnixMilli now - UnixMilli (sw_ttl (fd_Window fd))) es)) = live"
      "2 \<le> length live" "sw_size (fd_Window fd) div 2 \<le> int (length live)"
  shows "Predict rd erf now fd = Inl ZeroVariance"
proof -
  have sorted: "sorted_wrt (\<lambda>a b. Score a < Score b) es" using regular assms(7) by (simp add: sorted_wrt_iff_nth_less)
  obtain j where j: "live = rev (drop j es)" using window_suffix [OF sorted] alive(1) by metis
  have get: "Get rd now (fd_Window fd) (fd_store fd) = Inr live"
    unfolding store using Get_newest [OF assms(1-3,5) sorted assms(9-11)] alive(1) by simp
  have eta: "sorted_wrt (\<lambda>a b. e_Eta a < e_Eta b) (drop j es)"
  proof (rule sorted_wrt_mono_rel [OF _ sorted_wrt_drop [OF sorted]])
    show "e_Eta a < e_Eta b" if "Score a < Score b" for a b
      using that zdiv_mono1 [of "e_Eta b" "e_Eta a" Millisecond] by (force simp: Score_def Millisecond_def)
  qed
  have sort: "sort_key e_Eta live = drop j es"
  proof (rule sort_key_inj_key_eq)
    show "sorted (map e_Eta (drop j es))" using eta by (simp add: sorted_map sorted_wrt_mono_rel [of _ "\<lambda>a b. e_Eta a < e_Eta b"])
    have "distinct (map e_Eta (drop j es))" using eta by (induction "drop j es" arbitrary: j) (auto simp: strict_sorted_iff sorted_wrt_map [symmetric])
    then show "inj_on e_Eta (set live)" by (simp add: j distinct_map)
  qed (simp add: j)
  have "map Score (drop j es) ! Suc i - map Score (drop j es) ! i = d" if "Suc i < length (map Score (drop j es))" for i
    using that regular by (simp add: algebra_simps)
  then have "gaps (map Score (drop j es)) = replicate (length live - 1) d" using gaps_regular [of "map Score (drop j es)"] by (simp add: j)
  moreover have "length live - 1 = Suc (length live - 2)" using alive(2) by simp
  ultimately have "gaps (map Score (drop j es)) \<noteq> []" "variance_of (gaps (map Score (drop j es))) = 0" using variance_replicate by simp_all
  then show ?thesis using get sort assms(4) alive(3) by (auto simp: Predict_def Let_def)
qed

theorem regular_heartbeats_give_no_prediction_witness:
  "\<exists>fd. Predict list_redis (\<lambda>_. 0) (90 * Millisecond) fd = Inl ZeroVariance \<and>
     fd_Window fd = \<lparr>sw_key = ''k'', sw_size = 4, sw_ttl = 100 * Millisecond\<rparr>"
proof -
  let ?es = "[sample 1 ''a'', sample 3 ''b'', sample 5 ''c'']" and ?sw = "\<lparr>sw_key = ''k'', sw_size = 4, sw_ttl = 100 * Millisecond\<rparr>"
  let ?fd = "\<lparr>fd_Window = ?sw, fd_SuspicionLevel = \<lparr>AccumulationThreshold = 7, UpperBoundThreshold = 3\<rparr>, fd_isShutdown = False,
     fd_store = fold (\<lambda>e st. snd (Add list_redis (e_Eta e) ?sw e st)) ?es []\<rparr>"
  have r: "\<forall>i < length ?es. Score (?es ! i) = 1 + 2 * int i" by (simp add: All_less_Suc2)
  have "Predict list_redis (\<lambda>_. 0) (90 * Millisecond) ?fd = Inl ZeroVariance"
    by (rule regular_heartbeats_give_no_prediction [where live = "rev ?es", OF list_redis_ok _ _ _ _ _ _ r]) simp_all
  then show ?thesis by (intro exI [of _ ?fd]) simp
qed

end
