(* ===== verification/Chunk_Locks.thy ===== *)
theory Chunk_Locks
  imports Common_Types
begin

text \<open>
  The mutexes of a chunk server: \<^verbatim>\<open>cs.mu\<close> over the table of chunks and one mutex per chunk, as reads
  and mutations take them in \<^verbatim>\<open>src/chunkserver/chunkserver.go\<close>. A request is the sequence of its lock
  operations, and the requests of a server interleave at them.
\<close>

section \<open>Requests that interleave\<close>

datatype mutex = Mu | ChunkMutex chunk_handle

datatype lock_op = RLock mutex | RUnlock mutex | Lock mutex | Unlock mutex

datatype mutex_state = Readers nat | Held

text \<open>The state after an operation, unless it has to wait.\<close>

fun lock_step :: "lock_op \<Rightarrow> (mutex \<Rightarrow> mutex_state) \<Rightarrow> (mutex \<Rightarrow> mutex_state) option" where
  "lock_step (RLock x) m = (case m x of Readers n \<Rightarrow> Some (m(x := Readers (Suc n))) | Held \<Rightarrow> None)"
| "lock_step (RUnlock x) m = (case m x of Readers (Suc n) \<Rightarrow> Some (m(x := Readers n)) | _ \<Rightarrow> None)"
| "lock_step (Lock x) m = (if m x = Readers 0 then Some (m(x := Held)) else None)"
| "lock_step (Unlock x) m = (if m x = Held then Some (m(x := Readers 0)) else None)"

type_synonym server_threads = "(mutex \<Rightarrow> mutex_state) \<times> lock_op list list"

inductive thread_step :: "server_threads \<Rightarrow> server_threads \<Rightarrow> bool" where
  run: "i < length ps \<Longrightarrow> ps ! i = a # p \<Longrightarrow> lock_step a m = Some m' \<Longrightarrow> thread_step (m, ps) (m', ps[i := p])"

inductive_simps thread_step_iff: "thread_step (m, ps) s'"

definition all_free :: "mutex \<Rightarrow> mutex_state" where
  "all_free = (\<lambda>_. Readers 0)"

text \<open>
  A read: the lookup of the chunk, the chunk's mutex for reading with \<^verbatim>\<open>readChunk\<close> inside, which
  takes \<^verbatim>\<open>cs.mu\<close>, and the update of the access time.
\<close>

definition read_locks :: "chunk_handle \<Rightarrow> lock_op list" where
  "read_locks h = [RLock Mu, RUnlock Mu, RLock (ChunkMutex h), Lock Mu, Unlock Mu, RUnlock (ChunkMutex h),
     Lock (ChunkMutex h), Unlock (ChunkMutex h)]"

text \<open>A mutation: the lookup of the chunk, and \<^verbatim>\<open>writeChunk\<close> with its own lookup and both mutexes.\<close>

definition write_locks :: "chunk_handle \<Rightarrow> lock_op list" where
  "write_locks h = [RLock Mu, RUnlock Mu, Lock Mu, Lock (ChunkMutex h), Unlock (ChunkMutex h), Unlock Mu]"

definition mutate_locks :: "chunk_handle \<Rightarrow> lock_op list" where
  "mutate_locks h = [RLock Mu, RUnlock Mu] @ write_locks h"

section \<open>Mutations alone\<close>

text \<open>A mutation in progress: its chunk and how many operations it has done.\<close>

definition rest :: "chunk_handle \<times> nat \<Rightarrow> lock_op list" where
  "rest t = drop (snd t) (mutate_locks (fst t))"

definition at_pc :: "nat set \<Rightarrow> (chunk_handle \<times> nat) list \<Rightarrow> nat set" where
  "at_pc K ts = {i. i < length ts \<and> snd (ts ! i) \<in> K}"

lemma finite_at_pc [simp]: "finite (at_pc K ts)"
  by (simp add: at_pc_def)

lemma at_pc_update: "i < length ts \<Longrightarrow> at_pc K (ts[i := t]) = (if snd t \<in> K then insert i (at_pc K ts) else at_pc K ts - {i})"
  by (auto simp: at_pc_def nth_list_update)

text \<open>
  Readers of \<^verbatim>\<open>cs.mu\<close> are those after their first or third operation, its holder is the one between
  the fifth and the eighth, and a chunk's mutex is held by the one after its sixth.
\<close>

fun held_if :: "bool \<Rightarrow> mutex_state" where
  "held_if True = Held"
| "held_if False = Readers 0"

definition mutations_inv :: "(mutex \<Rightarrow> mutex_state) \<Rightarrow> (chunk_handle \<times> nat) list \<Rightarrow> bool" where
  "mutations_inv m ts \<longleftrightarrow> (\<forall>t \<in> set ts. snd t \<le> 8) \<and> card (at_pc {5, 6, 7} ts) \<le> 1 \<and>
     (at_pc {5, 6, 7} ts \<noteq> {} \<longrightarrow> at_pc {1, 3} ts = {}) \<and>
     m Mu = (if at_pc {5, 6, 7} ts = {} then Readers (card (at_pc {1, 3} ts)) else Held) \<and>
     (\<forall>h. m (ChunkMutex h) = held_if ((h, 6) \<in> set ts))"

lemma rest_simps:
  "rest (h, 0) = RLock Mu # rest (h, Suc 0)" "rest (h, Suc 0) = RUnlock Mu # rest (h, 2)" "rest (h, 2) = RLock Mu # rest (h, 3)"
  "rest (h, 3) = RUnlock Mu # rest (h, 4)" "rest (h, 4) = Lock Mu # rest (h, 5)" "rest (h, 5) = Lock (ChunkMutex h) # rest (h, 6)"
  "rest (h, 6) = Unlock (ChunkMutex h) # rest (h, 7)" "rest (h, 7) = Unlock Mu # rest (h, 8)" "rest (h, 8) = []"
  by (simp_all add: rest_def mutate_locks_def write_locks_def)

lemma pc_cases:
  assumes "k \<le> 8"
  obtains "k = 0" | "k = Suc 0" | "k = 2" | "k = 3" | "k = 4" | "k = 5" | "k = 6" | "k = 7" | "k = (8 :: nat)"
  using assms by fastforce

lemma in_set_update: "i < length ts \<Longrightarrow> x \<in> set (ts[i := t]) \<longleftrightarrow> x = t \<or> (\<exists>j < length ts. j \<noteq> i \<and> ts ! j = x)"
  by (auto simp: in_set_conv_nth nth_list_update)

lemma pc_bound_update: "\<forall>t \<in> set ts. snd t \<le> (8 :: nat) \<Longrightarrow> snd t' \<le> 8 \<Longrightarrow> \<forall>t \<in> set (ts[i := t']). snd t \<le> 8"
  using set_update_subset_insert [of ts i t'] by auto

lemma six_update:
  assumes "i < length ts" and "ts ! i = (h, k)" and "k \<noteq> 6"
  shows "(h', 6) \<in> set (ts[i := (h, k')]) \<longleftrightarrow> (h', 6) \<in> set ts \<or> h' = h \<and> k' = 6"
  using assms by (simp add: in_set_update) (metis in_set_conv_nth nth_mem prod.inject)

text \<open>The holder of \<^verbatim>\<open>cs.mu\<close> is alone.\<close>

lemma holder_unique:
  assumes "mutations_inv m ts" and "i \<in> at_pc {5, 6, 7} ts"
  shows "at_pc {5, 6, 7} ts = {i}" "at_pc {1, 3} ts = {}" "m Mu = Held"
proof -
  have "card (at_pc {5, 6, 7} ts) = 1" using assms by (auto simp: mutations_inv_def le_Suc_eq)
  then show "at_pc {5, 6, 7} ts = {i}" using assms(2) by (auto simp: card_1_singleton_iff)
  show "at_pc {1, 3} ts = {}" "m Mu = Held" using assms by (auto simp: mutations_inv_def)
qed

text \<open>The thread that holds the mutex of its chunk inside that of the table is the only one there.\<close>

lemma six_alone:
  assumes inv: "mutations_inv m ts" and i: "i < length ts" "ts ! i = (h, 6)"
  shows "(h', 6) \<in> set ts \<longleftrightarrow> h' = h" and "(h', 6) \<notin> set (ts[i := (h, 7)])"
proof -
  have "i \<in> at_pc {5, 6, 7} ts" using i by (simp add: at_pc_def)
  note one = holder_unique [OF inv this]
  have only: "j = i" if "j < length ts" "ts ! j = (h', 6)" for j h'
  proof -
    have "j \<in> at_pc {5, 6, 7} ts" using that by (simp add: at_pc_def)
    then show ?thesis using one(1) by simp
  qed
  show "(h', 6) \<in> set ts \<longleftrightarrow> h' = h" using only i by (auto simp: in_set_conv_nth)
  show "(h', 6) \<notin> set (ts[i := (h, 7)])" using only i(1) by (auto simp: in_set_update)
qed

lemma mutations_step:
  assumes inv: "mutations_inv m ts" and i: "i < length ts" "ts ! i = (h, k)" and a: "rest (h, k) = a # p" "lock_step a m = Some m'"
  shows "mutations_inv m' (ts[i := (h, Suc k)]) \<and> p = rest (h, Suc k)"
proof -
  have b: "\<forall>t \<in> set ts. snd t \<le> 8" using inv by (simp add: mutations_inv_def)
  have "k \<le> 8" using b i by (metis nth_mem snd_conv)
  then show ?thesis
  proof (cases rule: pc_cases)
    case 1
    then have "i \<notin> at_pc {1, 3} ts" using i by (simp add: at_pc_def)
    then show ?thesis using inv a i 1 pc_bound_update [OF b, of "(h, Suc 0)" i]
      by (auto simp: mutations_inv_def rest_simps at_pc_update six_update split: mutex_state.splits if_splits)
  next
    case 2
    then have "i \<in> at_pc {1, 3} ts" using i by (simp add: at_pc_def)
    then show ?thesis using inv a i 2 pc_bound_update [OF b, of "(h, 2)" i]
      by (auto simp: mutations_inv_def rest_simps at_pc_update six_update numeral_2_eq_2 split: mutex_state.splits if_splits nat.splits)
  next
    case 3
    then have "i \<notin> at_pc {1, 3} ts" using i by (simp add: at_pc_def)
    then show ?thesis using inv a i 3 pc_bound_update [OF b, of "(h, 3)" i]
      by (auto simp: mutations_inv_def rest_simps at_pc_update six_update split: mutex_state.splits if_splits)
  next
    case 4
    then have "i \<in> at_pc {1, 3} ts" using i by (simp add: at_pc_def)
    then show ?thesis using inv a i 4 pc_bound_update [OF b, of "(h, 4)" i]
      by (auto simp: mutations_inv_def rest_simps at_pc_update six_update split: mutex_state.splits if_splits nat.splits)
  next
    case 5
    then show ?thesis using inv a i 5 pc_bound_update [OF b, of "(h, 5)" i]
      by (auto simp: mutations_inv_def rest_simps at_pc_update six_update split: if_splits)
  next
    case 6
    then have "i \<in> at_pc {5, 6, 7} ts" using i by (simp add: at_pc_def)
    from holder_unique [OF inv this] show ?thesis using inv a i 6 pc_bound_update [OF b, of "(h, 6)" i]
      by (auto simp: mutations_inv_def rest_simps at_pc_update six_update split: if_splits)
  next
    case 7
    then have "i \<in> at_pc {5, 6, 7} ts" using i by (simp add: at_pc_def)
    note one = holder_unique [OF inv this]
    have "(h', 6) \<in> set ts \<longleftrightarrow> h' = h" "(h', 6) \<notin> set (ts[i := (h, 7)])" for h' using six_alone [OF inv i(1)] i(2) 7 by simp_all
    then show ?thesis using inv a i 7 one pc_bound_update [OF b, of "(h, 7)" i]
      by (auto simp: mutations_inv_def rest_simps at_pc_update split: if_splits)
  next
    case 8
    then have "i \<in> at_pc {5, 6, 7} ts" using i by (simp add: at_pc_def)
    from holder_unique [OF inv this] show ?thesis using inv a i 8 pc_bound_update [OF b, of "(h, 8)" i]
      by (auto simp: mutations_inv_def rest_simps at_pc_update six_update split: if_splits)
  next
    case 9
    then show ?thesis using a by (simp add: rest_simps)
  qed
qed

lemma mutations_progress:
  assumes inv: "mutations_inv m ts" and t: "t \<in> set ts" "snd t < 8"
  shows "\<exists>s'. thread_step (m, map rest ts) s'"
proof -
  have go: ?thesis if "i < length ts" "ts ! i = (h, k)" "k < 8" "lock_step (hd (rest (h, k))) m \<noteq> None" for i h k
  proof -
    have "rest (h, k) \<noteq> []" using that(3) by (simp add: rest_def mutate_locks_def write_locks_def)
    then have "map rest ts ! i = hd (rest (h, k)) # tl (rest (h, k))" using that(1,2) by simp
    moreover from that obtain m' where "lock_step (hd (rest (h, k))) m = Some m'" by auto
    ultimately show ?thesis using that(1) by (intro exI [of _ "(m', (map rest ts)[i := tl (rest (h, k))])"] thread_step.run) simp_all
  qed
  consider i where "i \<in> at_pc {5, 6, 7} ts" | i where "at_pc {5, 6, 7} ts = {}" "i \<in> at_pc {1, 3} ts" | "at_pc {5, 6, 7} ts = {}" "at_pc {1, 3} ts = {}"
    by blast
  then show ?thesis
  proof cases
    case 1
    note one = holder_unique [OF inv 1]
    obtain h k where i: "i < length ts" "ts ! i = (h, k)" "k \<in> {5, 6, 7}" using 1 by (cases "ts ! i") (auto simp: at_pc_def)
    have "(h, 6) \<notin> set ts" if "k = 5"
    proof
      assume "(h, 6) \<in> set ts"
      then obtain j where j: "j < length ts" "ts ! j = (h, 6)" by (auto simp: in_set_conv_nth)
      then have "j \<in> at_pc {5, 6, 7} ts" by (simp add: at_pc_def)
      then show False using one(1) i j that by auto
    qed
    moreover have "(h, 6) \<in> set ts" if "k = 6" using i that nth_mem by fastforce
    ultimately show ?thesis using inv i one(3) by (intro go [OF i(1,2)]) (auto simp: rest_simps mutations_inv_def)
  next
    case 2
    obtain h k where i: "i < length ts" "ts ! i = (h, k)" "k \<in> {1, 3}" using 2(2) by (cases "ts ! i") (auto simp: at_pc_def)
    obtain n where "card (at_pc {1, 3} ts) = Suc n" using 2(2) not0_implies_Suc [of "card (at_pc {1, 3} ts)"] by auto
    then have "m Mu = Readers (Suc n)" using inv 2(1) by (simp add: mutations_inv_def)
    then show ?thesis using i by (intro go [OF i(1,2)]) (auto simp: rest_simps)
  next
    case 3
    obtain i where "i < length ts" "ts ! i = t" using t(1) unfolding in_set_conv_nth by blast
    then obtain h k where i: "i < length ts" "ts ! i = (h, k)" "k < 8" using t(2) by (metis prod.collapse)
    have "i \<notin> at_pc {5, 6, 7} ts" "i \<notin> at_pc {1, 3} ts" using 3 by auto
    then have "k \<notin> {5, 6, 7}" "k \<notin> {1, 3}" using i by (auto simp: at_pc_def)
    then have "k \<in> {0, 2, 4}" using i(3) by auto
    moreover have "m Mu = Readers 0" using inv 3 by (simp add: mutations_inv_def)
    ultimately show ?thesis using i by (intro go [OF i(1,2)]) (auto simp: rest_simps)
  qed
qed

lemma mutations_reachable:
  assumes "thread_step\<^sup>*\<^sup>* (all_free, map mutate_locks hs) s"
  shows "\<exists>m ts. s = (m, map rest ts) \<and> mutations_inv m ts"
  using assms
proof (induction rule: rtranclp_induct)
  case base
  have "at_pc K (map (\<lambda>h. (h, 0)) hs) = {}" if "0 \<notin> K" for K using that by (auto simp: at_pc_def)
  moreover have "(h, 6 :: nat) \<notin> set (map (\<lambda>h. (h, 0)) hs)" for h by auto
  moreover have "\<forall>t \<in> set (map (\<lambda>h. (h, 0 :: nat)) hs). snd t \<le> 8" by auto
  ultimately have "mutations_inv all_free (map (\<lambda>h. (h, 0)) hs)" by (simp add: mutations_inv_def all_free_def del: set_map)
  moreover have "map mutate_locks hs = map rest (map (\<lambda>h. (h, 0)) hs)" by (simp add: rest_def)
  ultimately show ?case by blast
next
  case (step s s')
  obtain m ts where s: "s = (m, map rest ts)" "mutations_inv m ts" using step.IH by blast
  obtain i a p m' where i: "i < length ts" "rest (ts ! i) = a # p" "lock_step a m = Some m'" "s' = (m', (map rest ts)[i := p])"
    using step.hyps(2) unfolding s(1) thread_step_iff by auto
  obtain h k where hk: "ts ! i = (h, k)" by fastforce
  with mutations_step [OF s(2) i(1) hk] i have "mutations_inv m' (ts[i := (h, Suc k)])" "s' = (m', map rest (ts[i := (h, Suc k)]))"
    by (auto simp: map_update)
  then show ?case by blast
qed

section \<open>A read and a mutation\<close>

text \<open>
  The read has the chunk's mutex and waits for \<^verbatim>\<open>cs.mu\<close>; the mutation has \<^verbatim>\<open>cs.mu\<close> and waits for the
  chunk's mutex.
\<close>

definition needs_mu :: "lock_op list \<Rightarrow> bool" where
  "needs_mu p \<longleftrightarrow> (\<exists>q. p = RLock Mu # q \<or> p = Lock Mu # q)"

text \<open>Running the requests by a given schedule.\<close>

fun run_schedule :: "nat list \<Rightarrow> server_threads \<Rightarrow> server_threads option" where
  "run_schedule [] s = Some s"
| "run_schedule (i # is) (m, ps) =
     (if i < length ps
      then (case ps ! i of
          [] \<Rightarrow> None
        | a # p \<Rightarrow> (case lock_step a m of None \<Rightarrow> None | Some m' \<Rightarrow> run_schedule is (m', ps[i := p])))
      else None)"

lemma run_schedule_steps: "run_schedule is s = Some s' \<Longrightarrow> thread_step\<^sup>*\<^sup>* s s'"
proof (induction "is" s rule: run_schedule.induct)
  case (2 i "is" m ps)
  then obtain a p m' where s: "i < length ps" "ps ! i = a # p" "lock_step a m = Some m'" "run_schedule is (m', ps[i := p]) = Some s'"
    by (auto split: if_splits list.splits option.splits)
  have "thread_step (m, ps) (m', ps[i := p])" using s(1-3) by (rule thread_step.run)
  moreover have "thread_step\<^sup>*\<^sup>* (m', ps[i := p]) s'" using 2(1) s by simp
  ultimately show ?case by (rule converse_rtranclp_into_rtranclp)
qed simp

lemma read_mutation_stuck:
  assumes "\<forall>p \<in> set others. needs_mu p"
  shows "\<exists>m. thread_step\<^sup>*\<^sup>* (all_free, read_locks h # mutate_locks h # others) (m, drop 3 (read_locks h) # drop 5 (mutate_locks h) # others) \<and>
    (\<forall>s'. \<not> thread_step (m, drop 3 (read_locks h) # drop 5 (mutate_locks h) # others) s')"
proof -
  let ?m = "all_free(ChunkMutex h := Readers 1, Mu := Held)" and ?ps = "drop 3 (read_locks h) # drop 5 (mutate_locks h) # others"
  note defs = read_locks_def mutate_locks_def write_locks_def all_free_def
  have "run_schedule [0, 0, 0, 1, 1, 1, 1, 1] (all_free, read_locks h # mutate_locks h # others) = Some (?m, ?ps)"
    by (simp add: defs fun_upd_twist fun_upd_idem_iff)
  moreover have "lock_step a ?m = None" if "i < length ?ps" "?ps ! i = a # p" for i a p
  proof (cases i)
    case 0
    then show ?thesis using that by (auto simp: defs)
  next
    case (Suc j)
    show ?thesis
    proof (cases j)
      case 0
      then show ?thesis using that Suc by (auto simp: defs)
    next
      case (Suc l)
      then have "a # p \<in> set others" using that \<open>i = Suc j\<close> nth_mem [of l others] by auto
      then show ?thesis using assms by (auto simp: needs_mu_def)
    qed
  qed
  then have "\<not> thread_step (?m, ?ps) s'" for s' unfolding thread_step_iff by (metis option.distinct(1))
  ultimately show ?thesis using run_schedule_steps by blast
qed

section \<open>Progress and deadlock\<close>



end
