(* ===== verification/Gob_Check.thy ===== *)
theory Gob_Check
  imports Common_Types
begin

text \<open>
  The checks around the \<^verbatim>\<open>gob\<close> encoding, \<^verbatim>\<open>src/common/gob.go\<close>. Before a value is encoded or decoded its type
  is searched for struct fields with lower-case names, which the encoding drops, and before a value is
  decoded the variable that receives it is searched for non-zero fields. Types are identified by
  elements of \<open>'t\<close>, and \<open>env\<close> lists the kinds of the types of a program, as the reflection package
  reports them; a type may occur inside itself. The encoding itself is a parameter.
\<close>

section \<open>Types as reflection sees them\<close>

datatype 't kind =
    Struct "(string \<times> 't) list"
  | MapOf 't 't
  | ArrayOf 't
  | SliceOf 't
  | PtrTo 't
  | OtherKind

type_synonym 't type_env = "('t \<times> 't kind) list"

definition kind_of :: "'t type_env \<Rightarrow> 't \<Rightarrow> 't kind" where
  "kind_of env t = (case map_of env t of None \<Rightarrow> OtherKind | Some k \<Rightarrow> k)"

text \<open>\<^verbatim>\<open>unicode.IsLower\<close> of the first rune, for names that start with an ASCII character.\<close>

definition starts_lower :: "string \<Rightarrow> bool" where
  "starts_lower name = (case name of [] \<Rightarrow> False | c # _ \<Rightarrow> 97 \<le> (of_char c :: nat) \<and> (of_char c :: nat) \<le> 122)"

definition starts_upper :: "string \<Rightarrow> bool" where
  "starts_upper name = (case name of [] \<Rightarrow> False | c # _ \<Rightarrow> 65 \<le> (of_char c :: nat) \<and> (of_char c :: nat) \<le> 90)"

datatype 't gob_message = LowerCaseField string 't | NonDefaultVariable string

text \<open>The package variables: the types seen, the number of complaints, and what has been printed.\<close>

record 't gob_state =
  checked :: "'t list"
  errorCount :: nat
  printed :: "'t gob_message list"

definition gob_initial :: "'t gob_state" where
  "gob_initial = \<lparr>checked = [], errorCount = 0, printed = []\<rparr>"

section \<open>The search for lower-case fields\<close>

text \<open>
  The recursive calls that one type gives rise to: the fields of a struct, each after a look at its name,
  the key and the element of a map, and for arrays, slices and pointers the type itself once more.
\<close>

datatype 't item = Field string 't 't | Plain 't

fun item_type :: "'t item \<Rightarrow> 't" where
  "item_type (Field name owner t) = t"
| "item_type (Plain t) = t"

fun look_at_name :: "'t item \<Rightarrow> 't gob_state \<Rightarrow> 't gob_state" where
  "look_at_name (Field name owner t) s =
     (if starts_lower name
      then s\<lparr>errorCount := errorCount s + 1, printed := printed s @ [LowerCaseField name owner]\<rparr>
      else s)"
| "look_at_name (Plain t) s = s"

definition items_of :: "'t type_env \<Rightarrow> 't \<Rightarrow> 't item list" where
  "items_of env t = (case kind_of env t of
     Struct fs \<Rightarrow> map (\<lambda>(name, u). Field name t u) fs
   | MapOf k v \<Rightarrow> [Plain k, Plain v]
   | ArrayOf _ \<Rightarrow> [Plain t]
   | SliceOf _ \<Rightarrow> [Plain t]
   | PtrTo _ \<Rightarrow> [Plain t]
   | OtherKind \<Rightarrow> [])"

lemma checked_look_at_name [simp]: "checked (look_at_name i s) = checked s"
  by (cases i) auto

lemma items_of_outside [simp]: "t \<notin> fst ` set env \<Longrightarrow> items_of env t = []"
  by (simp add: items_of_def kind_of_def map_of_eq_None_iff [THEN iffD2])

function check_items :: "'t type_env \<Rightarrow> 't item list \<Rightarrow> 't gob_state \<Rightarrow> 't gob_state" where
  "check_items env [] s = s"
| "check_items env (i # items) s =
     (let s = look_at_name i s; t = item_type i in
      if t \<in> set (checked s) then check_items env items s
      else check_items env items (check_items env (items_of env t) (s\<lparr>checked := t # checked s\<rparr>)))"
  by pat_completeness auto

lemma check_items_grows:
  "check_items_dom (env, items, s) \<Longrightarrow> set (checked s) \<subseteq> set (checked (check_items env items s))"
  by (induction env items s rule: check_items.pinduct) (force simp: check_items.psimps Let_def)+

termination check_items
proof (relation "inv_image (finite_psubset <*lex*> less_than)
    (\<lambda>(env, items, s). (fst ` set env - set (checked s), length items))", goal_cases)
  case 1
  then show ?case by (intro wf_inv_image wf_lex_prod wf_finite_psubset wf_less_than)
next
  case (3 env i items s s' t)
  then show ?case by (cases "t \<in> fst ` set env") (auto simp: finite_psubset_def)
next
  case (4 env i items s s' t)
  then show ?case using check_items_grows [OF 4(4)] by (auto simp: finite_psubset_def)
qed (auto simp: finite_psubset_def)

definition checkType :: "'t type_env \<Rightarrow> 't \<Rightarrow> 't gob_state \<Rightarrow> 't gob_state" where
  "checkType env t s = check_items env [Plain t] s"

section \<open>The search for non-zero fields\<close>

text \<open>
  A value as reflection sees it: a struct lists its fields with the mark of embedded ones, a basic value
  carries the name of its type and whether it is the zero value. \<^verbatim>\<open>Interface\<close> panics on a
  value reached through an unexported field; the mark of an embedded one is not passed on to its fields.
\<close>

datatype gvalue =
    VStruct "(string \<times> bool \<times> gvalue) list"
  | VPtr "gvalue option"
  | VBasic string bool
  | VOther

datatype ro_flag = Exported | EmbedRO | StickyRO

definition field_flag :: "ro_flag \<Rightarrow> string \<Rightarrow> bool \<Rightarrow> ro_flag" where
  "field_flag ro name embedded =
     (if ro = StickyRO then StickyRO
      else if starts_upper name then Exported
      else if embedded then EmbedRO else StickyRO)"

definition join_name :: "string \<Rightarrow> string \<Rightarrow> string" where
  "join_name name name1 = (if name \<noteq> '''' then name @ ''.'' @ name1 else name1)"

definition check_basic :: "string \<Rightarrow> bool \<Rightarrow> ro_flag \<Rightarrow> string \<Rightarrow> 't gob_state \<Rightarrow> unit outcome \<times> 't gob_state" where
  "check_basic ty zero ro name s =
     (if ro \<noteq> Exported then (Panic, s)
      else if zero then (Return (), s)
      else let s = (if errorCount s < 1
             then s\<lparr>printed := printed s @ [NonDefaultVariable (if name = '''' then ty else name)]\<rparr> else s)
           in (Return (), s\<lparr>errorCount := errorCount s + 1\<rparr>))"

fun checkDefaultHelper :: "gvalue \<Rightarrow> nat \<Rightarrow> ro_flag \<Rightarrow> string \<Rightarrow> 't gob_state \<Rightarrow> unit outcome \<times> 't gob_state"
and check_default_fields :: "(string \<times> bool \<times> gvalue) list \<Rightarrow> nat \<Rightarrow> ro_flag \<Rightarrow> string \<Rightarrow> 't gob_state \<Rightarrow> unit outcome \<times> 't gob_state" where
  "checkDefaultHelper v depth ro name s =
     (if depth > 3 then (Return (), s)
      else case v of
        VStruct fs \<Rightarrow> check_default_fields fs depth ro name s
      | VPtr None \<Rightarrow> (Return (), s)
      | VPtr (Some w) \<Rightarrow> checkDefaultHelper w (depth + 1) ro name s
      | VBasic ty zero \<Rightarrow> check_basic ty zero ro name s
      | VOther \<Rightarrow> (Return (), s))"
| "check_default_fields [] depth ro name s = (Return (), s)"
| "check_default_fields ((name1, embedded, v) # fs) depth ro name s =
     bind_st (checkDefaultHelper v (depth + 1) (field_flag ro name1 embedded) (join_name name name1) s)
       (\<lambda>_. check_default_fields fs depth ro name)"

section \<open>Operations\<close>

text \<open>
  A value of type \<^verbatim>\<open>any\<close> is nil or carries its type; the type of nil is nil, and asking for its kind panics.
\<close>

type_synonym 't any = "('t \<times> gvalue) option"

definition checkValue :: "'t type_env \<Rightarrow> 't any \<Rightarrow> 't gob_state \<Rightarrow> unit outcome \<times> 't gob_state" where
  "checkValue env v s = (case v of
     None \<Rightarrow> (Panic, s)
   | Some (t, _) \<Rightarrow> (Return (), checkType env t s))"

definition checkDefault :: "'t any \<Rightarrow> 't gob_state \<Rightarrow> unit outcome \<times> 't gob_state" where
  "checkDefault v s = (case v of
     None \<Rightarrow> (Return (), s)
   | Some (_, w) \<Rightarrow> checkDefaultHelper w 1 Exported '''' s)"

definition Register :: "'t type_env \<Rightarrow> ('t any \<Rightarrow> unit outcome) \<Rightarrow> 't any \<Rightarrow> 't gob_state \<Rightarrow> unit outcome \<times> 't gob_state" where
  "Register env gob_register v s = bind_st (checkValue env v s) (\<lambda>_ s. (gob_register v, s))"

definition RegisterName :: "'t type_env \<Rightarrow> (string \<Rightarrow> 't any \<Rightarrow> unit outcome) \<Rightarrow> string \<Rightarrow> 't any \<Rightarrow> 't gob_state \<Rightarrow> unit outcome \<times> 't gob_state" where
  "RegisterName env gob_register name v s = bind_st (checkValue env v s) (\<lambda>_ s. (gob_register name v, s))"

text \<open>An encoder writes to a stream \<open>'w\<close>; \<open>enc\<close> is the encoder of the standard library.\<close>

record 'w g_encoder =
  genco_gob :: 'w
  genco_version :: int

definition NewEncoder :: "'w \<Rightarrow> 'w g_encoder" where
  "NewEncoder w = \<lparr>genco_gob = w, genco_version = 1\<rparr>"

definition Encode :: "'t type_env \<Rightarrow> ('t any \<Rightarrow> 'w \<Rightarrow> unit outcome \<times> 'w) \<Rightarrow> 't any \<Rightarrow> 'w g_encoder \<times> 't gob_state \<Rightarrow>
    unit outcome \<times> 'w g_encoder \<times> 't gob_state" where
  "Encode env enc v = (\<lambda>(g, s). case checkValue env v s of
     (Return _, s) \<Rightarrow> (case enc v (genco_gob g) of (r, w) \<Rightarrow> (r, g\<lparr>genco_gob := w\<rparr>, s))
   | (r, s) \<Rightarrow> (r, g, s))"

text \<open>
  \<^verbatim>\<open>EncodeValue\<close> hands the reflection value itself on, whose type \<open>rv\<close> is the struct
  \<^verbatim>\<open>reflect.Value\<close>, not the type of the value it stands for.
\<close>

definition EncodeValue :: "'t type_env \<Rightarrow> ('t any \<Rightarrow> 'w \<Rightarrow> unit outcome \<times> 'w) \<Rightarrow> 't \<Rightarrow> gvalue \<Rightarrow> 'w g_encoder \<times> 't gob_state \<Rightarrow>
    unit outcome \<times> 'w g_encoder \<times> 't gob_state" where
  "EncodeValue env enc rv v = Encode env enc (Some (rv, v))"

record 'w g_decoder =
  gdeco_gob :: 'w
  gdeco_version :: int

definition NewDecoder :: "'w \<Rightarrow> 'w g_decoder" where
  "NewDecoder w = \<lparr>gdeco_gob = w, gdeco_version = 1\<rparr>"

definition Decode :: "'t type_env \<Rightarrow> ('t any \<Rightarrow> 'w \<Rightarrow> unit outcome \<times> 'w) \<Rightarrow> 't any \<Rightarrow> 'w g_decoder \<times> 't gob_state \<Rightarrow>
    unit outcome \<times> 'w g_decoder \<times> 't gob_state" where
  "Decode env dec v = (\<lambda>(g, s). case bind_st (checkValue env v s) (\<lambda>_. checkDefault v) of
     (Return _, s) \<Rightarrow> (case dec v (gdeco_gob g) of (r, w) \<Rightarrow> (r, g\<lparr>gdeco_gob := w\<rparr>, s))
   | (r, s) \<Rightarrow> (r, g, s))"

section \<open>What the type search visits\<close>

definition descends :: "'t type_env \<Rightarrow> ('t \<times> 't) set" where
  "descends env = {(t, u). u \<in> item_type ` set (items_of env t)}"

definition lower_items :: "'t item list \<Rightarrow> nat" where
  "lower_items is = length (filter (\<lambda>i. case i of Field name _ _ \<Rightarrow> starts_lower name | Plain _ \<Rightarrow> False) is)"

definition lower_fields :: "'t type_env \<Rightarrow> 't \<Rightarrow> nat" where
  "lower_fields env t = lower_items (items_of env t)"

lemma lower_items_simps [simp]:
  "lower_items [] = 0"
  "errorCount (look_at_name i s) + lower_items is = errorCount s + lower_items (i # is)"
  by (cases i; simp add: lower_items_def)+

text \<open>
  One run of the loop: it puts new types in front of the seen ones, among them all it was asked for,
  all of them reachable from there, every successor of a new one is seen in the end, and it counts the
  lower-case names it was asked to look at and those of the new types.
\<close>

lemma check_items_new:
  "\<exists>new. checked (check_items env is s) = new @ checked s \<and> distinct new \<and> set new \<inter> set (checked s) = {} \<and>
     item_type ` set is \<subseteq> set new \<union> set (checked s) \<and>
     set new \<subseteq> (descends env)\<^sup>* `` (item_type ` set is) \<and>
     descends env `` set new \<subseteq> set new \<union> set (checked s) \<and>
     errorCount (check_items env is s) = errorCount s + lower_items is + (\<Sum>t\<leftarrow>new. lower_fields env t)"
proof (induction env "is" s rule: check_items.induct)
  case (1 env s)
  show ?case by simp
next
  case (2 env i "is" s)
  let ?s = "look_at_name i s" and ?t = "item_type i"
  show ?case
  proof (cases "?t \<in> set (checked s)")
    case True
    then obtain new where "checked (check_items env is ?s) = new @ checked s" "distinct new" "set new \<inter> set (checked s) = {}"
      "item_type ` set is \<subseteq> set new \<union> set (checked s)" "set new \<subseteq> (descends env)\<^sup>* `` (item_type ` set is)"
      "descends env `` set new \<subseteq> set new \<union> set (checked s)"
      "errorCount (check_items env is ?s) = errorCount ?s + lower_items is + (\<Sum>t\<leftarrow>new. lower_fields env t)"
      using 2(1) [OF refl refl] by auto
    moreover from this(5) have "set new \<subseteq> (descends env)\<^sup>* `` (item_type ` set (i # is))" by fastforce
    ultimately show ?thesis using True by (intro exI [of _ new]) (simp add: Let_def)
  next
    case False
    let ?s1 = "?s\<lparr>checked := ?t # checked s\<rparr>"
    let ?s2 = "check_items env (items_of env ?t) ?s1"
    obtain n1 where n1: "checked ?s2 = n1 @ ?t # checked s" "distinct n1" "set n1 \<inter> set (?t # checked s) = {}"
      "item_type ` set (items_of env ?t) \<subseteq> set n1 \<union> set (?t # checked s)"
      "set n1 \<subseteq> (descends env)\<^sup>* `` (item_type ` set (items_of env ?t))"
      "descends env `` set n1 \<subseteq> set n1 \<union> set (?t # checked s)"
      "errorCount ?s2 = errorCount ?s + lower_fields env ?t + (\<Sum>t\<leftarrow>n1. lower_fields env t)"
      using 2(2) [OF refl refl] False by (auto simp: lower_fields_def)
    obtain n2 where n2: "checked (check_items env is ?s2) = n2 @ checked ?s2" "distinct n2" "set n2 \<inter> set (checked ?s2) = {}"
      "item_type ` set is \<subseteq> set n2 \<union> set (checked ?s2)" "set n2 \<subseteq> (descends env)\<^sup>* `` (item_type ` set is)"
      "descends env `` set n2 \<subseteq> set n2 \<union> set (checked ?s2)"
      "errorCount (check_items env is ?s2) = errorCount ?s2 + lower_items is + (\<Sum>t\<leftarrow>n2. lower_fields env t)"
      using 2(3) [OF refl refl] False by auto
    have "set n1 \<subseteq> (descends env)\<^sup>* `` {?t}"
    proof
      fix u assume "u \<in> set n1"
      with n1(5) obtain v where "v \<in> item_type ` set (items_of env ?t)" "(v, u) \<in> (descends env)\<^sup>*" by blast
      then have "(?t, v) \<in> descends env" by (simp add: descends_def)
      with \<open>(v, u) \<in> (descends env)\<^sup>*\<close> show "u \<in> (descends env)\<^sup>* `` {?t}" by (blast intro: converse_rtrancl_into_rtrancl)
    qed
    with n2(5) have reached: "set (n2 @ n1 @ [?t]) \<subseteq> (descends env)\<^sup>* `` (item_type ` set (i # is))" by fastforce
    have "descends env `` {?t} \<subseteq> set n1 \<union> set (?t # checked s)" using n1(4) by (auto simp: descends_def)
    with n1(1,6) n2(6) have "descends env `` set (n2 @ n1 @ [?t]) \<subseteq> set (n2 @ n1 @ [?t]) \<union> set (checked s)"
      by (auto simp del: Image_singleton_iff)
    moreover have "check_items env (i # is) s = check_items env is ?s2" using False by (simp add: Let_def)
    moreover have "item_type ` set (i # is) \<subseteq> set (n2 @ n1 @ [?t]) \<union> set (checked s)" using n1(1) n2(4) by auto
    moreover have "distinct (n2 @ n1 @ [?t])" "set (n2 @ n1 @ [?t]) \<inter> set (checked s) = {}"
      using n1(1-3) n2(2,3) False by auto
    ultimately show ?thesis using reached n1(1,7) n2(1,7)
      by (intro exI [of _ "n2 @ n1 @ [?t]"]) (simp add: ac_simps flip: lower_items_simps(2))
  qed
qed

text \<open>The search stops at arrays, slices and pointers, so what they hold is not looked at.\<close>

lemma checkType_stops:
  assumes "kind_of env t \<in> {ArrayOf u, SliceOf u, PtrTo u}"
  shows "errorCount (checkType env t s) = errorCount s"
    and "set (checked (checkType env t s)) = insert t (set (checked s))"
  using assms by (auto simp: checkType_def items_of_def Let_def)

definition complete :: "'t type_env \<Rightarrow> 't gob_state \<Rightarrow> bool" where
  "complete env s \<longleftrightarrow> descends env `` set (checked s) \<subseteq> set (checked s) \<and>
     errorCount s = (\<Sum>t\<in>set (checked s). lower_fields env t)"

lemma checkType_complete:
  assumes "complete env s"
  shows "complete env (checkType env t s)"
    and "set (checked (checkType env t s)) = set (checked s) \<union> (descends env)\<^sup>* `` {t}"
proof -
  obtain new where new: "checked (checkType env t s) = new @ checked s" "distinct new" "set new \<inter> set (checked s) = {}"
    "t \<in> set new \<union> set (checked s)" "set new \<subseteq> (descends env)\<^sup>* `` {t}" "descends env `` set new \<subseteq> set new \<union> set (checked s)"
    "errorCount (checkType env t s) = errorCount s + (\<Sum>t\<leftarrow>new. lower_fields env t)"
    using check_items_new [of env "[Plain t]" s] by (auto simp: checkType_def lower_items_def)
  from assms new(1,6) have cl: "descends env `` set (checked (checkType env t s)) \<subseteq> set (checked (checkType env t s))"
    by (auto simp: complete_def)
  with assms new show "complete env (checkType env t s)"
    by (simp add: complete_def sum.union_disjoint sum_list_distinct_conv_sum_set)
  have "(descends env)\<^sup>* `` {t} \<subseteq> set (checked (checkType env t s))"
    using Image_closed_trancl [OF cl] new(1,4) by auto
  with new(1,5) show "set (checked (checkType env t s)) = set (checked s) \<union> (descends env)\<^sup>* `` {t}" by auto
qed

lemma checkTypes_complete:
  assumes "complete env s"
  shows "complete env (fold (checkType env) ts s) \<and>
    set (checked (fold (checkType env) ts s)) = set (checked s) \<union> (descends env)\<^sup>* `` set ts"
  using assms by (induction ts arbitrary: s) (auto simp: checkType_complete)


text \<open>A struct with one lower-case field and a recursive one is counted once; a pointer to it hides it.\<close>

definition sample_types :: "nat type_env" where
  "sample_types = [(0, Struct [(''Name'', 2), (''next'', 1), (''Tree'', 3)]), (1, PtrTo 0), (3, MapOf 2 0)]"


section \<open>What the search for non-zero fields does\<close>

text \<open>The basic values the search comes to, with their marks: whether they are zero and how they were reached.\<close>

fun leaves :: "gvalue \<Rightarrow> nat \<Rightarrow> ro_flag \<Rightarrow> (bool \<times> ro_flag) list"
and field_leaves :: "(string \<times> bool \<times> gvalue) list \<Rightarrow> nat \<Rightarrow> ro_flag \<Rightarrow> (bool \<times> ro_flag) list" where
  "leaves v depth ro = (if depth > 3 then [] else case v of
      VStruct fs \<Rightarrow> field_leaves fs depth ro
    | VPtr (Some w) \<Rightarrow> leaves w (depth + 1) ro
    | VBasic ty zero \<Rightarrow> [(zero, ro)]
    | _ \<Rightarrow> [])"
| "field_leaves [] depth ro = []"
| "field_leaves ((name, embedded, v) # fs) depth ro = leaves v (depth + 1) (field_flag ro name embedded) @ field_leaves fs depth ro"

definition search_result :: "(bool \<times> ro_flag) list \<Rightarrow> 't gob_state \<Rightarrow> unit outcome \<times> 't gob_state \<Rightarrow> bool" where
  "search_result ls s r \<longleftrightarrow>
     fst r = (if \<exists>l \<in> set ls. snd l \<noteq> Exported then Panic else Return ()) \<and>
     errorCount (snd r) = errorCount s + length (filter (\<lambda>l. \<not> fst l) (takeWhile (\<lambda>l. snd l = Exported) ls))"

lemma search_result_append:
  assumes "search_result xs s r" and "\<And>s. search_result ys s (f () s)"
  shows "search_result (xs @ ys) s (bind_st r f)"
proof (cases "\<exists>l \<in> set xs. snd l \<noteq> Exported")
  case True
  then have "takeWhile (\<lambda>l. snd l = Exported) (xs @ ys) = takeWhile (\<lambda>l. snd l = Exported) xs" by auto
  with True assms(1) show ?thesis by (cases r) (auto simp: search_result_def bind_st_def)
next
  case False
  then have "takeWhile (\<lambda>l. snd l = Exported) (xs @ ys) = xs @ takeWhile (\<lambda>l. snd l = Exported) ys" by auto
  with False assms(1) assms(2) [of "snd r"] show ?thesis
    by (cases r) (auto simp: search_result_def bind_st_def takeWhile_eq_all_conv [THEN iffD2])
qed

lemma search_result_simps [simp]:
  "search_result [] s r \<longleftrightarrow> fst r = Return () \<and> errorCount (snd r) = errorCount s"
  "search_result [(zero, ro)] s (check_basic ty zero ro name s)"
  by (auto simp: search_result_def check_basic_def)

lemmas helper_unfold = checkDefaultHelper.simps leaves.simps
declare helper_unfold [simp del]

lemma search_result_leaves:
  "search_result (leaves v depth ro) s (checkDefaultHelper v depth ro name s)"
  "search_result (field_leaves fs depth ro) s (check_default_fields fs depth ro name s)"
proof (induction v depth ro name s and fs depth ro name s rule: checkDefaultHelper_check_default_fields.induct)
  case (1 v depth ro name s)
  then show ?case
    by (cases v) (auto simp: helper_unfold [of _ depth] split: option.splits)
next
  case (3 name1 embedded v fs depth ro name s)
  then show ?case by (auto intro!: search_result_append)
qed simp

text \<open>
  The search before a decoding panics as soon as a basic value was reached through an unexported
  field, and otherwise counts the non-zero basic values down to the third level.
\<close>

lemma checkDefault_exact:
  "fst (checkDefault (Some (t, v)) s) =
     (if list_ex (\<lambda>l. snd l \<noteq> Exported) (leaves v 1 Exported) then Panic else Return ())"
  "\<not> list_ex (\<lambda>l. snd l \<noteq> Exported) (leaves v 1 Exported) \<Longrightarrow>
     errorCount (snd (checkDefault (Some (t, v)) s)) = errorCount s + length (filter (\<lambda>l. \<not> fst l) (leaves v 1 Exported))"
  using search_result_leaves(1) [of v 1 Exported s "''''"]
  by (auto simp: checkDefault_def search_result_def list_ex_iff list_all_iff takeWhile_eq_all_conv [THEN iffD2])

lemma Decode_unexported_panics:
  assumes "starts_lower name"
  shows "fst (Decode env dec (Some (t, VPtr (Some (VStruct [(name, False, VBasic ty zero)])))) gs) = Panic"
proof -
  from assms have "\<not> starts_upper name" by (cases name) (auto simp: starts_lower_def starts_upper_def)
  then show ?thesis
    by (simp add: Decode_def checkValue_def checkDefault_def bind_st_def checkDefaultHelper.simps field_flag_def
        check_basic_def case_prod_unfold)
qed

end
