(* ===== verification/Proximity.thy ===== *)
theory Proximity
  imports Chunk_Server Failure_Detector
begin

text \<open>
  The first part of starting a chunk server, \<^verbatim>\<open>NewChunkServer\<close> in
  \<^verbatim>\<open>src/chunkserver/chunkserver.go\<close>: the address of the master is checked, the distance to
  it is measured with the \<^verbatim>\<open>ping\<close> program, and the failure detector is made. The program is a
  parameter, a function from the host and the number of attempts to its output, or to nothing when it
  fails. The regular expressions are written out as recognisers. Floats are read as rationals.
\<close>

section \<open>Addresses\<close>

definition host_char :: "char \<Rightarrow> bool" where
  "host_char c \<longleftrightarrow> is_digit c \<or> (65 \<le> (of_char c :: nat) \<and> (of_char c :: nat) \<le> 90) \<or>
     (97 \<le> (of_char c :: nat) \<and> (of_char c :: nat) \<le> 122) \<or> c = CHR ''.'' \<or> c = CHR ''-''"

definition hostOnly :: "string \<Rightarrow> bool" where
  "hostOnly s \<longleftrightarrow> s \<noteq> [] \<and> list_all host_char s"

definition is_port :: "string \<Rightarrow> bool" where
  "is_port s \<longleftrightarrow> 1 \<le> length s \<and> length s \<le> 5 \<and> list_all is_digit s"

text \<open>The parts before and after the first colon, as \<^verbatim>\<open>strings.SplitN(addr, ":", 2)\<close> gives them.\<close>

definition split_colon :: "string \<Rightarrow> string list" where
  "split_colon s = (case dropWhile (\<lambda>c. c \<noteq> CHR '':'') s of
     [] \<Rightarrow> [s]
   | _ # rest \<Rightarrow> [takeWhile (\<lambda>c. c \<noteq> CHR '':'') s, rest])"

definition hostPortLoose :: "string \<Rightarrow> bool" where
  "hostPortLoose s = (case split_colon s of [host, port] \<Rightarrow> hostOnly host \<and> is_port port | _ \<Rightarrow> False)"

text \<open>One number of an IPv4 address: \<^verbatim>\<open>25[0-5]|2[0-4][0-9]|[01]?[0-9][0-9]?\<close>.\<close>

fun octet :: "string \<Rightarrow> bool" where
  "octet [a] = is_digit a"
| "octet [a, b] = (is_digit a \<and> is_digit b)"
| "octet [a, b, c] = (is_digit a \<and> is_digit b \<and> is_digit c \<and>
     (a = CHR ''0'' \<or> a = CHR ''1'' \<or>
      a = CHR ''2'' \<and> ((of_char b :: nat) \<le> 52 \<or> b = CHR ''5'' \<and> (of_char c :: nat) \<le> 53)))"
| "octet _ = False"

definition hostPortIPv4 :: "string \<Rightarrow> bool" where
  "hostPortIPv4 s = (case split_colon s of
     [host, port] \<Rightarrow> length (split_on CHR ''.'' host) = 4 \<and> list_all octet (split_on CHR ''.'' host) \<and> is_port port
   | _ \<Rightarrow> False)"

definition isValidAddr :: "string \<Rightarrow> bool" where
  "isValidAddr addr \<longleftrightarrow> addr \<noteq> [] \<and> (hostOnly addr \<or> hostPortLoose addr \<or> hostPortIPv4 addr)"

section \<open>The output of ping\<close>

fun contains :: "string \<Rightarrow> string \<Rightarrow> bool" where
  "contains sub [] \<longleftrightarrow> sub = []"
| "contains sub (c # cs) \<longleftrightarrow> prefix sub (c # cs) \<or> contains sub cs"

text \<open>
  The group of the leftmost match of \<^verbatim>\<open>avg = ([\d.]+) ms\<close>: the characters of the group cannot be a space, so the
  longest run of them is the only candidate.
\<close>

definition avg_here :: "string \<Rightarrow> string option" where
  "avg_here s =
     (if prefix ''avg = '' s
      then let rest = drop (length ''avg = '') s; num = takeWhile (\<lambda>c. is_digit c \<or> c = CHR ''.'') rest
           in if num \<noteq> [] \<and> prefix '' ms'' (drop (length num) rest) then Some num else None
      else None)"

fun FindStringSubmatch :: "string \<Rightarrow> string list" where
  "FindStringSubmatch [] = []"
| "FindStringSubmatch (c # cs) = (case avg_here (c # cs) of
     Some num \<Rightarrow> [''avg = '' @ num @ '' ms'', num]
   | None \<Rightarrow> FindStringSubmatch cs)"

text \<open>
  \<^verbatim>\<open>strconv.ParseFloat\<close> on a word of digits and dots: at most one dot and at least one digit,
  and a value that does not round to infinity.
\<close>

definition ParseFloat :: "string \<Rightarrow> rat option" where
  "ParseFloat s =
     (let whole = takeWhile is_digit s; rest = drop (length whole) s;
          frac = (if rest = [] then [] else tl rest);
          v = of_nat (digits_value 0 (whole @ frac)) / 10 ^ length frac
      in if whole @ frac = [] \<or> \<not> list_all is_digit frac \<or> (rest \<noteq> [] \<and> hd rest \<noteq> CHR ''.'') then None
         else if v \<ge> 2 ^ 1024 - 2 ^ 970 then None else Some v)"

definition extractAverageRTT :: "string \<Rightarrow> rat outcome" where
  "extractAverageRTT output =
     (if contains ''time=0.00 ms'' output then Return 0
      else let match = FindStringSubmatch output in
        if length match < 2 then Fail (BadConfig NoAverage output)
        else let avg = Sum (TransformSlice match (\<lambda>_. case ParseFloat (match ! 1) of None \<Rightarrow> 0 | Some v \<Rightarrow> v))
             in Return (avg / of_nat (length match)))"

definition TrimSuffix :: "string \<Rightarrow> string \<Rightarrow> string" where
  "TrimSuffix s suff = (if suffix suff s then take (length s - length suff) s else s)"

type_synonym ping_program = "string \<Rightarrow> int \<Rightarrow> string option"

text \<open>Indexing the parts of an address without a colon is out of range.\<close>

definition calculateRoundTripProximity :: "ping_program \<Rightarrow> int \<Rightarrow> string \<Rightarrow> rat outcome" where
  "calculateRoundTripProximity ping attempts addr =
     (if \<not> isValidAddr addr then Fail (BadConfig InvalidMasterAddress addr)
      else if length (split_colon addr) < 2 then Panic
      else let host = TrimSuffix addr (split_colon addr ! 1) in
        if host = '''' then Fail (BadConfig NoHost addr)
        else case ping host attempts of
            None \<Rightarrow> extractAverageRTT ''time=0.00 ms''
          | Some output \<Rightarrow> extractAverageRTT output)"

section \<open>Starting a chunk server\<close>

definition chunk_server_suspicion :: suspicion_level where
  "chunk_server_suspicion = \<lparr>AccumulationThreshold = 7, UpperBoundThreshold = 3\<rparr>"

definition FailureDetectorKeyExpiryTime :: time where
  "FailureDetectorKeyExpiryTime = 5 * 60 * Second"

text \<open>
  The whole constructor up to the goroutines: host name, distance, failure detector on the Redis store
  \<open>st\<close> (\<open>online\<close> says whether it can be reached), the listener on the server's address, and the
  server proper.
\<close>

definition start_chunk_server :: "string option \<Rightarrow> ping_program \<Rightarrow> bool \<Rightarrow> 's \<Rightarrow> bool \<Rightarrow> server_addr \<Rightarrow> server_addr \<Rightarrow> server_addr \<Rightarrow> path \<Rightarrow>
    disk \<Rightarrow> meta_file \<Rightarrow> (machine_info \<times> 's failure_detector \<times> chunk_server) outcome" where
  "start_chunk_server hostname ping online st listening serverAddr masterAddr redisAddr root_dir disk meta = (case hostname of
     None \<Rightarrow> Fail (BadConfig HostnameUnknown '''')
   | Some host \<Rightarrow>
       bind_outcome (calculateRoundTripProximity ping 15 masterAddr) (\<lambda>proximity.
       let machineInfo = \<lparr>Hostname = host, RoundTripProximityTime = proximity\<rparr> in
       case NewFailureDetector online masterAddr 1000 FailureDetectorKeyExpiryTime chunk_server_suspicion st of
         Inl _ \<Rightarrow> Fail (RpcErr DialFailed redisAddr)
       | Inr fd \<Rightarrow>
           if \<not> listening then Fail (BadConfig ServerStartFailed serverAddr)
           else bind_outcome (NewChunkServer root_dir disk meta) (\<lambda>cs. Return (machineInfo, fd, cs))))"

section \<open>Properties\<close>

lemma host_char_dot_digit: "is_digit c \<Longrightarrow> host_char c" "host_char (CHR ''.'')" "\<not> host_char (CHR '':'')"
  by (auto simp: host_char_def is_digit_def)

lemma split_colon_none: "CHR '':'' \<notin> set s \<Longrightarrow> split_colon s = [s]"
proof -
  assume "CHR '':'' \<notin> set s"
  then have "dropWhile (\<lambda>c. c \<noteq> CHR '':'') s = []" by (auto simp: dropWhile_eq_Nil_conv)
  then show ?thesis unfolding split_colon_def by (simp only: list.case)
qed

lemma split_colon_some:
  assumes "CHR '':'' \<in> set s"
  obtains rest where "s = takeWhile (\<lambda>c. c \<noteq> CHR '':'') s @ '':'' @ rest"
    "split_colon s = [takeWhile (\<lambda>c. c \<noteq> CHR '':'') s, rest]"
proof -
  obtain y ys where d: "dropWhile (\<lambda>c. c \<noteq> CHR '':'') s = y # ys"
    using assms by (cases "dropWhile (\<lambda>c. c \<noteq> CHR '':'') s") (auto simp: dropWhile_eq_Nil_conv)
  then have "y = CHR '':''" using hd_dropWhile [of "\<lambda>c. c \<noteq> CHR '':''" s] by simp
  with d have "s = takeWhile (\<lambda>c. c \<noteq> CHR '':'') s @ '':'' @ ys" using takeWhile_dropWhile_id by (metis append_Cons append_Nil)
  with d that show ?thesis by (simp add: split_colon_def)
qed

lemma octet_host_chars: "octet s \<Longrightarrow> s \<noteq> [] \<and> list_all host_char s"
  by (induction s rule: octet.induct) (auto simp: host_char_dot_digit)

text \<open>The recogniser of IPv4 addresses accepts nothing that the looser one does not.\<close>

lemma IPv4_is_loose: "hostPortIPv4 s \<Longrightarrow> hostPortLoose s"
proof -
  assume a: "hostPortIPv4 s"
  then have colon: "CHR '':'' \<in> set s" using split_colon_none [of s] by (force simp: hostPortIPv4_def)
  obtain rest where r: "split_colon s = [takeWhile (\<lambda>c. c \<noteq> CHR '':'') s, rest]" using split_colon_some [OF colon] by blast
  let ?h = "takeWhile (\<lambda>c. c \<noteq> CHR '':'') s"
  have o: "list_all octet (split_on CHR ''.'' ?h)" "is_port rest" using a r by (auto simp: hostPortIPv4_def)
  have ne: "?h \<noteq> []"
  proof
    assume "?h = []"
    with o(1) have "list_all octet (split_on CHR ''.'' [])" by (simp only:)
    then show False by simp
  qed
  have "list_all host_char (join_with ''.'' ss)" if "list_all octet ss" for ss
    using that by (induction "''.''" ss rule: join_with.induct) (auto dest: octet_host_chars simp: host_char_dot_digit)
  from this [OF o(1)] have "list_all host_char ?h" by (simp add: join_split_on)
  with ne o r show ?thesis by (simp add: hostPortLoose_def hostOnly_def)
qed

lemma extractAverageRTT_zero: "extractAverageRTT ''time=0.00 ms'' = Return 0"
  by (simp add: extractAverageRTT_def)

text \<open>When there is a match the result is the number in it: it is added to itself and halved.\<close>

lemma FindStringSubmatch_length: "length (FindStringSubmatch s) \<in> {0, 2}"
  by (induction s rule: FindStringSubmatch.induct) (auto split: option.splits)

lemma extractAverageRTT_value:
  assumes "\<not> contains ''time=0.00 ms'' s" "FindStringSubmatch s = [m, num]" "ParseFloat num = Some v"
  shows "extractAverageRTT s = Return v"
  using assms by (simp add: extractAverageRTT_def TransformSlice_def Let_def)

lemma avg_here_None: "\<not> prefix ''avg = '' s \<Longrightarrow> avg_here s = None"
  by (simp add: avg_here_def)

lemma no_avg: "\<not> contains ''avg = '' s \<Longrightarrow> FindStringSubmatch s = []"
  by (induction s) (auto simp: avg_here_None)

lemma calculateRoundTripProximity_eq:
  "calculateRoundTripProximity ping n addr =
     (if \<not> isValidAddr addr then Fail (BadConfig InvalidMasterAddress addr)
      else if CHR '':'' \<notin> set addr then Panic
      else case ping (takeWhile (\<lambda>c. c \<noteq> CHR '':'') addr @ '':'') n of
          None \<Rightarrow> Return 0
        | Some output \<Rightarrow> extractAverageRTT output)"
proof (cases "CHR '':'' \<in> set addr")
  case False
  then show ?thesis by (simp add: calculateRoundTripProximity_def split_colon_none)
next
  case True
  then obtain rest where r: "addr = takeWhile (\<lambda>c. c \<noteq> CHR '':'') addr @ '':'' @ rest"
    "split_colon addr = [takeWhile (\<lambda>c. c \<noteq> CHR '':'') addr, rest]" by (rule split_colon_some)
  define h where "h = takeWhile (\<lambda>c. c \<noteq> CHR '':'') addr"
  from r(1) have "addr = (h @ '':'') @ rest" by (simp add: h_def)
  then have "TrimSuffix addr rest = h @ '':''" by (simp add: TrimSuffix_def suffix_def)
  with r(2) True show ?thesis
    by (simp add: calculateRoundTripProximity_def extractAverageRTT_zero h_def split: option.split)
qed

lemma start_without_port:
  assumes "hostOnly addr"
  shows "start_chunk_server (Some host) ping online st listening serverAddr addr redisAddr root_dir disk meta = Panic"
proof -
  have "CHR '':'' \<notin> set addr" using assms host_char_dot_digit(3) by (auto simp: hostOnly_def list_all_iff)
  moreover have "isValidAddr addr" using assms by (auto simp: isValidAddr_def hostOnly_def)
  ultimately show ?thesis by (simp add: start_chunk_server_def calculateRoundTripProximity_eq)
qed

text \<open>
  C40. Measuring the distance to the master. An address that the check refuses is an error. An address
  without a port is accepted by the check, but then the parts of the address are indexed out of
  range and the start of the chunk server panics. For an address with a port the
  host that is handed to \<^verbatim>\<open>ping\<close> still ends in the colon; when \<^verbatim>\<open>ping\<close> fails the distance is 0, and when
  its output has no \<^verbatim>\<open>avg = \<close> and no \<^verbatim>\<open>time=0.00 ms\<close> in it, the start fails.
\<close>

theorem proximity_needs_port:
  "(isValidAddr addr \<longleftrightarrow> hostOnly addr \<or> hostPortLoose addr) \<and>
   (\<not> isValidAddr addr \<longrightarrow> calculateRoundTripProximity ping n addr = Fail (BadConfig InvalidMasterAddress addr)) \<and>
   (hostOnly addr \<longrightarrow>
      start_chunk_server (Some host) ping online st listening serverAddr addr redisAddr root_dir disk meta = Panic) \<and>
   (hostPortLoose addr \<longrightarrow> calculateRoundTripProximity ping n addr = (case ping (takeWhile (\<lambda>c. c \<noteq> CHR '':'') addr @ '':'') n of
        None \<Rightarrow> Return 0
      | Some output \<Rightarrow> extractAverageRTT output)) \<and>
   (\<not> contains ''time=0.00 ms'' output \<longrightarrow> \<not> contains ''avg = '' output \<longrightarrow>
      extractAverageRTT output = Fail (BadConfig NoAverage output))"
proof -
  have v: "isValidAddr addr \<longleftrightarrow> hostOnly addr \<or> hostPortLoose addr"
    using IPv4_is_loose by (auto simp: isValidAddr_def hostOnly_def hostPortLoose_def split_colon_def)
  have loose: "CHR '':'' \<in> set addr" if "hostPortLoose addr"
    using that split_colon_none [of addr] by (force simp: hostPortLoose_def)
  show ?thesis unfolding v [symmetric]
    using v loose by (auto simp: calculateRoundTripProximity_eq start_without_port extractAverageRTT_def no_avg Let_def)
qed

theorem proximity_needs_port_witness:
  "hostOnly ''master'' \<and> hostPortLoose ''10.0.0.1:9090'' \<and>
   start_chunk_server (Some ''c1'') (\<lambda>_ _. None) True () True ''c1:8085'' ''master'' ''redis:6379'' ''/root'' (\<lambda>_. None) NoMeta = Panic \<and>
   calculateRoundTripProximity (\<lambda>_ _. None) 15 ''10.0.0.1:9090'' = Return 0"
proof -
  have "hostOnly ''master''" "hostPortLoose ''10.0.0.1:9090''" by code_simp+
  moreover have "start_chunk_server (Some ''c1'') (\<lambda>_ _. None) True () True ''c1:8085'' ''master'' ''redis:6379'' ''/root'' (\<lambda>_. None) NoMeta = Panic"
    using proximity_needs_port [of "''master''" "\<lambda>_ _. None" 15 "''c1''" True "()"] calculation(1) by blast
  moreover have "calculateRoundTripProximity (\<lambda>_ _. None) 15 ''10.0.0.1:9090'' = Return 0"
    using proximity_needs_port [of "''10.0.0.1:9090''" "\<lambda>_ _. None" 15 "''c1''" True "()"] calculation(2) by force
  ultimately show ?thesis by simp
qed

end
