(* ===== verification/Engine.thy ===== *)
theory Engine
  imports Gateway
begin

text \<open>
  The HTTP server, \<^verbatim>\<open>src/engine/server.go\<close>, and the life cycle of the gateway that runs on
  it, \<^verbatim>\<open>src/gateway/server.go\<close>. The server of the standard library appears as what happens to it:
  it fails to start, or a signal arrives and its shutdown takes some time. Reading the directory of certificates
  and loading a key pair are parameters. Logging is left out.
\<close>

section \<open>Configuration\<close>

record server_opts =
  MaxHeaderBytes :: int
  ReadHeaderTimeout :: time
  ReadTimeout :: time
  WriteTimeout :: time
  IdleTimeout :: time
  ShutdownTimeout :: time
  EnableTls :: bool
  DisableGeneralOptionsHandler :: bool
  UseColorizedLogger :: bool

text \<open>
  The channel of shutdown signals has room for one. \<open>'h\<close> is the type of the request multiplexer,
  \<open>'l\<close> that of log writers.
\<close>

record ('h, 'l) engine_server =
  en_ServerName :: string
  en_Address :: string
  en_TlsConfigDir :: path
  en_Opts :: server_opts
  en_ExternalLogger :: 'l
  en_Mux :: "'h option"
  en_signals :: nat
  en_shutdownOnce :: bool

definition validateServerConfig :: "string \<Rightarrow> int \<Rightarrow> 'l option \<Rightarrow> path \<Rightarrow> server_opts \<Rightarrow> go_error option" where
  "validateServerConfig serverName address logger tlsDir opts =
     (if serverName = '''' then Some (BadConfig EmptyServerName '''')
      else if address < 1 \<or> address > 65535 then Some (BadConfig AddressOutOfRange (itoa address))
      else if logger = None then Some (BadConfig LoggerIsNil '''')
      else if EnableTls opts \<and> tlsDir = '''' then Some (BadConfig TlsDirRequired '''')
      else if MaxHeaderBytes opts < 0 then Some (BadConfig NegativeHeaderBytes '''')
      else None)"

definition NewServer :: "string \<Rightarrow> int \<Rightarrow> 'l option \<Rightarrow> path \<Rightarrow> server_opts \<Rightarrow> ('h, 'l) engine_server outcome" where
  "NewServer serverName address logger tlsDir opts = (case validateServerConfig serverName address logger tlsDir opts of
     Some e \<Rightarrow> Fail e
   | None \<Rightarrow> Return \<lparr>en_ServerName = serverName, en_Address = '':'' @ itoa address, en_TlsConfigDir = tlsDir, en_Opts = opts,
       en_ExternalLogger = the logger, en_Mux = None, en_signals = 0, en_shutdownOnce = False\<rparr>)"

section \<open>Certificates\<close>

text \<open>
  What walking the directory reports: an error, or the entries with their path below it, their name and
  whether they are regular files. Files are noted by name, so of two files of one name in different
  directories the last one counts. The map of certificates is ranged over in the order of the list.
\<close>

type_synonym dir_walk = "(path \<times> string \<times> bool) list option"

definition HasSuffix :: "string \<Rightarrow> string \<Rightarrow> bool" where
  "HasSuffix s suff \<longleftrightarrow> suffix suff s"

definition key_name :: "string \<Rightarrow> string" where
  "key_name certName = take (length certName - length ''.cert'') certName @ ''.key''"

definition note_file :: "path \<Rightarrow> path \<times> string \<times> bool \<Rightarrow> (string \<times> path) list \<times> (string \<times> path) list \<Rightarrow>
    (string \<times> path) list \<times> (string \<times> path) list" where
  "note_file directory = (\<lambda>(p, name, regular) (certFiles, keyFiles).
     if \<not> regular then (certFiles, keyFiles)
     else let fullPath = Join [directory, p] in
       if HasSuffix name ''.cert'' then (AList.update name fullPath certFiles, keyFiles)
       else if HasSuffix name ''.key'' then (certFiles, AList.update name fullPath keyFiles)
       else (certFiles, keyFiles))"

fun load_pairs :: "(path \<Rightarrow> path \<Rightarrow> 'c option) \<Rightarrow> (string \<times> path) list \<Rightarrow> (string \<times> path) list \<Rightarrow> 'c list \<Rightarrow> 'c list outcome" where
  "load_pairs load keyFiles [] certificates = Return certificates"
| "load_pairs load keyFiles ((certName, certPath) # rest) certificates =
     (let keyPath = (case map_of keyFiles (key_name certName) of None \<Rightarrow> '''' | Some p \<Rightarrow> p) in
      case load certPath keyPath of
        None \<Rightarrow> Fail (BadConfig BadCertificatePair certName)
      | Some cert \<Rightarrow> load_pairs load keyFiles rest (certificates @ [cert]))"

definition collectTlsCertificates :: "dir_walk \<Rightarrow> (path \<Rightarrow> path \<Rightarrow> 'c option) \<Rightarrow> path \<Rightarrow> 'c list outcome" where
  "collectTlsCertificates walked load directory = (case walked of
     None \<Rightarrow> Fail (BadConfig WalkFailed directory)
   | Some es \<Rightarrow>
       let (certFiles, keyFiles) = fold (note_file directory) es ([], []);
           missingKeys = filter (\<lambda>name. map_of keyFiles (key_name name) = None) (map fst certFiles)
       in if missingKeys \<noteq> [] then Fail (BadConfig MissingKeys (join_with '' '' missingKeys))
          else load_pairs load keyFiles certFiles [])"

section \<open>Running and stopping\<close>

text \<open>
  What happens while the server runs: listening fails, or a signal arrives at a time and the
  graceful shutdown of the library would then take some time, or nothing happens.
\<close>

datatype serve_event = ListenFails | Signal time time | NoSignal

text \<open>
  \<^verbatim>\<open>Serve\<close> returns its result and the time when it returns. After a shutdown that succeeds it waits for the
  context to be done; the cancellation is deferred to the return, so that is when the timeout passes.
\<close>

definition shutdown_timeout :: "server_opts \<Rightarrow> time" where
  "shutdown_timeout opts = (if ShutdownTimeout opts = 0 then 10 * Second else ShutdownTimeout opts)"

definition Serve :: "dir_walk \<Rightarrow> (path \<Rightarrow> path \<Rightarrow> 'c option) \<Rightarrow> serve_event \<Rightarrow> ('h, 'l) engine_server \<Rightarrow> unit outcome \<times> time option" where
  "Serve walked load ev s =
     (if EnableTls (en_Opts s) \<and> (case collectTlsCertificates walked load (en_TlsConfigDir s) of Return _ \<Rightarrow> False | _ \<Rightarrow> True) then (Panic, None)
      else case ev of
        ListenFails \<Rightarrow> (Fail (BadConfig ServerStartFailed (en_Address s)), None)
      | NoSignal \<Rightarrow> (Deadlock, None)
      | Signal arrival needed \<Rightarrow>
          let limit = shutdown_timeout (en_Opts s) in
          if needed > limit then (Fail (BadConfig ShutdownTimedOut ''''), Some (arrival + limit))
          else (Return (), Some (arrival + limit)))"

definition Shutdown :: "('h, 'l) engine_server \<Rightarrow> ('h, 'l) engine_server" where
  "Shutdown s =
     (if en_shutdownOnce s then s
      else s\<lparr>en_shutdownOnce := True, en_signals := (if en_signals s < 1 then en_signals s + 1 else en_signals s)\<rparr>)"

section \<open>The gateway\<close>

record 'l gateway_config =
  gc_Logger :: "'l option"
  gc_ServerName :: string
  gc_TlsDir :: path
  gc_Address :: int
  gc_MaxHeaderBytes :: int
  gc_ReadTimeout :: time
  gc_WriteTimeout :: time
  gc_IdleTimeout :: time
  gc_EnableTLS :: bool

text \<open>\<open>nop\<close> is the writer that discards everything.\<close>

definition DefaultGatewayConfig :: "'l \<Rightarrow> 'l gateway_config" where
  "DefaultGatewayConfig nop = \<lparr>gc_Logger = Some nop, gc_ServerName = ''hercules-gateway'', gc_TlsDir = '''', gc_Address = 8080,
     gc_MaxHeaderBytes = 2 ^ 20, gc_ReadTimeout = 30 * Second, gc_WriteTimeout = 30 * Second,
     gc_IdleTimeout = 120 * Second, gc_EnableTLS = False\<rparr>"

record 'l http_gateway =
  gw_server :: "(handler, 'l) engine_server"
  gw_clientOpen :: bool
  gw_cancelled :: bool
  gw_serving :: bool
  gw_logger :: 'l

definition gateway_opts :: "'l gateway_config \<Rightarrow> server_opts" where
  "gateway_opts config = \<lparr>MaxHeaderBytes = gc_MaxHeaderBytes config, ReadHeaderTimeout = gc_ReadTimeout config, ReadTimeout = 0,
     WriteTimeout = gc_WriteTimeout config, IdleTimeout = gc_IdleTimeout config, ShutdownTimeout = 0,
     EnableTls = gc_EnableTLS config, DisableGeneralOptionsHandler = False, UseColorizedLogger = True\<rparr>"

definition NewHerculesHTTPGateway :: "'l \<Rightarrow> 'l gateway_config \<Rightarrow> 'l http_gateway outcome" where
  "NewHerculesHTTPGateway nop config =
     (let loggerWriter = (case gc_Logger config of None \<Rightarrow> nop | Some l \<Rightarrow> l) in
      bind_outcome (NewServer (gc_ServerName config) (gc_Address config) (Some loggerWriter) (gc_TlsDir config) (gateway_opts config)) (\<lambda>s.
        Return \<lparr>gw_server = s\<lparr>en_Mux := Some serve_request\<rparr>, gw_clientOpen = True, gw_cancelled = False, gw_serving = False, gw_logger = loggerWriter\<rparr>))"

definition Start :: "'l http_gateway \<Rightarrow> 'l http_gateway" where
  "Start g = g\<lparr>gw_serving := True\<rparr>"

definition gateway_Shutdown :: "'l http_gateway \<Rightarrow> 'l http_gateway" where
  "gateway_Shutdown g = g\<lparr>gw_clientOpen := False, gw_cancelled := True, gw_server := Shutdown (gw_server g)\<rparr>"

section \<open>Certificates are paired by name\<close>

definition walked_certs :: "path \<Rightarrow> (path \<times> string \<times> bool) list \<Rightarrow> (string \<times> path) list" where
  "walked_certs directory es = fst (fold (note_file directory) es ([], []))"

definition walked_keys :: "path \<Rightarrow> (path \<times> string \<times> bool) list \<Rightarrow> (string \<times> path) list" where
  "walked_keys directory es = snd (fold (note_file directory) es ([], []))"

lemma note_file_names:
  "fst ` set (fst (note_file directory e fs)) = fst ` set (fst fs) \<union> {n. n = fst (snd e) \<and> snd (snd e) \<and> HasSuffix n ''.cert''}"
  "fst ` set (snd (note_file directory e fs)) = fst ` set (snd fs) \<union> {n. n = fst (snd e) \<and> snd (snd e) \<and> HasSuffix n ''.key'' \<and> \<not> HasSuffix n ''.cert''}"
  by (cases e; cases fs; simp add: note_file_def Let_def dom_update; fastforce)+

lemma suffix_cert_key: "\<not> (suffix ''.cert'' s \<and> suffix ''.key'' s)"
  by (auto simp: suffix_def)

lemma walked_names:
  "fst ` set (walked_certs directory es) = {n. \<exists>p. (p, n, True) \<in> set es \<and> HasSuffix n ''.cert''}"
  "fst ` set (walked_keys directory es) = {n. \<exists>p. (p, n, True) \<in> set es \<and> HasSuffix n ''.key''}"
proof -
  have "fst ` set (fst (fold (note_file directory) es fs)) = fst ` set (fst fs) \<union> {n. \<exists>p. (p, n, True) \<in> set es \<and> HasSuffix n ''.cert''}" for fs
    by (induction es arbitrary: fs) (simp, simp add: note_file_names, fastforce)
  then show "fst ` set (walked_certs directory es) = {n. \<exists>p. (p, n, True) \<in> set es \<and> HasSuffix n ''.cert''}"
    by (simp add: walked_certs_def)
  have "fst ` set (snd (fold (note_file directory) es fs)) = fst ` set (snd fs) \<union> {n. \<exists>p. (p, n, True) \<in> set es \<and> HasSuffix n ''.key''}" for fs
    using suffix_cert_key by (induction es arbitrary: fs) (simp, simp add: note_file_names HasSuffix_def, fastforce)
  then show "fst ` set (walked_keys directory es) = {n. \<exists>p. (p, n, True) \<in> set es \<and> HasSuffix n ''.key''}"
    by (simp add: walked_keys_def)
qed

lemma load_pairs_Return:
  "load_pairs load keyFiles certFiles acc = Return cs \<longleftrightarrow>
     (\<exists>new. cs = acc @ new \<and>
        map Some new = map (\<lambda>(n, p). load p (case map_of keyFiles (key_name n) of None \<Rightarrow> '''' | Some k \<Rightarrow> k)) certFiles)"
proof (induction certFiles arbitrary: acc)
  case (Cons c certFiles)
  obtain n p where c: "c = (n, p)" by force
  let ?l = "load p (case map_of keyFiles (key_name n) of None \<Rightarrow> '''' | Some k \<Rightarrow> k)"
  show ?case
  proof (cases ?l)
    case (Some cert)
    with Cons [of "acc @ [cert]"] c show ?thesis by (auto simp: Let_def map_eq_Cons_conv)
  qed (auto simp: c Let_def map_eq_Cons_conv)
qed auto

lemma missing_keys_iff:
  "filter (\<lambda>name. map_of (walked_keys directory es) (key_name name) = None) (map fst (walked_certs directory es)) = [] \<longleftrightarrow>
     (\<forall>n p. (p, n, True) \<in> set es \<longrightarrow> HasSuffix n ''.cert'' \<longrightarrow> (\<exists>q. (q, key_name n, True) \<in> set es))"
proof -
  have key: "HasSuffix (key_name n) ''.key''" for n by (simp add: HasSuffix_def key_name_def suffix_def)
  have "map_of (walked_keys directory es) k = None \<longleftrightarrow> k \<notin> fst ` set (walked_keys directory es)" for k by (rule map_of_eq_None_iff)
  then have "filter (\<lambda>name. map_of (walked_keys directory es) (key_name name) = None) (map fst (walked_certs directory es)) = [] \<longleftrightarrow>
      (\<forall>n \<in> fst ` set (walked_certs directory es). key_name n \<in> fst ` set (walked_keys directory es))"
    by (auto simp: filter_empty_conv)
  then show ?thesis unfolding walked_names using key by auto
qed

text \<open>
  Loading the certificates succeeds exactly when every certificate file has a key file of the same
  name somewhere below the directory and every pair can be loaded; it fails, and \<^verbatim>\<open>Serve\<close> panics, otherwise.
\<close>

lemma collectTlsCertificates_Return:
  "collectTlsCertificates (Some es) load directory = Return cs \<longleftrightarrow>
     (\<forall>n p. (p, n, True) \<in> set es \<longrightarrow> HasSuffix n ''.cert'' \<longrightarrow> (\<exists>q. (q, key_name n, True) \<in> set es)) \<and>
     map Some cs = map (\<lambda>(n, p). load p (the (map_of (walked_keys directory es) (key_name n)))) (walked_certs directory es)"
proof -
  let ?certs = "walked_certs directory es" and ?keys = "walked_keys directory es"
  let ?missing = "filter (\<lambda>name. map_of ?keys (key_name name) = None) (map fst ?certs)"
  have c: "collectTlsCertificates (Some es) load directory =
      (if ?missing \<noteq> [] then Fail (BadConfig MissingKeys (join_with '' '' ?missing)) else load_pairs load ?keys ?certs [])"
    by (simp add: collectTlsCertificates_def walked_certs_def walked_keys_def case_prod_unfold Let_def)
  have eq: "map (\<lambda>(n, p). load p (case map_of ?keys (key_name n) of None \<Rightarrow> '''' | Some k \<Rightarrow> k)) ?certs =
      map (\<lambda>(n, p). load p (the (map_of ?keys (key_name n)))) ?certs" if "?missing = []"
    using that by (force simp: filter_empty_conv)
  show ?thesis
  proof (cases "?missing = []")
    case True
    have "load_pairs load ?keys ?certs [] = Return cs \<longleftrightarrow>
        map Some cs = map (\<lambda>(n, p). load p (case map_of ?keys (key_name n) of None \<Rightarrow> '''' | Some k \<Rightarrow> k)) ?certs"
      by (simp add: load_pairs_Return)
    also note eq [OF True]
    finally show ?thesis unfolding c missing_keys_iff [of directory es, symmetric] using True by simp
  next
    case False
    then show ?thesis unfolding c missing_keys_iff [of directory es, symmetric] by simp
  qed
qed

text \<open>A graceful stop always takes the whole timeout, however fast the connections are closed.\<close>

lemma Serve_takes_whole_timeout:
  assumes "\<not> EnableTls (en_Opts s)"
  shows "snd (Serve walked load (Signal arrival needed) s) = Some (arrival + shutdown_timeout (en_Opts s))"
    and "fst (Serve walked load (Signal arrival needed) s) = Return () \<longleftrightarrow> needed \<le> shutdown_timeout (en_Opts s)"
  using assms by (auto simp: Serve_def Let_def)

lemma Shutdown_once: "Shutdown (Shutdown s) = Shutdown s" "en_signals s \<le> 1 \<Longrightarrow> en_signals (Shutdown s) \<le> 1"
  "\<not> en_shutdownOnce s \<Longrightarrow> en_signals (Shutdown s) \<ge> 1"
  by (auto simp: Shutdown_def)

text \<open>The gateway is made for exactly the configurations with a name, a port, no negative size, and a directory for TLS.\<close>

definition config_ok :: "'l gateway_config \<Rightarrow> bool" where
  "config_ok config \<longleftrightarrow> gc_ServerName config \<noteq> '''' \<and> 1 \<le> gc_Address config \<and> gc_Address config \<le> 65535 \<and>
     (gc_EnableTLS config \<longrightarrow> gc_TlsDir config \<noteq> '''') \<and> 0 \<le> gc_MaxHeaderBytes config"

lemma NewHerculesHTTPGateway_iff:
  "(\<exists>g. NewHerculesHTTPGateway nop config = Return g) \<longleftrightarrow> config_ok config"
  by (auto simp: NewHerculesHTTPGateway_def NewServer_def validateServerConfig_def gateway_opts_def config_ok_def Let_def)

lemma NewHerculesHTTPGateway_Fail:
  assumes "\<not> config_ok config"
  obtains e where "NewHerculesHTTPGateway nop config = Fail e"
  using assms NewHerculesHTTPGateway_iff [of nop config]
  by (fastforce simp: NewHerculesHTTPGateway_def NewServer_def Let_def split: option.splits)

lemma NewHerculesHTTPGateway_serves:
  assumes "NewHerculesHTTPGateway nop config = Return g"
  shows "en_Mux (gw_server g) = Some serve_request" and "en_signals (gw_server g) = 0" and "\<not> en_shutdownOnce (gw_server g)"
    and "en_Opts (gw_server g) = gateway_opts config" and "\<not> gw_serving g"
  using assms by (auto simp: NewHerculesHTTPGateway_def NewServer_def outcome_simps Let_def split: option.splits)

lemma DefaultGatewayConfig_ok: "config_ok (DefaultGatewayConfig nop)"
  by (simp add: config_ok_def DefaultGatewayConfig_def)

end
