(* ===== verification/Startup.thy ===== *)
theory Startup
  imports Engine Proximity Master_Properties
begin

text \<open>
  The processes: \<^verbatim>\<open>src/main.go\<close>, and of \<^verbatim>\<open>src/master_server/master_server.go\<close> the
  construction of the master, its background loop, its metadata file and its shutdown. The machine
  a process runs on is a parameter: environment variables, flags, working directory, whether Redis and the
  listening address can be had, and the files.
\<close>

section \<open>Configuration\<close>

record config =
  cf_ServerType :: string
  cf_RootDir :: path
  cf_LogLevel :: string
  cf_ServerAddress :: server_addr
  cf_MasterAddress :: server_addr
  cf_RedisAddress :: server_addr
  cf_GatewayAddress :: int

text \<open>The flags as \<^verbatim>\<open>flag.Parse\<close> finds them on the command line.\<close>

record cmd_flags =
  fl_ServerType :: "string option"
  fl_serverAddr :: "string option"
  fl_masterAddr :: "string option"
  fl_redisAddr :: "string option"
  fl_gatewayAddr :: "int option"
  fl_rootDir :: "string option"
  fl_logLevel :: "string option"

definition no_flags :: cmd_flags where
  "no_flags = \<lparr>fl_ServerType = None, fl_serverAddr = None, fl_masterAddr = None, fl_redisAddr = None, fl_gatewayAddr = None,
     fl_rootDir = None, fl_logLevel = None\<rparr>"

text \<open>The value of \<^verbatim>\<open>strconv.Atoi\<close> with its error dropped: 0 for a malformed number, the nearest bound for one out of range.\<close>

definition Atoi_value :: "string \<Rightarrow> int" where
  "Atoi_value s = (case ParseInt s of
     Some i \<Rightarrow> i
   | None \<Rightarrow>
       let ds = (if s \<noteq> [] \<and> hd s \<in> {CHR ''-'', CHR ''+''} then tl s else s) in
       if ds = [] \<or> \<not> list_all is_digit ds then 0
       else if hd s = CHR ''-'' then - (2 ^ 63) else 2 ^ 63 - 1)"

definition Abs :: "path option \<Rightarrow> path \<Rightarrow> path outcome" where
  "Abs cwd p =
     (if rooted p then Return (Clean p)
      else case cwd of None \<Rightarrow> Fail (BadConfig RootNotResolved p) | Some d \<Rightarrow> Return (Join [d, p]))"

definition given :: "'a option \<Rightarrow> 'a \<Rightarrow> 'a" where
  "given x d = (case x of None \<Rightarrow> d | Some v \<Rightarrow> v)"

definition parseConfig :: "(string \<Rightarrow> string) \<Rightarrow> cmd_flags \<Rightarrow> path option \<Rightarrow> config outcome" where
  "parseConfig Getenv fl cwd =
     (let rootDir = given (fl_rootDir fl) ''mroot''; logLevel = given (fl_logLevel fl) ''debug'';
          serverType = given (fl_ServerType fl) ''chunk_server''
      in bind_outcome (Abs cwd rootDir) (\<lambda>absRootDir.
         if logLevel \<notin> {''debug'', ''info'', ''warn'', ''error''} then Fail (BadConfig InvalidLogLevel logLevel)
         else if serverType \<notin> {''gateway_server'', ''chunk_server'', ''master_server''} then Fail (BadConfig UnsupportedServerType serverType)
         else Return \<lparr>cf_ServerType = serverType, cf_RootDir = absRootDir, cf_LogLevel = logLevel,
           cf_ServerAddress = given (fl_serverAddr fl) (Getenv ''SERVER_ADDRESS''),
           cf_MasterAddress = given (fl_masterAddr fl) (Getenv ''MASTER_ADDR''),
           cf_RedisAddress = given (fl_redisAddr fl) (Getenv ''REDIS_ADDR''),
           cf_GatewayAddress = given (fl_gatewayAddr fl) (Atoi_value (Getenv ''GATEWAY_ADDR''))\<rparr>))"

datatype log_level = DebugLevel | InfoLevel | WarnLevel | ErrorLevel

definition setupLogger :: "string \<Rightarrow> log_level outcome" where
  "setupLogger level =
     (if level = ''debug'' then Return DebugLevel
      else if level = ''info'' then Return InfoLevel
      else if level = ''warn'' then Return WarnLevel
      else if level = ''error'' then Return ErrorLevel
      else Fail (BadConfig UnsupportedLogLevel level))"

section \<open>The master process\<close>

text \<open>
  The metadata file of the master: missing, empty, not decodable, or the saved namespace and
  chunks. Saving truncates the file and then writes it.
\<close>

datatype master_meta = NoneSaved | EmptySaved | CorruptSaved | Saved "serialized_node list" "serial_chunk_info list"

record 's master_process =
  mp_server :: master_server
  mp_meta :: master_meta
  mp_corrupt :: bool
  mp_detector :: "'s failure_detector"
  mp_listening :: bool
  mp_isDead :: bool
  mp_chanClosed :: bool

definition persist_truncate :: "'s master_process \<Rightarrow> 's master_process" where
  "persist_truncate mp = mp\<lparr>mp_meta := EmptySaved\<rparr>"

definition persist_write :: "'s master_process \<Rightarrow> 's master_process" where
  "persist_write mp = (case persistMetaData (mp_server mp) of
     ((nodes, cs), ma) \<Rightarrow> mp\<lparr>mp_meta := Saved nodes cs, mp_server := ma\<rparr>)"

definition persist_file :: "'s master_process \<Rightarrow> 's master_process" where
  "persist_file mp = persist_write (persist_truncate mp)"

text \<open>
  Loading: a missing file is created, an empty one holds nothing, and one that cannot be decoded is
  moved away. \<open>writable\<close> says whether files can be made and moved.
\<close>

definition load_file :: "bool \<Rightarrow> time \<Rightarrow> 's master_process \<Rightarrow> unit outcome \<times> 's master_process" where
  "load_file writable now mp = (case mp_meta mp of
     NoneSaved \<Rightarrow> if writable then (Return (), mp\<lparr>mp_meta := EmptySaved\<rparr>) else (Fail (Os ENOENT), mp)
   | EmptySaved \<Rightarrow> (Return (), mp)
   | CorruptSaved \<Rightarrow> if writable then (Return (), mp\<lparr>mp_meta := EmptySaved, mp_corrupt := True\<rparr>) else (Fail (Os EINVAL), mp)
   | Saved nodes cs \<Rightarrow> (case Master_Server.loadMetadata now (Some (nodes, cs)) (mp_server mp) of
       (r, ma) \<Rightarrow> (r, mp\<lparr>mp_server := ma\<rparr>)))"

record master_config =
  mc_RootDir :: path
  mc_ServerAddress :: server_addr
  mc_RedisAddr :: string
  mc_WindowSize :: int
  mc_EntryExpiryTime :: time
  mc_SuspicionLevel :: suspicion_level

text \<open>
  The constructor returns nil after an error that it only logs, and ends the process when the root
  directory or the metadata cannot be had.
\<close>

datatype 's master_start = StartNil | StartFatal | StartPanic | StartOk "'s master_process"

definition start_master :: "bool \<Rightarrow> 's \<Rightarrow> bool \<Rightarrow> bool \<Rightarrow> time \<Rightarrow> master_meta \<Rightarrow> master_config \<Rightarrow> 's master_start" where
  "start_master online st listening writable now meta cfg =
     (case NewFailureDetector online (mc_ServerAddress cfg) (mc_WindowSize cfg) (mc_EntryExpiryTime cfg) (mc_SuspicionLevel cfg) st of
        Inl _ \<Rightarrow> StartNil
      | Inr fd \<Rightarrow>
          if \<not> listening then StartNil
          else if \<not> writable then StartFatal
          else case load_file writable now \<lparr>mp_server = NewMasterServer, mp_meta = meta, mp_corrupt = False, mp_detector = fd,
                 mp_listening = True, mp_isDead = False, mp_chanClosed = False\<rparr> of
              (Return _, mp) \<Rightarrow> StartOk mp
            | (Fail _, mp) \<Rightarrow> StartFatal
            | _ \<Rightarrow> StartPanic)"

text \<open>The background loop: health checks, saving, and predictions, which are only logged.\<close>

datatype 's master_event =
    HealthTick time "server_addr \<Rightarrow> go_error option" "chunk_handle \<Rightarrow> server_addr \<Rightarrow> server_addr \<Rightarrow> replication_calls"
  | SaveTick
  | PredictTick "'s redis" "real \<Rightarrow> real" time

datatype tick_log = Quiet | TickError | Suspicion action

definition predict_tick :: "'s redis \<Rightarrow> (real \<Rightarrow> real) \<Rightarrow> time \<Rightarrow> 's failure_detector \<Rightarrow> tick_log" where
  "predict_tick rd erf now fd = (case Predict rd erf now fd of Inl _ \<Rightarrow> TickError | Inr (a, _) \<Rightarrow> Suspicion a)"

fun master_background :: "'s master_event \<Rightarrow> 's master_process \<Rightarrow> tick_log \<times> 's master_process" where
  "master_background (HealthTick now rpc calls) mp =
     (case on_csm (serverHeartBeat now rpc calls) (mp_server mp) of
        (Return _, ma) \<Rightarrow> (Quiet, mp\<lparr>mp_server := ma\<rparr>)
      | (_, ma) \<Rightarrow> (TickError, mp\<lparr>mp_server := ma\<rparr>))"
| "master_background SaveTick mp = (Quiet, persist_file mp)"
| "master_background (PredictTick rd erf now) mp = (predict_tick rd erf now (mp_detector mp), mp)"

text \<open>
  Shutting down. The mark that the server is dead is tested but nowhere set, and closing the
  closed channel panics.
\<close>

definition master_Shutdown :: "'s master_process \<Rightarrow> unit outcome \<times> 's master_process" where
  "master_Shutdown mp =
     (if mp_isDead mp then (Return (), mp)
      else let mp = persist_file (mp\<lparr>mp_listening := False\<rparr>) in
        if mp_chanClosed mp then (Panic, mp) else (Return (), mp\<lparr>mp_chanClosed := True\<rparr>))"

section \<open>The program\<close>

text \<open>The machine and its surroundings when the process starts.\<close>

record 's machine =
  mach_Getenv :: "string \<Rightarrow> string"
  mach_flags :: cmd_flags
  mach_cwd :: "path option"
  mach_hostname :: "string option"
  mach_ping :: ping_program
  mach_redis :: bool
  mach_store :: 's
  mach_listen :: bool
  mach_writable :: bool
  mach_disk :: disk
  mach_chunkMeta :: meta_file
  mach_masterMeta :: master_meta
  mach_now :: time

text \<open>
  A process has ended with a code, has crashed, or waits for a signal. A gateway whose server
  could not listen waits as well: the result of \<^verbatim>\<open>Serve\<close> is dropped.
\<close>

datatype 's process =
    Exited int
  | Crashed
  | ChunkServerUp "'s failure_detector" chunk_server
  | MasterUp "'s master_process"
  | MasterMissing
  | GatewayUp "unit http_gateway" bool

definition master_config_of :: "config \<Rightarrow> master_config" where
  "master_config_of cfg = \<lparr>mc_RootDir = cf_RootDir cfg, mc_ServerAddress = cf_ServerAddress cfg, mc_RedisAddr = cf_RedisAddress cfg,
     mc_WindowSize = 100, mc_EntryExpiryTime = 10 * Millisecond,
     mc_SuspicionLevel = \<lparr>AccumulationThreshold = 3, UpperBoundThreshold = 8\<rparr>\<rparr>"

definition gateway_config_of :: "config \<Rightarrow> unit gateway_config" where
  "gateway_config_of cfg = \<lparr>gc_Logger = Some (), gc_ServerName = ''Gateway'', gc_TlsDir = '''', gc_Address = cf_GatewayAddress cfg,
     gc_MaxHeaderBytes = 2 ^ 20, gc_ReadTimeout = 15 * Second, gc_WriteTimeout = 30 * Second, gc_IdleTimeout = 10 * Second,
     gc_EnableTLS = False\<rparr>"

definition main :: "'s machine \<Rightarrow> 's process" where
  "main mach = (case parseConfig (mach_Getenv mach) (mach_flags mach) (mach_cwd mach) of
     Return cfg \<Rightarrow> (case setupLogger (cf_LogLevel cfg) of
       Return _ \<Rightarrow>
         if cf_ServerType cfg = ''chunk_server''
         then (case start_chunk_server (mach_hostname mach) (mach_ping mach) (mach_redis mach) (mach_store mach) (mach_listen mach)
                 (cf_ServerAddress cfg) (cf_MasterAddress cfg) (cf_RedisAddress cfg) (cf_RootDir cfg) (mach_disk mach) (mach_chunkMeta mach) of
             Return (_, fd, cs) \<Rightarrow> ChunkServerUp fd cs
           | Fail _ \<Rightarrow> Exited 1
           | _ \<Rightarrow> Crashed)
         else if cf_ServerType cfg = ''master_server''
         then (case start_master (mach_redis mach) (mach_store mach) (mach_listen mach) (mach_writable mach) (mach_now mach)
                 (mach_masterMeta mach) (master_config_of cfg) of
             StartOk mp \<Rightarrow> MasterUp mp
           | StartNil \<Rightarrow> MasterMissing
           | StartFatal \<Rightarrow> Exited 1
           | StartPanic \<Rightarrow> Crashed)
         else (case NewHerculesHTTPGateway () (gateway_config_of cfg) of
             Return g \<Rightarrow> GatewayUp (Start g) (mach_listen mach)
           | Fail _ \<Rightarrow> Exited 1
           | _ \<Rightarrow> Crashed)
     | _ \<Rightarrow> Exited 1)
   | _ \<Rightarrow> Exited 1)"

text \<open>
  A signal: the server is shut down, and then the process ends. A shutdown that does not return
  keeps the process, and calling a method of the missing master crashes it.
\<close>

definition on_signal :: "(byte list \<Rightarrow> checksum) \<Rightarrow> 's process \<Rightarrow> 's process option" where
  "on_signal sha p = (case p of
     ChunkServerUp fd cs \<Rightarrow> (case Chunk_Server.Shutdown sha cs of
       (Return _, _) \<Rightarrow> Some (Exited 0)
     | (Fail _, _) \<Rightarrow> Some (Exited 0)
     | (Panic, _) \<Rightarrow> Some Crashed
     | _ \<Rightarrow> None)
   | MasterUp mp \<Rightarrow> (case master_Shutdown mp of
       (Return _, _) \<Rightarrow> Some (Exited 0)
     | _ \<Rightarrow> Some Crashed)
   | MasterMissing \<Rightarrow> Some Crashed
   | GatewayUp g listening \<Rightarrow> Some (Exited 0)
   | _ \<Rightarrow> Some p)"

section \<open>Restarting the master\<close>

lemma NewFailureDetector_online:
  "NewFailureDetector True k sz ttl l st = Inr \<lparr>fd_Window = \<lparr>sw_key = k, sw_size = (if sz \<le> 0 then 10 else sz),
     sw_ttl = (if ttl \<le> 0 then Second else ttl)\<rparr>, fd_SuspicionLevel = l, fd_isShutdown = False, fd_store = st\<rparr>"
  by (simp add: NewFailureDetector_def NewSamplingWindow_def Let_def)

lemma persist_file_meta:
  "mp_meta (persist_file mp) = Saved (fst (Serialize (namespaceManager (mp_server mp)))) (SerializeChunks (chunkServerManager (mp_server mp)))"
  by (simp add: persist_file_def persist_write_def persist_truncate_def persistMetaData_def split: prod.splits)

lemma load_saved:
  assumes "nm_inv nm" and "csm_inv m"
  obtains ma where "Master_Server.loadMetadata now (Some (fst (Serialize nm), SerializeChunks m)) NewMasterServer = (Return (), ma)"
    and "view (ns_root (namespaceManager ma)) = (\<lambda>ps. map_option (\<lambda>a. a\<lparr>a_length := 0\<rparr>) (view (ns_root nm) ps))"
    and "chunkServerManager ma = DeserializeChunks now (SerializeChunks m) NewChunkServerManager"
proof -
  obtain nodes nm1 where s: "Serialize nm = (nodes, nm1)" by force
  obtain t nm3 where d: "Deserialize nodes NewNameSpaceManager = (Return t, nm3)" "ns_root nm3 = t"
    "view t = (\<lambda>ps. map_option (\<lambda>a. a\<lparr>a_length := 0\<rparr>) (view (ns_root nm) ps))"
    using Serialize_Deserialize [OF assms(1) s, of NewNameSpaceManager] by (auto simp: NewNameSpaceManager_def)
  have "length nodes = node_count (ns_root nm)" using Serialize_decodes [OF nm_invD(1) [OF assms(1)]] s by (metis fst_conv)
  then have "nodes \<noteq> []" using node_count_pos [of "ns_root nm"] by force
  with s d show ?thesis
    by (intro that [of "\<lparr>namespaceManager = nm3, chunkServerManager = DeserializeChunks now (SerializeChunks m) NewChunkServerManager\<rparr>"])
       (auto simp: Master_Server.loadMetadata_def NewMasterServer_def on_ns_def update_csm_def)
qed

text \<open>
  C23. Restarting the master. Started on the file that a completed save has left, it has the
  namespace of before with every length 0, the files with their handles, the reverse index and
  the chunk records without locations. But a save first truncates the file: after a crash between the truncation
  and the write, the next start succeeds with an empty namespace and no chunk at all.
\<close>

theorem master_restart_or_loss:
  assumes "ms_inv (mp_server mp)"
  shows "(\<exists>mq. start_master True st True True now (mp_meta (persist_file mp)) cfg = StartOk mq \<and>
      view (ns_root (namespaceManager (mp_server mq))) =
        (\<lambda>ps. map_option (\<lambda>a. a\<lparr>a_length := 0\<rparr>) (view (ns_root (namespaceManager (mp_server mp))) ps)) \<and>
      handles_of (chunkServerManager (mp_server mq)) = handles_of (chunkServerManager (mp_server mp)) \<and>
      owner (chunkServerManager (mp_server mq)) = owner (chunkServerManager (mp_server mp)) \<and>
      (\<forall>h. getChunk h (chunkServerManager (mp_server mq)) =
         map_option (\<lambda>c. c\<lparr>expire := now, primary := '''', locations := []\<rparr>) (getChunk h (chunkServerManager (mp_server mp))))) \<and>
    (\<exists>mq. start_master True st True True now (mp_meta (persist_truncate mp)) cfg = StartOk mq \<and> mp_server mq = NewMasterServer)"
proof -
  let ?nm = "namespaceManager (mp_server mp)" and ?m = "chunkServerManager (mp_server mp)"
  have inv: "nm_inv ?nm" "csm_inv ?m" using assms by (simp_all add: ms_inv_def)
  obtain ma where ma: "Master_Server.loadMetadata now (Some (fst (Serialize ?nm), SerializeChunks ?m)) NewMasterServer = (Return (), ma)"
    "view (ns_root (namespaceManager ma)) = (\<lambda>ps. map_option (\<lambda>a. a\<lparr>a_length := 0\<rparr>) (view (ns_root ?nm) ps))"
    "chunkServerManager ma = DeserializeChunks now (SerializeChunks ?m) NewChunkServerManager"
    by (rule load_saved [OF inv])
  obtain mq where mq: "start_master True st True True now (mp_meta (persist_file mp)) cfg = StartOk mq" "mp_server mq = ma"
    by (simp add: start_master_def NewFailureDetector_online load_file_def persist_file_meta ma(1))
  have "\<exists>mq. start_master True st True True now (mp_meta (persist_file mp)) cfg = StartOk mq \<and>
      view (ns_root (namespaceManager (mp_server mq))) = (\<lambda>ps. map_option (\<lambda>a. a\<lparr>a_length := 0\<rparr>) (view (ns_root ?nm) ps)) \<and>
      handles_of (chunkServerManager (mp_server mq)) = handles_of ?m \<and>
      owner (chunkServerManager (mp_server mq)) = owner ?m \<and>
      (\<forall>h. getChunk h (chunkServerManager (mp_server mq)) =
         map_option (\<lambda>c. c\<lparr>expire := now, primary := '''', locations := []\<rparr>) (getChunk h ?m))"
    by (intro exI [of _ mq]) (simp add: mq ma(2,3) restart_restores_inv [OF inv(2)])
  moreover have "\<exists>mq. start_master True st True True now (mp_meta (persist_truncate mp)) cfg = StartOk mq \<and> mp_server mq = NewMasterServer"
    by (simp add: start_master_def NewFailureDetector_online load_file_def persist_truncate_def)
  ultimately show ?thesis by (rule conjI)
qed

definition one_chunk :: csm where
  "one_chunk = snd (createChunk 0 (\<lambda>_. None) ''/f'' [''s1''] NewChunkServerManager)"

definition sample_master :: "unit master_process" where
  "sample_master = \<lparr>mp_server = NewMasterServer\<lparr>chunkServerManager := one_chunk\<rparr>, mp_meta = NoneSaved, mp_corrupt = False,
     mp_detector = \<lparr>fd_Window = \<lparr>sw_key = '''', sw_size = 1, sw_ttl = 1\<rparr>,
       fd_SuspicionLevel = \<lparr>AccumulationThreshold = 0, UpperBoundThreshold = 0\<rparr>, fd_isShutdown = False, fd_store = ()\<rparr>,
     mp_listening = True, mp_isDead = False, mp_chanClosed = False\<rparr>"

lemma one_chunk_facts: "csm_inv one_chunk" "handles_of one_chunk ''/f'' = [0]" "handles_of NewChunkServerManager ''/f'' = []"
proof -
  have "csm_reachable one_chunk" unfolding one_chunk_def by (rule csm_reachable_step [OF csm_reachable_New s_create])
  then show "csm_inv one_chunk" by (rule csm_inv_reachable)
qed (simp_all add: one_chunk_def createChunk_def Let_def NewChunkServerManager_def handles_of_def List.map_filter_simps)

definition sample_config :: config where
  "sample_config = \<lparr>cf_ServerType = ''master_server'', cf_RootDir = ''/m'', cf_LogLevel = ''debug'', cf_ServerAddress = ''m:9090'',
     cf_MasterAddress = '''', cf_RedisAddress = ''r:6379'', cf_GatewayAddress = 0\<rparr>"

theorem master_restart_or_loss_witness:
  "(\<exists>mq. start_master True () True True 7 (mp_meta (persist_file sample_master)) (master_config_of sample_config) = StartOk mq \<and>
      handles_of (chunkServerManager (mp_server mq)) ''/f'' = [0]) \<and>
   (\<exists>mq. start_master True () True True 7 (mp_meta (persist_truncate sample_master)) (master_config_of sample_config) = StartOk mq \<and>
      handles_of (chunkServerManager (mp_server mq)) ''/f'' = [])"
proof -
  have m: "chunkServerManager (mp_server sample_master) = one_chunk" by (simp add: sample_master_def NewMasterServer_def)
  have "ms_inv (mp_server sample_master)"
    by (simp add: ms_inv_def m one_chunk_facts) (simp add: sample_master_def NewMasterServer_def nm_inv_def NewNameSpaceManager_def)
  note r = master_restart_or_loss [OF this, of "()" 7 "master_config_of sample_config", unfolded m]
  from r obtain mq where "start_master True () True True 7 (mp_meta (persist_file sample_master)) (master_config_of sample_config) = StartOk mq"
    "handles_of (chunkServerManager (mp_server mq)) = handles_of one_chunk" by blast
  moreover from r obtain mq' where
    "start_master True () True True 7 (mp_meta (persist_truncate sample_master)) (master_config_of sample_config) = StartOk mq'"
    "mp_server mq' = NewMasterServer" by blast
  ultimately show ?thesis by (simp add: one_chunk_facts NewMasterServer_def)
qed

section \<open>Predictions of the master\<close>

lemma decode_members_length: "decode_members rd ms = Inr es \<Longrightarrow> length es = length ms"
  by (induction ms arbitrary: es) (auto split: option.splits sum.splits)

text \<open>
  C32. The failure detector of the master as the program configures it, on whatever samples the
  store holds: samples count for ten milliseconds, so unless fifty of them are that young every
  prediction is an error; and since the threshold for an alert is below the one for a warning, a
  prediction is never a warning.
\<close>

theorem master_prediction_limits:
  assumes "redis_ok rd mem"
    and "start_master online st listening writable t meta (master_config_of cfg) = StartOk mp"
  shows "(length (filter (\<lambda>x. fst x \<ge> UnixMilli now - 10) (mem store)) < 50 \<longrightarrow>
      predict_tick rd erf now ((mp_detector mp)\<lparr>fd_store := store\<rparr>) = TickError) \<and>
    predict_tick rd erf now ((mp_detector mp)\<lparr>fd_store := store\<rparr>) \<noteq> Suspicion UpperBoundThresholdAlert"
proof -
  have "online" using assms(2) by (cases online) (auto simp: start_master_def NewFailureDetector_def NewSamplingWindow_def Let_def)
  with assms(2) have fd: "sw_size (fd_Window (mp_detector mp)) = 100" "sw_ttl (fd_Window (mp_detector mp)) = 10 * Millisecond"
    "fd_SuspicionLevel (mp_detector mp) = \<lparr>AccumulationThreshold = 3, UpperBoundThreshold = 8\<rparr>"
    by (auto simp: start_master_def NewFailureDetector_online master_config_of_def load_file_def Millisecond_def
        split: if_splits master_meta.splits prod.splits outcome.splits)
  have ms: "UnixMilli (10 * Millisecond) = 10" by (simp add: Millisecond_def)
  let ?young = "filter (\<lambda>x. fst x \<ge> UnixMilli now - 10) (mem store)"
  have get: "Get rd now (fd_Window (mp_detector mp)) store = decode_members rd (rev (map snd ?young))"
    using assms(1) by (simp add: Failure_Detector.Get_def fd ms redis_ok_def)
  have "Predict rd erf now ((mp_detector mp)\<lparr>fd_store := store\<rparr>) \<noteq> Inr (UpperBoundThresholdAlert, p)" for p
    by (cases p) (auto simp: Predict_def fd Interpret_def at_least_def Let_def split: if_splits sum.splits)
  moreover have "\<exists>e. Predict rd erf now ((mp_detector mp)\<lparr>fd_store := store\<rparr>) = Inl e" if "length ?young < 50"
    using that decode_members_length [of rd "rev (map snd ?young)"]
    by (cases "decode_members rd (rev (map snd ?young))") (auto simp: Predict_def get fd)
  ultimately show ?thesis by (auto simp: predict_tick_def split: sum.splits)
qed

theorem master_prediction_limits_witness:
  "\<exists>mp. start_master True ([] :: (int \<times> string) list) True True 0 NoneSaved (master_config_of sample_config) = StartOk mp \<and>
     predict_tick list_redis (\<lambda>_. 0) (90 * Millisecond) ((mp_detector mp)\<lparr>fd_store := [(5, ''a|b'')]\<rparr>) = TickError"
proof -
  obtain mp where mp: "start_master True ([] :: (int \<times> string) list) True True 0 NoneSaved (master_config_of sample_config) = StartOk mp"
    by (simp add: start_master_def NewFailureDetector_online load_file_def)
  from master_prediction_limits [OF list_redis_ok mp, of "90 * Millisecond" "[(5, ''a|b'')]"] show ?thesis
    using mp by auto
qed

section \<open>Starting and ending\<close>

lemma parseConfig_type:
  assumes "parseConfig Getenv fl cwd = Return cfg"
  shows "cf_ServerType cfg \<in> {''gateway_server'', ''chunk_server'', ''master_server''}" and "\<exists>l. setupLogger (cf_LogLevel cfg) = Return l"
  using assms by (auto simp: parseConfig_def setupLogger_def outcome_simps Let_def split: if_splits)


definition sample_machine :: "string \<Rightarrow> unit machine" where
  "sample_machine ty = \<lparr>mach_Getenv = (\<lambda>_. ''''), mach_flags = no_flags\<lparr>fl_ServerType := Some ty\<rparr>, mach_cwd = Some ''/app'',
     mach_hostname = Some ''h'', mach_ping = (\<lambda>_ _. None), mach_redis = False, mach_store = (), mach_listen = True,
     mach_writable = True, mach_disk = (\<lambda>_. None), mach_chunkMeta = NoMeta, mach_masterMeta = NoneSaved, mach_now = 0\<rparr>"


end
