(* ===== verification/Rpc_Structs.thy ===== *)
theory Rpc_Structs
  imports Chunk_Server Ns_List Failure_Detector
begin

text \<open>
  The arguments and replies of the remote calls, \<^verbatim>\<open>src/rpc_struct/structs.go\<close>, one record per
  struct, and the sums of them that travel over a connection.
\<close>

section \<open>Structs\<close>

text \<open>The memory statistics of a system report, \<^verbatim>\<open>src/common/types.go\<close>, in mebibytes.\<close>

record memory =
  mem_Alloc :: rat
  mem_TotalAlloc :: rat
  mem_Sys :: rat
  mem_NumGC :: rat

record heart_beat_args =
  hba_Address :: server_addr
  hba_MachineInfo :: machine_info
  hba_NetworkData :: network_data
  hba_PendingLeases :: "lease list"
  hba_ExtendLease :: bool

record heart_beat_reply =
  hbr_LastHeartBeat :: "time option"
  hbr_NetworkData :: network_data
  hbr_LeaseExtensions :: "lease list"
  hbr_Garbage :: "chunk_handle list"

record chunk_server_heart_beat_args =
  cha_NetworkData :: network_data

record chunk_server_heart_beat_reply =
  chr_NetworkData :: network_data

record sys_report_info_reply =
  sir_Chunks :: "chunk_report list"
  sir_SysMem :: memory

record check_chunk_version_args =
  cva_Handle :: chunk_handle
  cva_Version :: chunk_version

record check_chunk_version_reply =
  cvr_Stale :: bool

record read_chunk_args =
  rca_Lease :: "lease option"
  rca_Data :: "byte list"
  rca_Handle :: chunk_handle
  rca_Offset :: offset
  rca_Length :: int

record create_chunk_args =
  cca_Handle :: chunk_handle

record create_chunk_reply =
  ccr_ErrorCode :: error_code

record forward_data_args =
  fda_Data :: "byte list"
  fda_Replicas :: "server_addr list"
  fda_DownloadBufferId :: buffer_id

record forward_data_reply =
  fdr_ErrorCode :: error_code

record write_chunk_reply =
  wcr_Length :: int
  wcr_ErrorCode :: error_code

record apply_mutation_reply =
  amr_Length :: int
  amr_ErrorCode :: error_code

record append_chunk_args =
  aca_Replicas :: "server_addr list"
  aca_DownloadBufferId :: buffer_id

record append_chunk_reply =
  acr_Offset :: offset
  acr_ErrorCode :: error_code

record get_snapshot_args =
  gsa_Replicas :: server_addr
  gsa_Handle :: chunk_handle

record get_snapshot_reply =
  gsr_ErrorCode :: error_code

record apply_copy_args =
  apa_Data :: "byte list"
  apa_Handle :: chunk_handle
  apa_Version :: chunk_version

record apply_copy_reply =
  apr_ErrorCode :: error_code

record primary_and_secondary_servers_info_reply =
  psr_Expire :: time
  psr_Primary :: server_addr
  psr_SecondaryServers :: "server_addr list"

record primary_and_secondary_servers_info_arg =
  psa_Handle :: chunk_handle

record get_chunk_handle_reply =
  ghr_Handle :: chunk_handle

record get_chunk_handle_args =
  gha_Path :: path
  gha_Index :: int

record get_path_info_args =
  gpa_Path :: path
  gpa_Handle :: chunk_handle

record get_path_info_reply =
  gpr_Entries :: "path_info list"

record make_directory_args =
  mda_Path :: path

record make_directory_reply =
  mdr_ErrorCode :: error_code

record rename_file_args =
  rfa_Source :: path
  rfa_Target :: path

record rename_file_reply =
  rfr_ErrorCode :: error_code

record create_file_args =
  cfa_Path :: path

record create_file_reply =
  cfr_ErrorCode :: error_code

record delete_file_args =
  dfa_Path :: path
  dfa_DeleteHandle :: bool

record delete_file_reply =
  dfr_ErrorCode :: error_code

record remove_dir_args =
  rda_Path :: path

record remove_dir_reply =
  rdr_ErrorCode :: error_code

record get_file_info_args =
  gfa_Path :: path

record get_file_info_reply =
  gfr_IsDir :: bool
  gfr_Length :: int
  gfr_Chunks :: int

record retrieve_replicas_args =
  rra_Handle :: chunk_handle

record retrieve_replicas_reply =
  rrr_Locations :: "server_addr list"

record grant_lease_info_args =
  gla_Expire :: time
  gla_Primary :: server_addr
  gla_Secondaries :: "server_addr list"
  gla_Handle :: chunk_handle
  gla_InUse :: bool

record grant_lease_info_reply =
  glr_ErrorCode :: error_code

record update_file_metadata_args =
  ufa_Path :: path
  ufa_Length :: int
  ufa_Chunks :: int

record update_file_metadata_reply =
  ufr_ErrorCode :: error_code

section \<open>Messages\<close>

datatype rpc_args =
    HeartBeatArgs heart_beat_args
  | GetChunkHandleArgs get_chunk_handle_args
  | PrimaryAndSecondaryServersInfoArg primary_and_secondary_servers_info_arg
  | GetPathInfoArgs get_path_info_args
  | MakeDirectoryArgs make_directory_args
  | CreateFileArgs create_file_args
  | DeleteFileArgs delete_file_args
  | RemoveDirArgs remove_dir_args
  | RenameFileArgs rename_file_args
  | GetFileInfoArgs get_file_info_args
  | RetrieveReplicasArgs retrieve_replicas_args
  | UpdateFileMetadataArgs update_file_metadata_args
  | ReadChunkArgs read_chunk_args
  | ForwardDataArgs forward_data_args
  | WriteChunkArgs write_chunk_args
  | AppendChunkArgs append_chunk_args
  | SysReportInfoArgs
  | CheckChunkVersionArgs check_chunk_version_args
  | CreateChunkArgs create_chunk_args
  | ApplyMutationArgs apply_mutation_args
  | ApplyCopyArgs apply_copy_args
  | GetSnapshotArgs get_snapshot_args
  | GrantLeaseInfoArgs grant_lease_info_args
  | ChunkServerHeartBeatArgs chunk_server_heart_beat_args

datatype rpc_reply =
    HeartBeatReply heart_beat_reply
  | GetChunkHandleReply get_chunk_handle_reply
  | PrimaryAndSecondaryServersInfoReply primary_and_secondary_servers_info_reply
  | GetPathInfoReply get_path_info_reply
  | MakeDirectoryReply make_directory_reply
  | CreateFileReply create_file_reply
  | DeleteFileReply delete_file_reply
  | RemoveDirReply remove_dir_reply
  | RenameFileReply rename_file_reply
  | GetFileInfoReply get_file_info_reply
  | RetrieveReplicasReply retrieve_replicas_reply
  | UpdateFileMetadataReply update_file_metadata_reply
  | ReadChunkReply read_chunk_reply
  | ForwardDataReply forward_data_reply
  | WriteChunkReply write_chunk_reply
  | AppendChunkReply append_chunk_reply
  | SysReportInfoReply sys_report_info_reply
  | CheckChunkVersionReply check_chunk_version_reply
  | CreateChunkReply create_chunk_reply
  | ApplyMutationReply apply_mutation_reply
  | ApplyCopyReply apply_copy_reply
  | GetSnapshotReply get_snapshot_reply
  | GrantLeaseInfoReply grant_lease_info_reply
  | ChunkServerHeartBeatReply chunk_server_heart_beat_reply

text \<open>The name of the struct, which is what the decoder of the receiving side compares.\<close>

fun args_type :: "rpc_args \<Rightarrow> string" where
  "args_type (HeartBeatArgs _) = ''HeartBeatArgs''"
| "args_type (GetChunkHandleArgs _) = ''GetChunkHandleArgs''"
| "args_type (PrimaryAndSecondaryServersInfoArg _) = ''PrimaryAndSecondaryServersInfoArg''"
| "args_type (GetPathInfoArgs _) = ''GetPathInfoArgs''"
| "args_type (MakeDirectoryArgs _) = ''MakeDirectoryArgs''"
| "args_type (CreateFileArgs _) = ''CreateFileArgs''"
| "args_type (DeleteFileArgs _) = ''DeleteFileArgs''"
| "args_type (RemoveDirArgs _) = ''RemoveDirArgs''"
| "args_type (RenameFileArgs _) = ''RenameFileArgs''"
| "args_type (GetFileInfoArgs _) = ''GetFileInfoArgs''"
| "args_type (RetrieveReplicasArgs _) = ''RetrieveReplicasArgs''"
| "args_type (UpdateFileMetadataArgs _) = ''UpdateFileMetadataArgs''"
| "args_type (ReadChunkArgs _) = ''ReadChunkArgs''"
| "args_type (ForwardDataArgs _) = ''ForwardDataArgs''"
| "args_type (WriteChunkArgs _) = ''WriteChunkArgs''"
| "args_type (AppendChunkArgs _) = ''AppendChunkArgs''"
| "args_type SysReportInfoArgs = ''SysReportInfoArgs''"
| "args_type (CheckChunkVersionArgs _) = ''CheckChunkVersionArgs''"
| "args_type (CreateChunkArgs _) = ''CreateChunkArgs''"
| "args_type (ApplyMutationArgs _) = ''ApplyMutationArgs''"
| "args_type (ApplyCopyArgs _) = ''ApplyCopyArgs''"
| "args_type (GetSnapshotArgs _) = ''GetSnapshotArgs''"
| "args_type (GrantLeaseInfoArgs _) = ''GrantLeaseInfoArgs''"
| "args_type (ChunkServerHeartBeatArgs _) = ''ChunkServerHeartBeatArgs''"

fun reply_type :: "rpc_reply \<Rightarrow> string" where
  "reply_type (HeartBeatReply _) = ''HeartBeatReply''"
| "reply_type (GetChunkHandleReply _) = ''GetChunkHandleReply''"
| "reply_type (PrimaryAndSecondaryServersInfoReply _) = ''PrimaryAndSecondaryServersInfoReply''"
| "reply_type (GetPathInfoReply _) = ''GetPathInfoReply''"
| "reply_type (MakeDirectoryReply _) = ''MakeDirectoryReply''"
| "reply_type (CreateFileReply _) = ''CreateFileReply''"
| "reply_type (DeleteFileReply _) = ''DeleteFileReply''"
| "reply_type (RemoveDirReply _) = ''RemoveDirReply''"
| "reply_type (RenameFileReply _) = ''RenameFileReply''"
| "reply_type (GetFileInfoReply _) = ''GetFileInfoReply''"
| "reply_type (RetrieveReplicasReply _) = ''RetrieveReplicasReply''"
| "reply_type (UpdateFileMetadataReply _) = ''UpdateFileMetadataReply''"
| "reply_type (ReadChunkReply _) = ''ReadChunkReply''"
| "reply_type (ForwardDataReply _) = ''ForwardDataReply''"
| "reply_type (WriteChunkReply _) = ''WriteChunkReply''"
| "reply_type (AppendChunkReply _) = ''AppendChunkReply''"
| "reply_type (SysReportInfoReply _) = ''SysReportInfoReply''"
| "reply_type (CheckChunkVersionReply _) = ''CheckChunkVersionReply''"
| "reply_type (CreateChunkReply _) = ''CreateChunkReply''"
| "reply_type (ApplyMutationReply _) = ''ApplyMutationReply''"
| "reply_type (ApplyCopyReply _) = ''ApplyCopyReply''"
| "reply_type (GetSnapshotReply _) = ''GetSnapshotReply''"
| "reply_type (GrantLeaseInfoReply _) = ''GrantLeaseInfoReply''"
| "reply_type (ChunkServerHeartBeatReply _) = ''ChunkServerHeartBeatReply''"

end
