(* ===== verification/Rpc_Dispatch.thy ===== *)
theory Rpc_Dispatch
  imports Rpc_Structs Master_Server
begin

text \<open>
  How a remote call reaches its handler: the two services that \<^verbatim>\<open>NewMasterServer\<close> and
  \<^verbatim>\<open>NewChunkServer\<close> register with \<^verbatim>\<open>net/rpc\<close>, the handler names of
  \<^verbatim>\<open>src/rpc_struct/handlers.go\<close>, and for each method how its argument struct is taken apart and its reply
  struct filled. A call of an unknown method and arguments of another type are refused by the
  library before any handler runs, the reply struct is fresh for every call, and the reply of a handler
  that returns an error is not sent.
\<close>

section \<open>Methods\<close>

text \<open>The methods that each service registers, with the types of their arguments and replies.\<close>

definition master_methods :: "(string \<times> string \<times> string) list" where
  "master_methods = [
     (''MasterServer.RPCGetChunkHandleHandler'', ''GetChunkHandleArgs'', ''GetChunkHandleReply''),
     (''MasterServer.RPCGetPrimaryAndSecondaryServersInfoHandler'', ''PrimaryAndSecondaryServersInfoArg'', ''PrimaryAndSecondaryServersInfoReply''),
     (''MasterServer.RPCListHandler'', ''GetPathInfoArgs'', ''GetPathInfoReply''),
     (''MasterServer.RPCMkdirHandler'', ''MakeDirectoryArgs'', ''MakeDirectoryReply''),
     (''MasterServer.RPCCreateFileHandler'', ''CreateFileArgs'', ''CreateFileReply''),
     (''MasterServer.RPCDeleteFileHandler'', ''DeleteFileArgs'', ''DeleteFileReply''),
     (''MasterServer.RPCRemoveDirHandler'', ''RemoveDirArgs'', ''RemoveDirReply''),
     (''MasterServer.RPCRenameHandler'', ''RenameFileArgs'', ''RenameFileReply''),
     (''MasterServer.RPCGetFileInfoHandler'', ''GetFileInfoArgs'', ''GetFileInfoReply''),
     (''MasterServer.RPCGetReplicasHandler'', ''RetrieveReplicasArgs'', ''RetrieveReplicasReply''),
     (''MasterServer.RPCHeartBeatHandler'', ''HeartBeatArgs'', ''HeartBeatReply''),
     (''MasterServer.RPCUpdateFileMetadataHandler'', ''UpdateFileMetadataArgs'', ''UpdateFileMetadataReply'')]"

definition chunk_methods :: "(string \<times> string \<times> string) list" where
  "chunk_methods = [
     (''ChunkServer.RPCReadChunkHandler'', ''ReadChunkArgs'', ''ReadChunkReply''),
     (''ChunkServer.RPCForwardDataHandler'', ''ForwardDataArgs'', ''ForwardDataReply''),
     (''ChunkServer.RPCWriteChunkHandler'', ''WriteChunkArgs'', ''WriteChunkReply''),
     (''ChunkServer.RPCAppendChunkHandler'', ''AppendChunkArgs'', ''AppendChunkReply''),
     (''ChunkServer.RPCSysReportHandler'', ''SysReportInfoArgs'', ''SysReportInfoReply''),
     (''ChunkServer.RPCCheckChunkVersionHandler'', ''CheckChunkVersionArgs'', ''CheckChunkVersionReply''),
     (''ChunkServer.RPCCreateChunkHandler'', ''CreateChunkArgs'', ''CreateChunkReply''),
     (''ChunkServer.RPCApplyMutationHandler'', ''ApplyMutationArgs'', ''ApplyMutationReply''),
     (''ChunkServer.RPCApplyCopyHandler'', ''ApplyCopyArgs'', ''ApplyCopyReply''),
     (''ChunkServer.RPCGetSnapshotHandler'', ''GetSnapshotArgs'', ''GetSnapshotReply''),
     (''ChunkServer.RPCGrantLeaseHandler'', ''GrantLeaseInfoArgs'', ''GrantLeaseInfoReply''),
     (''ChunkServer.RPCHeartBeatHandler'', ''ChunkServerHeartBeatArgs'', ''ChunkServerHeartBeatReply'')]"

definition master_handler_names :: "string list" where
  "master_handler_names = [
     ''MasterServer.RPCGetChunkHandleHandler'',
     ''MasterServer.RPCGetPrimaryAndSecondaryServersInfoHandler'',
     ''MasterServer.RPCListHandler'',
     ''MasterServer.RPCMkdirHandler'',
     ''MasterServer.RPCCreateFileHandler'',
     ''MasterServer.RPCDeleteFileHandler'',
     ''MasterServer.RPCRemoveDirHandler'',
     ''MasterServer.RPCRenameHandler'',
     ''MasterServer.RPCGetFileInfoHandler'',
     ''MasterServer.RPCGetReplicasHandler'',
     ''MasterServer.RPCHeartBeatHandler'',
     ''MasterServer.RPCUpdateFileMetadataHandler'']"

definition chunk_handler_names :: "string list" where
  "chunk_handler_names = [
     ''ChunkServer.RPCReadChunkHandler'',
     ''ChunkServer.RPCForwardDataHandler'',
     ''ChunkServer.RPCWriteChunkHandler'',
     ''ChunkServer.RPCAppendChunkHandler'',
     ''ChunkServer.RPCSysReportHandler'',
     ''ChunkServer.RPCCheckChunkVersionHandler'',
     ''ChunkServer.RPCCreateChunkHandler'',
     ''ChunkServer.RPCApplyMutationHandler'',
     ''ChunkServer.RPCApplyCopyHandler'',
     ''ChunkServer.RPCGetSnapshotHandler'',
     ''ChunkServer.RPCGrantLeaseHandler'',
     ''ChunkServer.RPCHeartBeatHandler'']"

section \<open>The master\<close>

text \<open>What the surroundings give to one call of the master: clocks, randomness and the answers to its own calls.\<close>

record master_env =
  me_now :: time
  me_later :: time
  me_received :: time
  me_sent :: time
  me_perm :: "nat list"
  me_create :: "server_addr \<Rightarrow> go_error option"
  me_probes :: "(server_addr \<times> bool) list"
  me_report :: "persisted_chunk_info list outcome"
  me_check :: "persisted_chunk_info \<Rightarrow> bool option"

text \<open>The time stamps of a heartbeat: the network data of the request with the arrival and, deferred, the departure.\<close>

definition stamp :: "time \<Rightarrow> time \<Rightarrow> network_data \<Rightarrow> network_data" where
  "stamp received sent nd = nd\<lparr>ForwardTrip := (ForwardTrip nd)\<lparr>ReceivedAt := Some received\<rparr>,
     BackwardTrip := (BackwardTrip nd)\<lparr>SentAt := Some sent\<rparr>\<rparr>"

definition answer :: "('a \<Rightarrow> rpc_reply) \<Rightarrow> 'a outcome \<times> 's \<Rightarrow> rpc_reply outcome \<times> 's" where
  "answer f res = bind_st res (\<lambda>x s. (Return (f x), s))"

text \<open>
  A heartbeat: the reply starts out empty, and it is the leases of the reply that the handler goes
  through, not those of the request.
\<close>

definition serve_HeartBeat :: "master_env \<Rightarrow> heart_beat_args \<Rightarrow> master_server \<Rightarrow> heart_beat_reply ms_result" where
  "serve_HeartBeat me a ma =
     bind_st (RPCHeartBeatHandler (me_now me) (hba_Address a) (hba_MachineInfo a) (hba_ExtendLease a) [] (me_report me) (me_check me) ma)
       (\<lambda>(garb, ext) ma'. (Return \<lparr>hbr_LastHeartBeat =
           (if map_of (servers (chunkServerManager ma)) (hba_Address a) = None then None else Some (me_now me)),
         hbr_NetworkData = stamp (me_received me) (me_sent me) (hba_NetworkData a), hbr_LeaseExtensions = ext, hbr_Garbage = garb\<rparr>, ma'))"

fun serve_master :: "master_env \<Rightarrow> rpc_args \<Rightarrow> master_server \<Rightarrow> rpc_reply ms_result" where
  "serve_master me (HeartBeatArgs a) ma = answer HeartBeatReply (serve_HeartBeat me a ma)"
| "serve_master me (GetChunkHandleArgs a) ma =
     answer (\<lambda>h. GetChunkHandleReply \<lparr>ghr_Handle = h\<rparr>)
       (RPCGetChunkHandleHandler (me_now me) (me_perm me) (me_create me) (gha_Path a) (gha_Index a) ma)"
| "serve_master me (PrimaryAndSecondaryServersInfoArg a) ma =
     answer (\<lambda>l. PrimaryAndSecondaryServersInfoReply \<lparr>psr_Expire = l_Expire l, psr_Primary = l_Primary l, psr_SecondaryServers = l_Secondaries l\<rparr>)
       (RPCGetPrimaryAndSecondaryServersInfoHandler (me_now me) (me_later me) (me_probes me) (psa_Handle a) ma)"
| "serve_master me (GetPathInfoArgs a) ma = answer (\<lambda>es. GetPathInfoReply \<lparr>gpr_Entries = es\<rparr>) (RPCListHandler (gpa_Path a) ma)"
| "serve_master me (MakeDirectoryArgs a) ma = answer (\<lambda>_. MakeDirectoryReply \<lparr>mdr_ErrorCode = Success\<rparr>) (RPCMkdirHandler (mda_Path a) ma)"
| "serve_master me (CreateFileArgs a) ma = answer (\<lambda>_. CreateFileReply \<lparr>cfr_ErrorCode = Success\<rparr>) (RPCCreateFileHandler (cfa_Path a) ma)"
| "serve_master me (DeleteFileArgs a) ma =
     answer (\<lambda>_. DeleteFileReply \<lparr>dfr_ErrorCode = Success\<rparr>) (RPCDeleteFileHandler (dfa_Path a) (dfa_DeleteHandle a) ma)"
| "serve_master me (RemoveDirArgs a) ma = answer (\<lambda>_. RemoveDirReply \<lparr>rdr_ErrorCode = Success\<rparr>) (RPCRemoveDirHandler (rda_Path a) ma)"
| "serve_master me (RenameFileArgs a) ma =
     answer (\<lambda>_. RenameFileReply \<lparr>rfr_ErrorCode = Success\<rparr>) (RPCRenameHandler (rfa_Source a) (rfa_Target a) ma)"
| "serve_master me (GetFileInfoArgs a) ma =
     answer (\<lambda>(n, d, l). GetFileInfoReply \<lparr>gfr_IsDir = d, gfr_Length = l, gfr_Chunks = n\<rparr>) (RPCGetFileInfoHandler (gfa_Path a) ma)"
| "serve_master me (RetrieveReplicasArgs a) ma =
     answer (\<lambda>ls. RetrieveReplicasReply \<lparr>rrr_Locations = ls\<rparr>) (RPCGetReplicasHandler (rra_Handle a) ma)"
| "serve_master me (UpdateFileMetadataArgs a) ma =
     answer (\<lambda>_. UpdateFileMetadataReply \<lparr>ufr_ErrorCode = Success\<rparr>)
       (RPCUpdateFileMetadataHandler (ufa_Path a) (ufa_Length a) (ufa_Chunks a) ma)"
| "serve_master me _ ma = (Panic, ma)"

section \<open>The chunk server\<close>

text \<open>
  The memory statistics of a report are read from the run time and converted with \<^verbatim>\<open>BToMb\<close>; \<open>mst\<close> gives the
  allocated, the totally allocated and the obtained bytes and the number of collections.
\<close>

definition memory_of :: "int \<times> int \<times> int \<times> int \<Rightarrow> memory" where
  "memory_of mst = (case mst of (alloc, talloc, sys, gcs) \<Rightarrow>
     \<lparr>mem_Alloc = BToMb alloc, mem_TotalAlloc = BToMb talloc, mem_Sys = BToMb sys, mem_NumGC = BToMb gcs\<rparr>)"

definition chunk_RPCHeartBeatHandler :: "time \<Rightarrow> time \<Rightarrow> network_data \<Rightarrow> network_data" where
  "chunk_RPCHeartBeatHandler received sent nd = stamp received sent nd"

fun serve_chunk :: "cs_env \<Rightarrow> int \<times> int \<times> int \<times> int \<Rightarrow> server_addr \<Rightarrow> rpc_args \<Rightarrow> cluster \<Rightarrow> rpc_reply outcome \<times> cluster" where
  "serve_chunk env mst self (ReadChunkArgs a) cl =
     answer ReadChunkReply (at_server self (RPCReadChunkHandler (ev_now env) (rca_Handle a) (rca_Offset a) (rca_Length a)) cl)"
| "serve_chunk env mst self (ForwardDataArgs a) cl =
     answer (\<lambda>_. ForwardDataReply \<lparr>fdr_ErrorCode = Success\<rparr>)
       (RPCForwardDataHandler env self (fda_DownloadBufferId a) (fda_Data a) (fda_Replicas a) cl)"
| "serve_chunk env mst self (WriteChunkArgs a) cl =
     answer (\<lambda>(n, c). WriteChunkReply \<lparr>wcr_Length = n, wcr_ErrorCode = c\<rparr>) (RPCWriteChunkHandler env self a cl)"
| "serve_chunk env mst self (AppendChunkArgs a) cl =
     answer (\<lambda>(off, c). AppendChunkReply \<lparr>acr_Offset = off, acr_ErrorCode = c\<rparr>)
       (RPCAppendChunkHandler env self (aca_Replicas a) (aca_DownloadBufferId a) cl)"
| "serve_chunk env mst self SysReportInfoArgs cl =
     answer (\<lambda>cs. SysReportInfoReply \<lparr>sir_Chunks = cs, sir_SysMem = memory_of mst\<rparr>) (at_server self (RPCSysReportHandler (ev_sha env)) cl)"
| "serve_chunk env mst self (CheckChunkVersionArgs a) cl =
     answer (\<lambda>stale. CheckChunkVersionReply \<lparr>cvr_Stale = stale\<rparr>)
       (at_server self (RPCCheckChunkVersionHandler (ev_now env) (cva_Handle a) (cva_Version a)) cl)"
| "serve_chunk env mst self (CreateChunkArgs a) cl =
     answer (\<lambda>_. CreateChunkReply \<lparr>ccr_ErrorCode = Success\<rparr>) (at_server self (RPCCreateChunkHandler (ev_now env) (cca_Handle a)) cl)"
| "serve_chunk env mst self (ApplyMutationArgs a) cl =
     answer (\<lambda>n. ApplyMutationReply \<lparr>amr_Length = n, amr_ErrorCode = Success\<rparr>)
       (at_server self (RPCApplyMutationHandler (ev_gz env) (ev_earlier env) (ev_now env) a) cl)"
| "serve_chunk env mst self (ApplyCopyArgs a) cl =
     answer (\<lambda>_. ApplyCopyReply \<lparr>apr_ErrorCode = Success\<rparr>)
       (at_server self (RPCApplyCopyHandler (ev_gz env) (ev_earlier env) (ev_now env) (apa_Handle a) (apa_Data a) (apa_Version a)) cl)"
| "serve_chunk env mst self (GetSnapshotArgs a) cl =
     answer (\<lambda>_. GetSnapshotReply \<lparr>gsr_ErrorCode = Success\<rparr>) (RPCGetSnapshotHandler env self (gsa_Handle a) (gsa_Replicas a) cl)"
| "serve_chunk env mst self (GrantLeaseInfoArgs a) cl =
     answer (\<lambda>_. GrantLeaseInfoReply \<lparr>glr_ErrorCode = Success\<rparr>)
       (at_server self (RPCGrantLeaseHandler (gla_Expire a) (gla_Primary a) (gla_Secondaries a) (gla_Handle a)) cl)"
| "serve_chunk env mst self (ChunkServerHeartBeatArgs a) cl =
     answer (\<lambda>_. ChunkServerHeartBeatReply \<lparr>chr_NetworkData = chunk_RPCHeartBeatHandler (ev_now env) (ev_end env) (cha_NetworkData a)\<rparr>)
       (at_server self (\<lambda>cs. (Return (), cs)) cl)"
| "serve_chunk env mst self _ cl = (Panic, cl)"

section \<open>Dispatch\<close>

definition dispatch :: "(string \<times> string \<times> string) list \<Rightarrow> (rpc_args \<Rightarrow> 's \<Rightarrow> rpc_reply outcome \<times> 's) \<Rightarrow> string \<Rightarrow> rpc_args \<Rightarrow> 's \<Rightarrow>
    rpc_reply outcome \<times> 's" where
  "dispatch methods serve m a s = (case map_of methods m of
     None \<Rightarrow> (Fail (RpcError m ''no such method''), s)
   | Some (aty, _) \<Rightarrow> if args_type a \<noteq> aty then (Fail (RpcError m ''wrong type''), s) else serve a s)"

definition call_master :: "master_env \<Rightarrow> string \<Rightarrow> rpc_args \<Rightarrow> master_server \<Rightarrow> rpc_reply ms_result" where
  "call_master me = dispatch master_methods (serve_master me)"

definition call_chunk :: "cs_env \<Rightarrow> int \<times> int \<times> int \<times> int \<Rightarrow> server_addr \<Rightarrow> string \<Rightarrow> rpc_args \<Rightarrow> cluster \<Rightarrow> rpc_reply outcome \<times> cluster" where
  "call_chunk env mst self = dispatch chunk_methods (serve_chunk env mst self)"

section \<open>Calls are well typed\<close>

text \<open>What a service promises: a method that is given its argument type replies with its reply type.\<close>

locale rpc_service =
  fixes methods :: "(string \<times> string \<times> string) list"
    and serve :: "rpc_args \<Rightarrow> 's \<Rightarrow> rpc_reply outcome \<times> 's"
  assumes serve_typed: "map_of methods m = Some (args_type a, rty) \<Longrightarrow> serve a s = (Return r, s') \<Longrightarrow> reply_type r = rty"
begin

lemma dispatch_typed:
  assumes "dispatch methods serve m a s = (Return r, s')"
  shows "map_of methods m = Some (args_type a, reply_type r)"
proof -
  obtain aty rty where m: "map_of methods m = Some (aty, rty)"
    using assms by (cases "map_of methods m") (auto simp: dispatch_def)
  with assms have "args_type a = aty" "serve a s = (Return r, s')" by (auto simp: dispatch_def split: if_splits)
  with m serve_typed [of m a rty s r s'] show ?thesis by simp
qed

lemma dispatch_refuses:
  assumes "\<nexists>rty. map_of methods m = Some (args_type a, rty)"
  shows "\<exists>e. dispatch methods serve m a s = (Fail e, s)"
  using assms by (auto simp: dispatch_def split: option.splits)

lemma dispatch_serves: "map_of methods m = Some (args_type a, rty) \<Longrightarrow> dispatch methods serve m a s = serve a s"
  by (simp add: dispatch_def)

end

lemma answer_Return: "answer f res = (Return r, s) \<longleftrightarrow> (\<exists>x. res = (Return x, s) \<and> r = f x)"
  by (cases res; cases "fst res") (auto simp: answer_def)

text \<open>The reply type of each argument type.\<close>

definition reply_for :: "(string \<times> string \<times> string) list \<Rightarrow> string \<Rightarrow> string option" where
  "reply_for methods aty = map_of (map snd methods) aty"

lemma reply_for_method:
  assumes "distinct (map (fst \<circ> snd) methods)" and "map_of methods m = Some (aty, rty)"
  shows "reply_for methods aty = Some rty"
proof -
  have "(aty, rty) \<in> set (map snd methods)" using map_of_SomeD [OF assms(2)] by force
  with assms(1) show ?thesis by (auto simp: reply_for_def intro!: map_of_is_SomeI)
qed

lemma methods_distinct: "distinct (map (fst \<circ> snd) master_methods)" "distinct (map (fst \<circ> snd) chunk_methods)"
  by code_simp+

lemma serve_master_typed:
  assumes "serve_master me a ma = (Return r, ma')"
  shows "reply_for master_methods (args_type a) = Some (reply_type r)"
  using assms by (cases a) (auto simp: answer_Return reply_for_def master_methods_def split: prod.splits)

lemma serve_chunk_typed:
  assumes "serve_chunk env mst self a cl = (Return r, cl')"
  shows "reply_for chunk_methods (args_type a) = Some (reply_type r)"
  using assms by (cases a) (auto simp: answer_Return reply_for_def chunk_methods_def split: prod.splits)

interpretation ms: rpc_service master_methods "serve_master me" for me
  by unfold_locales (metis reply_for_method [OF methods_distinct(1)] serve_master_typed option.inject)

interpretation css: rpc_service chunk_methods "serve_chunk env mst self" for env mst self
  by unfold_locales (metis reply_for_method [OF methods_distinct(2)] serve_chunk_typed option.inject)


definition sample_env :: master_env where
  "sample_env = \<lparr>me_now = 1, me_later = 2, me_received = 1, me_sent = 2, me_perm = [], me_create = (\<lambda>_. None), me_probes = [],
     me_report = Return [], me_check = (\<lambda>_. None)\<rparr>"


section \<open>Heartbeats\<close>

lemma push_garbage_leases: "push_garbage hs cs = (res, cs') \<Longrightarrow> leases cs' = leases cs"
  by (induction hs arbitrary: cs) (auto split: outcome.splits)

text \<open>
  C24. A heartbeat that reaches the master never extends a lease: whatever leases the chunk server
  holds, names in the request, or asks to have extended, the reply lists no extension, so
  the chunk server keeps its lease queue as it was.
\<close>

theorem heartbeat_extends_no_lease:
  assumes "call_master me ''MasterServer.RPCHeartBeatHandler'' (HeartBeatArgs a) ma = (Return (HeartBeatReply r), ma')"
  shows "hbr_LeaseExtensions r = [] \<and>
    (heartBeat tracked (Return (hbr_LeaseExtensions r, hbr_Garbage r)) cs = (res, cs') \<longrightarrow> leases cs' = leases cs)"
proof -
  have m: "map_of master_methods ''MasterServer.RPCHeartBeatHandler'' = Some (args_type (HeartBeatArgs a), ''HeartBeatReply'')"
    by (simp add: master_methods_def)
  have "serve_master me (HeartBeatArgs a) ma = (Return (HeartBeatReply r), ma')"
    using assms unfolding call_master_def ms.dispatch_serves [OF m] .
  then have "hbr_LeaseExtensions r = []"
    by (auto simp: answer_Return serve_HeartBeat_def RPCHeartBeatHandler_def Let_def bind_st_def split: prod.splits if_splits outcome.splits)
  moreover have "leases cs' = leases cs" if "push_garbage hs cs = (res, cs')" for hs
    using that by (rule push_garbage_leases)
  ultimately show ?thesis by (auto simp: heartBeat_def split: if_splits)
qed

definition sample_heartbeat :: heart_beat_args where
  "sample_heartbeat = \<lparr>hba_Address = ''s1'', hba_MachineInfo = \<lparr>Hostname = ''h'', RoundTripProximityTime = 0\<rparr>,
     hba_NetworkData = \<lparr>ForwardTrip = \<lparr>SentAt = Some 0, ReceivedAt = None\<rparr>, BackwardTrip = \<lparr>SentAt = None, ReceivedAt = None\<rparr>, RoundTrip = 0\<rparr>,
     hba_PendingLeases = [\<lparr>l_Expire = 5, l_Primary = ''s1'', l_Secondaries = [], l_Handle = 0, l_InUse = True\<rparr>], hba_ExtendLease = True\<rparr>"

theorem heartbeat_extends_no_lease_witness:
  "\<exists>r ma. call_master sample_env ''MasterServer.RPCHeartBeatHandler'' (HeartBeatArgs sample_heartbeat) NewMasterServer =
     (Return (HeartBeatReply r), ma) \<and> hbr_LeaseExtensions r = []"
proof -
  have "map_of master_methods ''MasterServer.RPCHeartBeatHandler'' = Some (args_type (HeartBeatArgs sample_heartbeat), ''HeartBeatReply'')"
    by (simp add: master_methods_def)
  from ms.dispatch_serves [OF this]
  have "\<exists>r ma. call_master sample_env ''MasterServer.RPCHeartBeatHandler'' (HeartBeatArgs sample_heartbeat) NewMasterServer =
      (Return (HeartBeatReply r), ma)"
    by (simp add: call_master_def answer_def serve_HeartBeat_def RPCHeartBeatHandler_def HeartBeat_def NewMasterServer_def
        NewChunkServerManager_def Let_def)
  then obtain r ma where r: "call_master sample_env ''MasterServer.RPCHeartBeatHandler'' (HeartBeatArgs sample_heartbeat) NewMasterServer =
      (Return (HeartBeatReply r), ma)" by blast
  with heartbeat_extends_no_lease [OF r] show ?thesis by blast
qed

end
