(* ===== verification/Client_Appends.thy ===== *)
theory Client_Appends
  imports Client_Reads
begin

text \<open>
  Appending through the client library, followed from the client over the primary and its replicas to
  the master's record of the file, and read back again.
\<close>

section \<open>Appending on the servers\<close>

text \<open>A server before and after data has been appended to one of its chunks; everything that reads see of the others stays.\<close>

definition grown :: "chunk_handle \<Rightarrow> byte list \<Rightarrow> chunk_server \<Rightarrow> chunk_server \<Rightarrow> bool" where
  "grown h ws cs cs' \<longleftrightarrow> cs_inv cs' \<and>
     (\<forall>h'. bytes cs' h' = (if h' = h then map_option (\<lambda>bs. bs @ ws) (bytes cs h) else bytes cs h')) \<and>
     (\<forall>h'. map_option ci_abandoned (info cs' h') = map_option ci_abandoned (info cs h'))"

definition grown_on :: "chunk_handle \<Rightarrow> byte list \<Rightarrow> server_addr set \<Rightarrow> cluster \<Rightarrow> cluster \<Rightarrow> bool" where
  "grown_on h ws R cl cl' \<longleftrightarrow> (\<forall>r. r \<notin> R \<longrightarrow> cl' r = cl r) \<and>
     (\<forall>r\<in>R. \<exists>cs cs'. cl r = Some cs \<and> cl' r = Some cs' \<and> grown h ws cs cs')"

definition ready_on :: "chunk_handle \<Rightarrow> byte list \<Rightarrow> buffer_id \<Rightarrow> byte list \<Rightarrow> server_addr set \<Rightarrow> cluster \<Rightarrow> bool" where
  "ready_on h bs b ws R cl \<longleftrightarrow> (\<forall>r\<in>R. \<exists>cs. cl r = Some cs \<and> cs_inv cs \<and> ready h bs b ws cs)"

lemma grownI:
  assumes "cs_inv cs'" and "ready h bs b ws cs" and "ready h (bs @ ws) b ws cs'"
    and "\<And>h'. h' \<noteq> h \<Longrightarrow> bytes cs' h' = bytes cs h'"
    and "\<And>h'. map_option ci_abandoned (info cs' h') = map_option ci_abandoned (info cs h')"
  shows "grown h ws cs cs'"
  using assms by (auto simp: grown_def ready_def)

lemma grown_on_insert:
  assumes "cl r = Some cs" and "grown h ws cs cs'" and "r \<notin> R" and "grown_on h ws R (cl(r \<mapsto> cs')) cl'"
  shows "grown_on h ws (insert r R) cl cl'"
  unfolding grown_on_def
proof (intro conjI allI impI ballI)
  fix x assume "x \<notin> insert r R"
  then show "cl' x = cl x" using assms(4) by (simp add: grown_on_def)
next
  fix x assume x: "x \<in> insert r R"
  show "\<exists>cs cs'. cl x = Some cs \<and> cl' x = Some cs' \<and> grown h ws cs cs'"
  proof (cases "x = r")
    case True
    then show ?thesis using assms by (simp add: grown_on_def)
  next
    case False
    then have "x \<in> R" using x by simp
    then have "\<exists>cs cs''. (cl(r \<mapsto> cs')) x = Some cs \<and> cl' x = Some cs'' \<and> grown h ws cs cs''" using assms(4) unfolding grown_on_def by blast
    then show ?thesis using False by simp
  qed
qed

lemma forward_append_delivers:
  assumes "0 \<le> off" and "off + int (length ws) \<le> ChunkMaxSizeInByte" and net: "\<And>r. \<exists>fates. ev_net env r = Delivered # fates"
    and "ready_on h bs b ws (set rs) cl" and "distinct rs"
  shows "\<exists>cl'. forward_mutation env False \<lparr>am_MutationType = MutationAppend, am_BufferId = b, am_Offset = off\<rparr> rs cl = ([], cl') \<and>
    grown_on h ws (set rs) cl cl'"
  using assms(4,5)
proof (induction rs arbitrary: cl)
  case Nil
  then show ?case by (simp add: grown_on_def)
next
  case (Cons r rs)
  let ?apply = "at_server r (RPCApplyMutationHandler (ev_gz env) (ev_earlier env) (ev_now env)
     \<lparr>am_MutationType = MutationAppend, am_BufferId = b, am_Offset = off\<rparr>)"
  obtain cs where cs: "cl r = Some cs" "cs_inv cs" "ready h bs b ws cs" using Cons.prems(1) by (auto simp: ready_on_def)
  obtain cs' where a: "?apply cl = (Return (off + int (length ws)), cl(r \<mapsto> cs'))" "ready h (bs @ ws) b ws cs'"
    "\<And>h'. h' \<noteq> h \<Longrightarrow> bytes cs' h' = bytes cs h'" "\<And>h'. map_option ci_abandoned (info cs' h') = map_option ci_abandoned (info cs h')"
    by (rule apply_append_at [where cl = cl and r = r and gz = "ev_gz env" and earlier = "ev_earlier env" and now = "ev_now env", OF cs(1,3) assms(1,2)]) blast
  have "cs_inv cs'"
    using a(1) cs(1) ApplyMutation_inv [OF cs(2), of "ev_gz env" "ev_earlier env" "ev_now env"]
    by (auto simp: at_server_def split: prod.splits dest!: fun_cong [where x = r]) (metis snd_conv)
  then have g: "grown h ws cs cs'" by (rule grownI [OF _ cs(3) a(2-4)])
  obtain fates where "ev_net env r = Delivered # fates" using net by blast
  then have c: "call env r ?apply cl = (Return (off + int (length ws)), cl(r \<mapsto> cs'))" by (rule call_delivered) (rule a(1))
  have "ready_on h bs b ws (set rs) (cl(r \<mapsto> cs'))" "distinct rs" using Cons.prems by (auto simp: ready_on_def)
  from Cons.IH [OF this] obtain cl' where f: "forward_mutation env False \<lparr>am_MutationType = MutationAppend, am_BufferId = b, am_Offset = off\<rparr> rs
      (cl(r \<mapsto> cs')) = ([], cl')" "grown_on h ws (set rs) (cl(r \<mapsto> cs')) cl'" by blast
  have "grown_on h ws (set (r # rs)) cl cl'" using grown_on_insert [OF cs(1) g _ f(2)] Cons.prems(2) by simp
  with f(1) c show ?case by (simp del: fun_upd_apply)
qed

lemma RPCAppendChunk_delivers:
  assumes ready: "ready_on h bs b ws (set (p # secs)) cl" and dist: "distinct (p # secs)"
    and p: "cl p = Some cs" "info cs h = Some c" and fits: "ci_length c + int (length ws) \<le> ChunkMaxSizeInByte"
    and net: "\<And>r. \<exists>fates. ev_net env r = Delivered # fates"
  shows "\<exists>cl'. RPCAppendChunkHandler env p secs b cl = (Return (ci_length c, Success), cl') \<and> grown_on h ws (set (p # secs)) cl cl'"
proof -
  have cs: "cs_inv cs" "ready h bs b ws cs" using ready p(1) by (auto simp: ready_on_def)
  have len: "0 \<le> ci_length c" using cs_inv_lengths [OF cs(1) p(2)] by blast
  obtain cs' where a: "append_local env b cs = (Return (ci_length c, Success), cs')" "ready h (bs @ ws) b ws cs'"
    "info cs' = (info cs)(h \<mapsto> written_info (ev_now env) (ci_length c + int (length ws)) c)" "\<And>h'. h' \<noteq> h \<Longrightarrow> bytes cs' h' = bytes cs h'"
    by (rule append_local_fits [where env = env, OF cs(2) p(2) len fits]) blast
  have "cs_inv cs'" using append_local_inv [OF cs(1), of env b] a(1) by simp
  then have g: "grown h ws cs cs'" by (rule grownI [OF _ cs(2) a(2,4)]) (simp_all add: a(3) p(2) written_info_def)
  have "ready_on h bs b ws (set secs) (cl(p \<mapsto> cs'))" using ready dist by (auto simp: ready_on_def)
  from forward_append_delivers [OF len fits net this] dist obtain cl' where
    f: "forward_mutation env False \<lparr>am_MutationType = MutationAppend, am_BufferId = b, am_Offset = ci_length c\<rparr> secs (cl(p \<mapsto> cs')) = ([], cl')"
      "grown_on h ws (set secs) (cl(p \<mapsto> cs')) cl'" by auto
  have "RPCAppendChunkHandler env p secs b cl = (Return (ci_length c, Success), cl')"
    using a(1) f(1) p(1) by (simp add: RPCAppendChunkHandler_def at_server_def del: fun_upd_apply)
  moreover have "grown_on h ws (set (p # secs)) cl cl'" using grown_on_insert [OF p(1) g _ f(2)] dist by simp
  ultimately show ?thesis by blast
qed

section \<open>An append of the client\<close>

text \<open>A replica that holds a chunk and has not seen the buffer id yet.\<close>

definition fresh_on :: "chunk_handle \<Rightarrow> byte list \<Rightarrow> buffer_id \<Rightarrow> server_addr set \<Rightarrow> cluster \<Rightarrow> bool" where
  "fresh_on h bs b R cl \<longleftrightarrow> (\<forall>r\<in>R. \<exists>cs c. cl r = Some cs \<and> cs_inv cs \<and> info cs h = Some c \<and> \<not> ci_abandoned c \<and>
     bytes cs h = Some bs \<and> staged (downloadBuffer cs) b = None)"

lemma grown_restaged: "restaged f cs cs1 \<Longrightarrow> grown h ws cs1 cs2 \<Longrightarrow> grown h ws cs cs2"
  by (simp add: grown_def restaged_simps)

lemma staged_on_ready:
  assumes "staged_on b ws R cl cl'" and "bid_handle b = h" and "fresh_on h bs b R cl"
  shows "ready_on h bs b ws R cl'"
  unfolding ready_on_def
proof
  fix r assume r: "r \<in> R"
  then obtain cs cs' where cs: "cl r = Some cs" "cl' r = Some cs'" "restaged (added b ws) cs cs'"
    using assms(1) unfolding staged_on_def by blast
  moreover obtain c where c: "cs_inv cs" "info cs h = Some c" "\<not> ci_abandoned c" "bytes cs h = Some bs"
    using assms(3) r cs(1) unfolding fresh_on_def by (metis option.inject)
  ultimately show "\<exists>cs. cl' r = Some cs \<and> cs_inv cs \<and> ready h bs b ws cs"
    using assms(2) restaged_inv [OF cs(3) c(1)] cs_inv_lengths [OF c(1,2)] cs_invD(1) [OF c(1)]
    by (auto simp: ready_def restaged_simps)
qed

lemma staged_then_grown:
  assumes "staged_on b ws R cl cl1" and "grown_on h ws R cl1 cl2"
  shows "grown_on h ws R cl cl2"
proof -
  have "\<exists>cs cs'. cl r = Some cs \<and> cl2 r = Some cs' \<and> grown h ws cs cs'" if "r \<in> R" for r
  proof -
    note r = that
    obtain cs cs1 where s: "cl r = Some cs" "cl1 r = Some cs1" "restaged (added b ws) cs cs1"
      using assms(1) r unfolding staged_on_def by blast
    have "\<exists>cs cs'. cl1 r = Some cs \<and> cl2 r = Some cs' \<and> grown h ws cs cs'" using assms(2) r unfolding grown_on_def by blast
    with s(2) obtain cs2 where g: "cl2 r = Some cs2" "grown h ws cs1 cs2" by auto
    show ?thesis using s(1) g(1) grown_restaged [OF s(3) g(2)] by blast
  qed
  moreover have "cl2 r = cl r" if "r \<notin> R" for r using assms that unfolding grown_on_def staged_on_def by metis
  ultimately show ?thesis unfolding grown_on_def by blast
qed

lemma AppendChunk_grows:
  assumes cache: "map_of (sys_cache s) h = Some ls" "\<not> IsExpired ls (hc_now (env 1))"
    and servers: "l_Primary ls = p" "l_Secondaries ls = secs" "distinct (p # secs)" "p \<noteq> ''''"
    and net: "\<And>r. \<exists>fates. ev_net (hc_cs (env 1)) r = Delivered # fates"
    and fresh: "fresh_on h bs (NewDownloadBufferId (hc_id (env 1)) h) (set (p # secs)) (sys_servers s)"
    and prim: "sys_servers s p = Some cs" "info cs h = Some c"
    and fits: "ci_length c + int (length ws) \<le> ChunkMaxSizeInByte" "int (length ws) \<le> AppendMaxSizeInByte"
  shows "\<exists>cl'. AppendChunk env h ws s = (Inr (ci_length c), s\<lparr>sys_servers := cl'\<rparr>) \<and> grown_on h ws (set (p # secs)) (sys_servers s) cl'"
proof -
  let ?b = "NewDownloadBufferId (hc_id (env 1)) h" and ?env = "hc_cs (env 1)"
  have "\<exists>cs. sys_servers s r = Some cs \<and> staged (downloadBuffer cs) ?b = None" if "r \<in> set (p # secs)" for r
    using fresh that unfolding fresh_on_def by blast
  from forward_new [where cl = "sys_servers s" and env = ?env and ws = ws, OF this servers(3) net] obtain cl1 where
    f: "RPCForwardDataHandler ?env p ?b ws secs (sys_servers s) = (Return (), cl1)" "staged_on ?b ws (set (p # secs)) (sys_servers s) cl1"
    unfolding staged_on_def by blast
  have ready: "ready_on h bs ?b ws (set (p # secs)) cl1"
    by (rule staged_on_ready [OF f(2) _ fresh]) (simp add: NewDownloadBufferId_def)
  obtain cs1 where p1: "cl1 p = Some cs1" "info cs1 h = Some c"
    using f(2) prim unfolding staged_on_def by (force simp: restaged_simps)
  obtain cl2 where a: "RPCAppendChunkHandler ?env p secs ?b cl1 = (Return (ci_length c, Success), cl2)" "grown_on h ws (set (p # secs)) cl1 cl2"
    using RPCAppendChunk_delivers [OF ready servers(3) p1 fits(1) net] by blast
  have "server_call (env 1) p (RPCForwardDataHandler ?env p ?b ws secs) s = (Inr (), s\<lparr>sys_servers := cl1\<rparr>)"
    by (rule server_call_delivered [where s = s and env = "env 1"]) (use net f(1) in auto)
  moreover have "server_call (env 1) p (RPCAppendChunkHandler ?env p secs ?b) (s\<lparr>sys_servers := cl1\<rparr>) =
      (Inr (ci_length c, Success), s\<lparr>sys_servers := cl2\<rparr>)"
    using server_call_delivered [where env = "env 1" and s = "s\<lparr>sys_servers := cl1\<rparr>" and f = "RPCAppendChunkHandler ?env p secs ?b"] net a(1) by simp
  moreover have "ObtainLease (env 1) h 0 s = (Inr (ls, 0), s)" using cache by (simp add: ObtainLease_def)
  ultimately have "append_attempts (Suc 1) env h ws s = (Inr (ci_length c), s\<lparr>sys_servers := cl2\<rparr>)"
    using servers by (simp add: bind_client_def Let_def)
  moreover have "AppendChunk env h ws s = append_attempts (Suc 1) env h ws s"
    using fits(2) by (simp add: AppendChunk_def numeral_2_eq_2 del: append_attempts.simps)
  ultimately show ?thesis using staged_then_grown [OF f(2) a(2)] by (intro exI [of _ cl2]) simp
qed

section \<open>A file after an append\<close>

lemma server_grown:
  assumes g: "grown_on h ws R cl cl'" and cs: "cl a = Some cs" "cs_inv cs" "info cs h' = Some c" "\<not> ci_abandoned c" "bytes cs h' = Some bs"
    and "h' = h \<Longrightarrow> a \<in> R"
  shows "\<exists>cs' c'. cl' a = Some cs' \<and> cs_inv cs' \<and> info cs' h' = Some c' \<and> \<not> ci_abandoned c' \<and>
    bytes cs' h' = Some (if h' = h then bs @ ws else bs)"
proof (cases "a \<in> R")
  case True
  then have "\<exists>cs cs'. cl a = Some cs \<and> cl' a = Some cs' \<and> grown h ws cs cs'" using g unfolding grown_on_def by blast
  with cs(1) obtain cs' where cs': "cl' a = Some cs'" "grown h ws cs cs'" by auto
  then have "map_option ci_abandoned (info cs' h') = Some False" using cs(3,4) by (simp add: grown_def)
  then obtain c' where "info cs' h' = Some c'" "\<not> ci_abandoned c'" by auto
  with cs' cs(5) show ?thesis by (auto simp: grown_def)
next
  case False
  then show ?thesis using assms by (auto simp: grown_on_def)
qed

lemma chunk_held_grown:
  assumes "chunk_held s h' bs" and g: "grown_on h ws R (sys_servers s) cl'"
    and "getReplicas h (chunkServerManager (sys_master s)) = Return locs" and "set locs \<subseteq> R"
  shows "chunk_held (s\<lparr>sys_servers := cl'\<rparr>) h' (if h' = h then bs @ ws else bs)"
proof -
  obtain ls where ls: "getReplicas h' (chunkServerManager (sys_master s)) = Return ls" "ls \<noteq> []"
    "\<And>a. a \<in> set ls \<Longrightarrow> \<exists>cs c. sys_servers s a = Some cs \<and> cs_inv cs \<and> info cs h' = Some c \<and> \<not> ci_abandoned c \<and> bytes cs h' = Some bs"
    using assms(1) unfolding chunk_held_def by blast
  have "\<exists>cs' c'. cl' a = Some cs' \<and> cs_inv cs' \<and> info cs' h' = Some c' \<and> \<not> ci_abandoned c' \<and>
      bytes cs' h' = Some (if h' = h then bs @ ws else bs)" if "a \<in> set ls" for a
    using ls(3) [OF that] server_grown [OF g, of a] ls(1) assms(3,4) that by fastforce
  then show ?thesis using ls(1,2) by (simp add: chunk_held_def)
qed

lemma nth_grown_last:
  assumes "xs \<noteq> []" and "i < length xs"
  shows "(butlast xs @ [last xs @ ws]) ! i = (if Suc i = length xs then xs ! i @ ws else xs ! i)"
proof (cases "Suc i = length xs")
  case True
  then have "i = length xs - 1" by simp
  with assms show ?thesis by (simp add: nth_append last_conv_nth)
next
  case False
  with assms have "i < length (butlast xs)" by simp
  with False show ?thesis by (simp add: nth_append nth_butlast)
qed

lemma file_held_grown:
  assumes held: "file_held a bss s" and "bss \<noteq> []" and h: "h = last (handles_of (chunkServerManager (sys_master s)) (abs_path a))"
    and "grown_on h ws R (sys_servers s) cl'" and "getReplicas h (chunkServerManager (sys_master s)) = Return locs" and "set locs \<subseteq> R"
  shows "file_held a (butlast bss @ [last bss @ ws]) (s\<lparr>sys_servers := cl'\<rparr>)"
proof -
  let ?hs = "handles_of (chunkServerManager (sys_master s)) (abs_path a)"
  have l2: "list_all2 (chunk_held s) ?hs bss" and inv: "ms_inv (sys_master s)" using held by (auto simp: file_held_def)
  have len: "length ?hs = length bss" using l2 by (rule list_all2_lengthD)
  have dist: "distinct ?hs" using inv by (simp add: ms_inv_def csm_invD)
  have "chunk_held (s\<lparr>sys_servers := cl'\<rparr>) (?hs ! i) ((butlast bss @ [last bss @ ws]) ! i)" if "i < length bss" for i
  proof -
    have hs: "h = ?hs ! (length bss - 1)" using h len assms(2) by (metis last_conv_nth length_0_conv)
    have "length bss - 1 < length ?hs" using len assms(2) by simp
    then have "?hs ! i = h \<longleftrightarrow> i = length bss - 1" unfolding hs using nth_eq_iff_index_eq [OF dist] that len by metis
    also have "i = length bss - 1 \<longleftrightarrow> Suc i = length bss" using assms(2) by auto
    finally have "?hs ! i = h \<longleftrightarrow> Suc i = length bss" .
    then show ?thesis
      using chunk_held_grown [OF list_all2_nthD2 [OF l2 that] assms(4-6)] nth_grown_last [OF assms(2) that] by auto
  qed
  then have "list_all2 (chunk_held (s\<lparr>sys_servers := cl'\<rparr>)) ?hs (butlast bss @ [last bss @ ws])"
    using len assms(2) by (intro list_all2_all_nthI) simp_all
  then show ?thesis using held assms(2) by (auto simp: file_held_def)
qed

lemma chunked_last:
  assumes "chunked n bss" and "bss \<noteq> []"
  shows "length (concat bss) = n * (length bss - 1) + length (last bss)"
  using assms by (induction bss) (auto simp: chunked_Cons algebra_simps neq_Nil_conv)

lemma chunked_grown: "chunked n bss \<Longrightarrow> bss \<noteq> [] \<Longrightarrow> length (last bss) + length ws \<le> n \<Longrightarrow> chunked n (butlast bss @ [last bss @ ws])"
  by (induction bss) (auto simp: chunked_Cons)

lemma UpdateFileMetadata_known:
  assumes inv: "ms_inv ma" and val: "list_all valid_comp (d @ [b])" and att: "ns_view ma (d @ [b]) = Some att" "\<not> a_isdir att"
  shows "\<exists>ma'. RPCUpdateFileMetadataHandler (abs_path (d @ [b])) len n ma = (Return (), ma') \<and> ms_inv ma' \<and>
    ns_view ma' = (ns_view ma)(d @ [b] \<mapsto> att\<lparr>a_length := len, a_chunks := n\<rparr>) \<and> chunkServerManager ma' = chunkServerManager ma"
proof -
  let ?p = "abs_path (d @ [b])" and ?nm = "namespaceManager ma"
  have nm: "nm_inv ?nm" using inv by (simp add: ms_inv_def)
  have base: "Base ?p = b" "Dir ?p = abs_path d" "path_parts (abs_path d) = d" using val by (simp_all add: go_path list_all_iff)
  have "ns_view ma d \<noteq> None" using att(1) view_prefix_closed [of "ns_root ?nm" "d @ [b]" d] by simp
  then have "abs_update ?p len n (ns_view ma) = (Return (), (ns_view ma)(d @ [b] \<mapsto> att\<lparr>a_length := len, a_chunks := n\<rparr>))"
    using att by (simp add: abs_update_def base in_parent_def)
  with UpdateFileMetadata_refines [OF nm, of ?p len n] have
    "abs_res (UpdateFileMetadata ?p len n ?nm) = (Return (), (ns_view ma)(d @ [b] \<mapsto> att\<lparr>a_length := len, a_chunks := n\<rparr>))" by simp
  then obtain nm' where u: "UpdateFileMetadata ?p len n ?nm = (Return (), nm')"
    "view (ns_root nm') = (ns_view ma)(d @ [b] \<mapsto> att\<lparr>a_length := len, a_chunks := n\<rparr>)"
    by (cases "UpdateFileMetadata ?p len n ?nm") (auto simp: abs_res_def)
  have "nm_inv nm'" using nm_inv_UpdateFileMetadata [OF nm, of ?p len n] u(1) by simp
  with u inv show ?thesis
    by (intro exI [of _ "ma\<lparr>namespaceManager := nm'\<rparr>"]) (simp add: RPCUpdateFileMetadataHandler_def on_ns_def ms_inv_def)
qed

text \<open>
  A client that can append to a chunk of the given length: it has an unexpired lease in its
  cache that names the replicas the master knows, the buffer id it is about to use is new to them, and the
  primary has recorded the length.
\<close>

definition can_append :: "client_env \<Rightarrow> chunk_handle \<Rightarrow> nat \<Rightarrow> system \<Rightarrow> bool" where
  "can_append env h n s \<longleftrightarrow> (\<exists>ls locs. map_of (sys_cache s) h = Some ls \<and> \<not> IsExpired ls (hc_now env) \<and> l_Primary ls \<noteq> '''' \<and>
     distinct (l_Primary ls # l_Secondaries ls) \<and> getReplicas h (chunkServerManager (sys_master s)) = Return locs \<and>
     set locs = set (l_Primary ls # l_Secondaries ls) \<and>
     (\<forall>r\<in>set locs. \<forall>cs. sys_servers s r = Some cs \<longrightarrow> staged (downloadBuffer cs) (NewDownloadBufferId (hc_id env) h) = None) \<and>
     (\<forall>cs. sys_servers s (l_Primary ls) = Some cs \<longrightarrow> map_option ci_length (info cs h) = Some (int n)))"

lemma append_loop_first:
  assumes held: "file_held (d @ [b]) bss s" and "bss \<noteq> []" and env: "delivers (env fuel 0)" "delivers (env fuel 1)"
    and name: "list_all valid_comp d" "ValidateFilename b (abs_path (d @ [b])) = None"
    and h: "h = last (handles_of (chunkServerManager (sys_master s)) (abs_path (d @ [b])))"
    and can: "can_append (env fuel 1) h (length (last bss)) s"
    and fits: "int (length (last bss)) + int (length ws) \<le> ChunkMaxSizeInByte" "int (length ws) \<le> AppendMaxSizeInByte"
  shows "\<exists>s'. append_loop (Suc fuel) env (abs_path (d @ [b])) (int (length bss - 1)) ws s =
      (Inr (int (length bss - 1), int (length (last bss))), s') \<and>
    file_held (d @ [b]) (butlast bss @ [last bss @ ws]) s'"
proof -
  let ?p = "abs_path (d @ [b])" and ?m = "chunkServerManager (sys_master s)" and ?b = "NewDownloadBufferId (hc_id (env fuel 1)) h"
  obtain ls p secs locs where cache: "map_of (sys_cache s) h = Some ls" "\<not> IsExpired ls (hc_now (env fuel 1))"
    and servers: "l_Primary ls = p" "l_Secondaries ls = secs" "distinct (p # secs)" "p \<noteq> ''''" "getReplicas h ?m = Return locs" "set locs = set (p # secs)"
    and fresh: "\<forall>r\<in>set locs. \<forall>cs. sys_servers s r = Some cs \<longrightarrow> staged (downloadBuffer cs) ?b = None"
    and prim: "\<forall>cs. sys_servers s p = Some cs \<longrightarrow> map_option ci_length (info cs h) = Some (int (length (last bss)))"
    using can unfolding can_append_def by blast
  have i: "length bss - 1 < length bss" using assms(2) by simp
  have "length (handles_of ?m ?p) = length bss" using held by (auto simp: file_held_def list_all2_lengthD)
  then have nth: "h = handles_of ?m ?p ! (length bss - 1)" using h assms(2) by (metis last_conv_nth length_0_conv)
  obtain ma where g: "GetChunkHandle (env fuel 0) ?p (int (length bss - 1)) s = (Inr h, s\<lparr>sys_master := ma\<rparr>)"
    "chunkServerManager ma = ?m" "file_held (d @ [b]) bss (s\<lparr>sys_master := ma\<rparr>)" "chunk_held (s\<lparr>sys_master := ma\<rparr>) h (bss ! (length bss - 1))"
    using GetChunkHandle_nth [OF held i env(1) name nth] by blast
  let ?s = "s\<lparr>sys_master := ma\<rparr>"
  have last: "bss ! (length bss - 1) = last bss" using assms(2) by (simp add: last_conv_nth)
  have on: "\<exists>cs c. sys_servers s a = Some cs \<and> cs_inv cs \<and> info cs h = Some c \<and> \<not> ci_abandoned c \<and> bytes cs h = Some (last bss)"
    if "a \<in> set locs" for a using g(4) [unfolded last] that servers(5) g(2) by (auto simp: chunk_held_def)
  then have fr: "fresh_on h (last bss) ?b (set (p # secs)) (sys_servers ?s)"
    using fresh unfolding fresh_on_def servers(6) [symmetric] by fastforce
  obtain cs c where cs: "sys_servers ?s p = Some cs" "info cs h = Some c" "ci_length c = int (length (last bss))"
    using on [of p] servers(6) prim by fastforce
  obtain cl' where a: "AppendChunk (env fuel) h ws ?s = (Inr (ci_length c), ?s\<lparr>sys_servers := cl'\<rparr>)" "grown_on h ws (set (p # secs)) (sys_servers ?s) cl'"
    using AppendChunk_grows [where s = ?s and env = "env fuel", OF _ cache(2) servers(1-4) _ fr cs(1,2) _ fits(2)] cache(1) env(2) cs(3) fits(1)
    by (auto simp: delivers_def)
  have "file_held (d @ [b]) (butlast bss @ [last bss @ ws]) (?s\<lparr>sys_servers := cl'\<rparr>)"
    by (rule file_held_grown [OF g(3) assms(2) _ a(2), where locs = locs]) (use g(2) h servers(5,6) in simp_all)
  with g(1) a(1) cs(3) show ?thesis by (simp add: bind_client_def)
qed

text \<open>
  C3. An append followed by reads. Take a file whose chunks, all full but the last, are held by
  all their replicas, a client that can append to the last chunk, and a network that delivers.
  Appending data that fits returns the old length of the file
  as its position, and leaves on every replica the last chunk with the data at its end and all other chunks as
  they were; the master records the new length; and every read inside the longer file
  then returns its bytes. No lease is needed at the primary: unlike a write, an append never asks for
  one.
\<close>

theorem Append_then_Read:
  assumes "file_held (d @ [b]) bss s" and "bss \<noteq> []" and "chunked (nat ChunkMaxSizeInByte) bss"
    and "delivers env0" and "delivers (env fuel 0)" and "delivers (env fuel 1)"
    and "list_all valid_comp d" and "ValidateFilename b (abs_path (d @ [b])) = None"
    and "can_append (env fuel 1) (last (handles_of (chunkServerManager (sys_master s)) (abs_path (d @ [b])))) (length (last bss)) s"
    and "int (length (last bss)) + int (length ws) \<le> ChunkMaxSizeInByte" and "int (length ws) \<le> AppendMaxSizeInByte"
  shows "\<exists>s'. Append (Suc fuel) env0 env (abs_path (d @ [b])) ws s = (Inr (int (length (concat bss))), s') \<and>
    file_held (d @ [b]) (butlast bss @ [last bss @ ws]) s' \<and>
    map_option a_length (ns_view (sys_master s') (d @ [b])) = Some (int (length (concat bss @ ws))) \<and>
    (\<forall>env0' env' off buf. delivers env0' \<longrightarrow> (\<forall>k. delivers (env' k)) \<longrightarrow> off + length buf \<le> length (concat bss @ ws) \<longrightarrow>
       (\<exists>s''. Read env0' env' (abs_path (d @ [b])) (int off) buf s' =
          ((int (length buf), None, take (length buf) (drop off (concat bss @ ws))), s'')))"
proof -
  let ?p = "abs_path (d @ [b])" and ?bss = "butlast bss @ [last bss @ ws]" and ?n = "int (length (concat bss @ ws))"
  have val: "list_all valid_comp (d @ [b])" using assms(7) valid_name [OF assms(8)] by simp
  obtain att where att: "ms_inv (sys_master s)" "ns_view (sys_master s) (d @ [b]) = Some att" "\<not> a_isdir att" "a_chunks att = int (length bss)"
    using assms(1) unfolding file_held_def by blast
  have "on_master (RPCGetFileInfoHandler ?p) s = (Return (int (length bss), False, a_length att), s)"
    using GetFileInfo_known [OF att(1) val att(2)] att(3,4) by (simp add: on_master_def)
  then have f: "GetFile env0 ?p s = (Inr (int (length bss), False, a_length att), s)"
    unfolding GetFile_def by (rule master_call_delivered [OF assms(4)])
  have start: "max (int (length bss) - 1) 0 = int (length bss - 1)" using assms(2) by (simp add: of_nat_diff Suc_leI)
  obtain s1 where l: "append_loop (Suc fuel) env ?p (int (length bss - 1)) ws s = (Inr (int (length bss - 1), int (length (last bss))), s1)"
    "file_held (d @ [b]) ?bss s1"
    using append_loop_first [where env = env and fuel = fuel, OF assms(1,2,5-8) refl assms(9-11)] by blast
  then obtain att1 where att1: "ms_inv (sys_master s1)" "ns_view (sys_master s1) (d @ [b]) = Some att1" "\<not> a_isdir att1"
    unfolding file_held_def by blast
  have pos: "int (length bss - 1) * ChunkMaxSizeInByte + int (length (last bss)) = int (length (concat bss))"
    using ChunkMax_pos unfolding chunked_last [OF assms(3,2)] of_nat_add of_nat_mult by simp
  obtain ma where ma: "RPCUpdateFileMetadataHandler ?p ?n (int (length bss - 1) + 1) (sys_master s1) = (Return (), ma)" "ms_inv ma"
    "ns_view ma = (ns_view (sys_master s1))(d @ [b] \<mapsto> att1\<lparr>a_length := ?n, a_chunks := int (length bss - 1) + 1\<rparr>)"
    "chunkServerManager ma = chunkServerManager (sys_master s1)"
    using UpdateFileMetadata_known [OF att1(1) val att1(2,3)] by blast
  let ?s = "s1\<lparr>sys_master := ma\<rparr>"
  have "master_call env0 (on_master (RPCUpdateFileMetadataHandler ?p ?n (int (length bss - 1) + 1))) s1 = (Inr (), ?s)"
    by (rule master_call_delivered [OF assms(4)]) (simp only: on_master_def ma(1) prod.case)
  then have run: "Append (Suc fuel) env0 env ?p ws s = (Inr (int (length (concat bss))), ?s)"
    using assms(11) f l(1) start pos by (simp add: Append_def bind_client_def Let_def del: append_loop.simps length_concat)
  have "chunk_held ?s = chunk_held s1" using ma(4) by (intro chunk_held_cong) simp_all
  then have held: "file_held (d @ [b]) ?bss ?s"
    using l(2) ma att1(3) assms(2) by (auto simp: file_held_def of_nat_diff Suc_leI)
  have "length (last bss) + length ws \<le> nat ChunkMaxSizeInByte" using assms(10) by linarith
  then have ch: "chunked (nat ChunkMaxSizeInByte) ?bss" by (rule chunked_grown [OF assms(3,2)])
  have cc: "concat ?bss = concat bss @ ws" using append_butlast_last_id [OF assms(2)] by (metis append.assoc concat_append concat.simps append_Nil2)
  have "\<exists>s''. Read env0' env' ?p (int off) buf ?s = ((int (length buf), None, take (length buf) (drop off (concat bss @ ws))), s'')"
    if "delivers env0'" "\<forall>k. delivers (env' k)" "off + length buf \<le> length (concat bss @ ws)" for env0' env' off buf
    using Read_exact [OF that(1) _ ch assms(7,8) _ held, of env' off buf] that(2,3) unfolding cc by blast
  moreover have "map_option a_length (ns_view (sys_master ?s) (d @ [b])) = Some ?n" using ma(3) by simp
  ultimately show ?thesis using run held by blast
qed

text \<open>The file of one chunk on two servers, and a client with a lease for it; the primary itself has none.\<close>

definition append_system :: "byte list \<Rightarrow> system" where
  "append_system bs = (read_system bs)\<lparr>sys_cache := [(7, demo_lease)]\<rparr>"

theorem Append_then_Read_witness:
  "\<exists>s'. Append 1 demo_client_env (\<lambda>_ _. demo_client_env) ''/f.txt'' [8, 9] (append_system [4, 2, 3]) = (Inr 3, s') \<and>
     (\<exists>s''. Read demo_client_env (\<lambda>_. demo_client_env) ''/f.txt'' 2 [0, 0, 0] s' = ((3, None, [3, 8, 9]), s''))"
proof -
  let ?bs = "[4, 2, 3] :: byte list" and ?s = "append_system [4, 2, 3]"
  have p: "abs_path [''f.txt''] = ''/f.txt''" by (simp add: abs_path_def)
  have e: "delivers demo_client_env" by (simp add: delivers_def demo_client_env_def demo_env_def)
  have "file_held ([] @ [''f.txt'']) [?bs] (read_system ?bs)" by (rule read_system_held) (simp add: ChunkMaxSizeInByte_def)
  then have h: "file_held ([] @ [''f.txt'']) [?bs] ?s" by (simp add: file_held_def chunk_held_def [abs_def] append_system_def)
  have c: "chunked (nat ChunkMaxSizeInByte) [?bs]" by (simp add: chunked_def ChunkMaxSizeInByte_def)
  have n: "ValidateFilename ''f.txt'' (abs_path ([] @ [''f.txt''])) = None" by (simp add: ValidateFilename_def)
  have hs: "last (handles_of (chunkServerManager (sys_master ?s)) (abs_path ([] @ [''f.txt'']))) = 7"
    by (simp add: append_system_def read_system_def read_master_def handles_of_def p)
  have "can_append demo_client_env 7 (length (last [?bs])) ?s"
    unfolding can_append_def
    by (intro exI [of _ demo_lease] exI [of _ "[''p'', ''s'']"])
       (simp add: append_system_def read_system_def read_master_def demo_master_def demo_lease_def IsExpired_def demo_client_env_def demo_env_def
         getReplicas_def demo_server_def empty_server_def staged_def demo_id_def NewDownloadBufferId_def new_chunk_info_def)
  from Append_then_Read [where env = "\<lambda>_ _. demo_client_env" and fuel = 0 and ws = "[8, 9]", OF h _ c e e e _ n this [folded hs]]
  obtain s' where s': "Append 1 demo_client_env (\<lambda>_ _. demo_client_env) ''/f.txt'' [8, 9] ?s = (Inr 3, s')"
    "\<And>env0' env' off buf. delivers env0' \<Longrightarrow> (\<forall>k. delivers (env' k)) \<Longrightarrow> off + length buf \<le> 5 \<Longrightarrow>
       \<exists>s''. Read env0' env' ''/f.txt'' (int off) buf s' = ((int (length buf), None, take (length buf) (drop off (?bs @ [8, 9]))), s'')"
    by (auto simp: p ChunkMaxSizeInByte_def AppendMaxSizeInByte_def)
  from s'(2) [of demo_client_env "\<lambda>_. demo_client_env" 2 "[0, 0, 0]"] e s'(1) show ?thesis by (intro exI [of _ s']) simp
qed

end
