(* ===== verification/Spec2Isabelle.thy ===== *)
theory Spec2Isabelle
  imports Prelude Go_Path Deque Helpers BQueue Download_Buffer Ns_Tree Ns_Locks Namespace_Manager
    Ns_Refinement Ns_Properties Ns_Serialize Ns_List Common_Types Chunk_Server_Manager Csm_Properties
    Csm_Leases Master_Server Master_Properties File_System File_System_Properties Archive Rpc Chunk_Server
    Chunk_Server_Properties Chunk_Server_Limits Chunk_Server_Lifecycle Lease_Protocol Hercules_Client Client_Writes
    Client_Reads Gateway Gateway_Properties Failure_Detector Chunk_Locks Gob_Check Proximity Engine Startup
    Rpc_Structs Rpc_Dispatch Client_Appends
begin

text \<open>
  Verification of hercules-dfs, a distributed file system in the manner of GFS, written in Go.

  \<^bold>\<open>The program.\<close> A \<^emph>\<open>master\<close> keeps the namespace (a tree of directories and files) and the records of
  chunks: which handles a file consists of, which servers hold each chunk, which server has the
  lease for it. \<^emph>\<open>Chunk servers\<close> keep chunks of at most 64 MB as files, serve reads and mutations,
  forward staged data along the chain of replicas, and report to the master by heartbeats. A
  \<^emph>\<open>client library\<close> asks the master for handles and leases, stages data on the replicas and commits it
  at the primary. An HTTP \<^emph>\<open>gateway\<close> turns requests into calls of the client. All parts talk by
  remote calls that are retried, so a handler may run more than once. One program starts either a
  chunk server, the master or the gateway, as its flags say.

  \<^bold>\<open>Layers.\<close> Each theory models one component, in the order of its source file, with a theory of its
  properties where it is large.

  \<^item> \<^verbatim>\<open>Prelude\<close>: the outcomes of Go code (\<open>Return\<close>, \<open>Fail\<close> with an error value, \<open>Panic\<close>, \<open>Deadlock\<close> for
    a wait that never ends, \<open>OutOfFuel\<close>), sequencing of outcomes and of state-passing steps, the
    error values, and the constants of \<^verbatim>\<open>src/common/constants.go\<close>. \<^verbatim>\<open>Go_Path\<close>: the path functions
    of the Go library. \<^verbatim>\<open>Common_Types\<close>: \<^verbatim>\<open>src/common/types.go\<close>.
  \<^item> \<^verbatim>\<open>Deque\<close> (\<^verbatim>\<open>src/common/queue.go\<close>): linked nodes in an explicit heap; a locale states the contract
    of a queue and is interpreted for first-in-first-out and for last-in-first-out use.
    \<^verbatim>\<open>BQueue\<close> (\<^verbatim>\<open>src/common/bqueue.go\<close>): the bounded queue as a step relation of threads on its
    condition variable. \<^verbatim>\<open>Helpers\<close> (\<^verbatim>\<open>src/common/helpers.go\<close>).
  \<^item> \<^verbatim>\<open>Download_Buffer\<close> (\<^verbatim>\<open>src/download_buffer\<close>): staging of data until it is committed.
  \<^item> \<^verbatim>\<open>Ns_Tree\<close>, \<^verbatim>\<open>Ns_Locks\<close>, \<^verbatim>\<open>Namespace_Manager\<close>, \<^verbatim>\<open>Ns_Serialize\<close>, \<^verbatim>\<open>Ns_List\<close>
    (\<^verbatim>\<open>src/namespace_manager/nsmanager.go\<close>): the tree, the reader and writer counts of its node
    mutexes, every operation with the locks it takes, the cleanup goroutines, persistence and
    listing. \<^verbatim>\<open>Ns_Refinement\<close> and \<^verbatim>\<open>Ns_Properties\<close> relate them to an abstract namespace, a map from
    addresses to attributes.
  \<^item> \<^verbatim>\<open>Chunk_Server_Manager\<close> (\<^verbatim>\<open>src/master_server/cs_manager.go\<close>) with \<^verbatim>\<open>Csm_Properties\<close> and
    \<^verbatim>\<open>Csm_Leases\<close>; \<^verbatim>\<open>Master_Server\<close> (\<^verbatim>\<open>src/master_server/master_server.go\<close>) with
    \<^verbatim>\<open>Master_Properties\<close>: every handler that changes state, heartbeats, replication, persistence.
  \<^item> \<^verbatim>\<open>File_System\<close> (\<^verbatim>\<open>src/file_system\<close>) on an explicit disk, \<^verbatim>\<open>Archive\<close> (\<^verbatim>\<open>src/archive\<close>) with gzip as
    a parameter, \<^verbatim>\<open>Rpc\<close> (\<^verbatim>\<open>src/shared/rpc.go\<close>): a call consumes a list of fates (no connection, reply
    lost, delivered), one per attempt; a broadcast runs its calls in any order.
  \<^item> \<^verbatim>\<open>Rpc_Structs\<close> (\<^verbatim>\<open>src/rpc_struct/structs.go\<close>): one record per struct and the sums of them.
    \<^verbatim>\<open>Rpc_Dispatch\<close> (\<^verbatim>\<open>src/rpc_struct/handlers.go\<close>): calls by name, on the handlers of both kinds of server;
    a locale states what a service promises and is interpreted for both. \<^verbatim>\<open>Gob_Check\<close>
    (\<^verbatim>\<open>src/common/gob.go\<close>): the checks around encoding, on a table of types.
  \<^item> \<^verbatim>\<open>Chunk_Server\<close> (\<^verbatim>\<open>src/chunkserver/chunkserver.go\<close>): one server as a record, a cluster as a map from
    addresses to servers; handlers that call other servers act on the cluster. Its properties are
    in \<^verbatim>\<open>Chunk_Server_Properties\<close>, \<^verbatim>\<open>Chunk_Server_Limits\<close> and \<^verbatim>\<open>Chunk_Server_Lifecycle\<close>.
    \<^verbatim>\<open>Chunk_Locks\<close> is the step relation of requests on the mutexes of one server.
    \<^verbatim>\<open>Lease_Protocol\<close> joins master and chunk servers.
  \<^item> \<^verbatim>\<open>Hercules_Client\<close> (\<^verbatim>\<open>src/hercules/hercules.go\<close>): the client on a system of master, cluster and
    lease cache, where handlers of the master call the chunk servers of the same system.
    \<^verbatim>\<open>Client_Writes\<close>, \<^verbatim>\<open>Client_Reads\<close> and \<^verbatim>\<open>Client_Appends\<close> follow a write, a read and an append
    through all of them.
  \<^item> \<^verbatim>\<open>Gateway\<close> (\<^verbatim>\<open>src/gateway/server.go\<close>) and \<^verbatim>\<open>Gateway_Properties\<close>: requests, handlers, routes.
    \<^verbatim>\<open>Engine\<close> (\<^verbatim>\<open>src/engine/server.go\<close> and the life cycle in \<^verbatim>\<open>src/gateway/server.go\<close>): the HTTP server
    on the events that happen to it.
  \<^item> \<^verbatim>\<open>Failure_Detector\<close> (\<^verbatim>\<open>src/detector\<close>): the sampling window on an abstract sorted set, and the
    classification of a server.
  \<^item> \<^verbatim>\<open>Proximity\<close> (start of a chunk server, with the address check and the measurement of distance) and
    \<^verbatim>\<open>Startup\<close> (\<^verbatim>\<open>src/main.go\<close>; construction, background loop, metadata file and shutdown of the master):
    a process on a machine whose flags, environment, files and services are a record.

  \<^bold>\<open>How state and effects correspond.\<close> A Go struct is a record and a method a function on it that
  returns an outcome and the new record; a map is an association list in insertion order or, where
  only lookups matter, a function. Errors are values, so every early return is a branch. Time is an
  argument; the random permutation of a placement, the choice of a replica, the order in which
  replicas answer and what the network does are arguments too, so a theorem that does not restrict
  them holds for all. Mutexes are modelled where an operation can wait for itself or for another
  (namespace, bounded queue, staging buffer, the table and the chunks of a chunk server); the models
  of the handlers themselves run one at a time. Integers are
  unbounded where the code stays within 64 bits; the size guard of mutations is
  computed modulo \<^verbatim>\<open>2^64\<close> as in the source. Floating-point numbers are rationals (backoff, sizes
  in megabytes) or reals (suspicion); rounding is not modelled.

  \<^bold>\<open>Loops and fuel.\<close> Loops over slices and trees are structural. The walk of the namespace that lists
  it takes as fuel the number of nodes, which is proved to be enough. A read takes one round per
  byte of its buffer and one more; a round without an error reads at least one byte, and the
  theorem on reads shows that the result is reached. Writing and appending go on while chunks turn
  out to be full, which nothing in the code bounds, so their number of rounds is an argument. A
  retried call ends with its list of fates, cut to the number of attempts. Waits that never end are
  the outcome \<open>Deadlock\<close>.

  \<^bold>\<open>What is shown.\<close>

  \<^item> Namespace: in all reachable states the tree is well formed and no lock is held, each operation
    refines the abstract one; renaming is exact or blocks; deletion hides and then collects; listing
    is complete and ends; saving and loading is the identity up to lengths.
  \<^item> Chunk records: files, index and chunk table agree in all reachable states, handles are fresh,
    deletion leaves no trace, lease renewal and placement choose as intended; a restart restores the
    records but may give out a live handle again.
  \<^item> Chunk servers: table and files stay in step under all requests and across restarts, an
    acknowledged write has reached every replica for every behaviour of the network, writes need a
    lease; mutations never block each other for good, a read and a mutation can; appends that are repeated or do not fit go wrong in the stated ways.
  \<^item> Whole system: a read inside a file returns its bytes across chunk boundaries; an append can be
    read back; a write reaches
    all replicas but at the start of the chunk; a read at the end of a file allocates a chunk; the
    gateway answers every request, rejects without side effects, and returns zeros at the end of a
    file.
  \<^item> Infrastructure: the queues, the staging buffer, confinement of the file system to its root,
    archiving, retries and backoff, broadcasts as the sum of their calls, the sampling window of the
    failure detector, the search through recursive types before encoding.
  \<^item> Processes and calls: remote calls are well typed, heartbeats extend no lease; a restarted master
    has what a completed save held, and nothing after an interrupted one; what a process does when
    its surroundings fail it, and how it ends.

  \<^bold>\<open>Not modelled.\<close> The goroutines that accept connections and the connection handling of \<^verbatim>\<open>net/rpc\<close> and
  \<^verbatim>\<open>net/http\<close>; logging and the formatting of messages; the middleware of the router and the cipher settings; the bytes of
  encoded metadata and messages (\<^verbatim>\<open>encoding/gob\<close>, JSON), whose values are kept decoded; the plotting tool
  \<^verbatim>\<open>src/plotter\<close>, which nothing else uses. SHA-256, gzip, the commands of Redis, JSON, the
  error function, the encoder, the ping program and the loading of certificates are parameters with the laws the code relies on.
  Handlers of one server that interleave inside a handler are not modelled beyond the places named above.
\<close>

end
